(* ===== verification/Ozone_Prelude.thy ===== *)
theory Ozone_Prelude
  imports Main "HOL-Library.Word" "HOL-Library.Char_ord" "HOL-Library.List_Lexorder"
begin

text \<open>
  What the component theories share: the machine integers of the Rust sources as type
  synonyms of \<^typ>\<open>'a word\<close>, the outcome of a Rust call (\<open>Ok\<close>, \<open>Err\<close> or a panic), the slice
  and arithmetic operations of the standard library that the sources use, and decimal
  printing and parsing of unsigned integers.
\<close>

unbundle bit_operations_syntax

named_theorems res_simps \<open>rewriting of the Rust outcome monad\<close>

type_synonym u8 = "8 word"
type_synonym u16 = "16 word"
type_synonym u32 = "32 word"
type_synonym u64 = "64 word"
type_synonym bytes = "u8 list"

section \<open>Outcomes of Rust calls\<close>

text \<open>
  A Rust function that returns \<open>Result<T, E>\<close> and may index a slice has three outcomes.
  \<open>rbind\<close> is the \<open>?\<close> operator followed by the rest of the function.
\<close>

datatype ('e, 'a) result = Ok (the_ok: 'a) | Err 'e | Panic

primrec rbind :: "('e, 'a) result \<Rightarrow> ('a \<Rightarrow> ('e, 'b) result) \<Rightarrow> ('e, 'b) result" where
  "rbind (Ok x) f = f x"
| "rbind (Err e) f = Err e"
| "rbind Panic f = Panic"

primrec map_err :: "('e \<Rightarrow> 'f) \<Rightarrow> ('e, 'a) result \<Rightarrow> ('f, 'a) result" where
  "map_err g (Ok x) = Ok x"
| "map_err g (Err e) = Err (g e)"
| "map_err g Panic = Panic"

primrec ok_or :: "'a option \<Rightarrow> 'e \<Rightarrow> ('e, 'a) result" where
  "ok_or None e = Err e"
| "ok_or (Some x) e = Ok x"

text \<open>\<open>iter().map(f).collect::<Result<Vec<_>, _>>()\<close>: the first error wins.\<close>

fun rmap_list :: "('a \<Rightarrow> ('e, 'b) result) \<Rightarrow> 'a list \<Rightarrow> ('e, 'b list) result" where
  "rmap_list f [] = Ok []"
| "rmap_list f (x # xs) = rbind (f x) (\<lambda>y. rbind (rmap_list f xs) (\<lambda>ys. Ok (y # ys)))"

text \<open>A \<open>for\<close> loop whose body may return early with an error; the state is threaded.\<close>

fun rfold :: "('a \<Rightarrow> 's \<Rightarrow> ('e, 's) result) \<Rightarrow> 'a list \<Rightarrow> 's \<Rightarrow> ('e, 's) result" where
  "rfold f [] s = Ok s"
| "rfold f (x # xs) s = rbind (f x s) (rfold f xs)"

text \<open>
  Code that also changes a state: the pair of the new state and the outcome. \<open>try_st\<close> is the
  \<open>?\<close> operator on a call that leaves the state alone, \<open>try_upd\<close> on one that changes it.
\<close>

definition try_st :: "'s \<Rightarrow> ('e, 'a) result \<Rightarrow> ('a \<Rightarrow> 's \<times> ('e, 'b) result) \<Rightarrow> 's \<times> ('e, 'b) result" where
  "try_st st r f = (case r of Ok x \<Rightarrow> f x | Err e \<Rightarrow> (st, Err e) | Panic \<Rightarrow> (st, Panic))"

definition try_upd ::
    "'s \<times> ('e, 'a) result \<Rightarrow> ('s \<Rightarrow> 'a \<Rightarrow> 's \<times> ('e, 'b) result) \<Rightarrow> 's \<times> ('e, 'b) result" where
  "try_upd m f = (case m of (st, r) \<Rightarrow> try_st st r (f st))"

lemma try_st_simps [simp]:
  "try_st st (Ok x) f = f x" "try_st st (Err e) f = (st, Err e)" "try_st st Panic f = (st, Panic)"
  by (simp_all add: try_st_def)

lemma try_upd_simps [simp]:
  "try_upd (st, Ok x) f = f st x" "try_upd (st, Err e) f = (st, Err e)"
  "try_upd (st, Panic) f = (st, Panic)"
  by (simp_all add: try_upd_def)

lemma try_st_rbind: "try_st st (rbind r g) f = try_st st r (\<lambda>x. try_st st (g x) f)"
  by (cases r) simp_all

lemma try_st_eq_Ok [res_simps]:
  "try_st st r f = (st', Ok y) \<longleftrightarrow> (\<exists>x. r = Ok x \<and> f x = (st', Ok y))"
  by (cases r) auto

lemma try_upd_eq_Ok [res_simps]:
  "try_upd m f = (st', Ok y) \<longleftrightarrow> (\<exists>st x. m = (st, Ok x) \<and> f st x = (st', Ok y))"
  by (cases m) (auto simp: try_upd_def res_simps try_st_eq_Ok)

lemma rbind_eq_Ok [res_simps]: "rbind m f = Ok y \<longleftrightarrow> (\<exists>x. m = Ok x \<and> f x = Ok y)"
  by (cases m) auto

lemma rbind_eq_Panic [res_simps]:
  "rbind m f = Panic \<longleftrightarrow> m = Panic \<or> (\<exists>x. m = Ok x \<and> f x = Panic)"
  by (cases m) auto

lemma rbind_eq_Err [res_simps]:
  "rbind m f = Err e \<longleftrightarrow> m = Err e \<or> (\<exists>x. m = Ok x \<and> f x = Err e)"
  by (cases m) auto

lemma map_err_eq [res_simps]:
  "map_err g m = Ok x \<longleftrightarrow> m = Ok x"
  "map_err g m = Panic \<longleftrightarrow> m = Panic"
  "map_err g m = Err e \<longleftrightarrow> (\<exists>e'. m = Err e' \<and> e = g e')"
  by (cases m; auto)+

lemma ok_or_eq [res_simps]:
  "ok_or m e = Ok x \<longleftrightarrow> m = Some x"
  "ok_or m e = Err e' \<longleftrightarrow> m = None \<and> e' = e"
  "ok_or m e \<noteq> Panic"
  by (cases m; auto)+

lemma rbind_assoc: "rbind (rbind m f) g = rbind m (\<lambda>x. rbind (f x) g)"
  by (cases m) auto

lemma rbind_cong [fundef_cong]:
  "m = m' \<Longrightarrow> (\<And>x. m' = Ok x \<Longrightarrow> f x = f' x) \<Longrightarrow> rbind m f = rbind m' f'"
  by (cases m') auto

lemma rmap_list_Ok_map: "(\<And>x. x \<in> set xs \<Longrightarrow> f x = Ok (g x)) \<Longrightarrow> rmap_list f xs = Ok (map g xs)"
  by (induction xs) auto

lemma rmap_list_eq_Ok:
  "rmap_list f xs = Ok ys \<longleftrightarrow> list_all2 (\<lambda>x y. f x = Ok y) xs ys"
proof (induction xs arbitrary: ys)
  case Nil
  then show ?case by (cases ys) auto
next
  case (Cons x xs)
  then show ?case by (cases ys) (auto simp: res_simps)
qed

lemma rmap_list_not_Panic: "(\<And>x. x \<in> set xs \<Longrightarrow> f x \<noteq> Panic) \<Longrightarrow> rmap_list f xs \<noteq> Panic"
  by (induction xs) (auto simp: res_simps)

lemma rfold_append: "rfold f (xs @ ys) s = rbind (rfold f xs s) (rfold f ys)"
proof (induction xs arbitrary: s)
  case (Cons x xs)
  then show ?case by (cases "f x s") simp_all
qed simp

lemma rfold_invariant:
  assumes "rfold f xs s = Ok t" and "P s"
    and "\<And>x s s'. x \<in> set xs \<Longrightarrow> P s \<Longrightarrow> f x s = Ok s' \<Longrightarrow> P s'"
  shows "P t"
  using assms
proof (induction xs arbitrary: s)
  case Nil
  then show ?case by simp
next
  case (Cons x xs)
  from Cons.prems(1) obtain s' where "f x s = Ok s'" and rest: "rfold f xs s' = Ok t"
    by (auto simp: res_simps)
  with Cons.prems have "P s'" by auto
  with rest Cons.prems(3) show ?case by (auto intro: Cons.IH)
qed

text \<open>A loop over \<open>0..n\<close> whose body always succeeds on states that satisfy its invariant.\<close>

lemma rfold_upt_progress:
  assumes "P 0 st" and "\<And>s st. s < n \<Longrightarrow> P s st \<Longrightarrow> \<exists>st'. f s st = Ok st' \<and> P (Suc s) st'"
  shows "\<exists>st'. rfold f [0..<n] st = Ok st' \<and> P n st'"
  using assms
proof (induction n)
  case (Suc n)
  then obtain st1 where st1: "rfold f [0..<n] st = Ok st1" "P n st1" by force
  with Suc.prems(2) [of n st1] show ?case by (auto simp: rfold_append)
qed simp

section \<open>Slices and sizes\<close>

text \<open>\<open>usize\<close> is modelled by \<^typ>\<open>nat\<close>; its largest value is used where the source saturates.\<close>

definition usize_max :: nat where
  "usize_max = 2 ^ 64 - 1"

definition saturating_mul :: "nat \<Rightarrow> nat \<Rightarrow> nat" where
  "saturating_mul a b = min (a * b) usize_max"

definition div_ceil :: "nat \<Rightarrow> nat \<Rightarrow> nat" where
  "div_ceil a b = (a + b - 1) div b"

text \<open>\<open>&xs[a..b]\<close> panics when the range is reversed or ends beyond the slice.\<close>

definition slice_range :: "'a list \<Rightarrow> nat \<Rightarrow> nat \<Rightarrow> ('e, 'a list) result" where
  "slice_range xs a b =
     (if a \<le> b \<and> b \<le> length xs then Ok (take (b - a) (drop a xs)) else Panic)"

definition index :: "'a list \<Rightarrow> nat \<Rightarrow> ('e, 'a) result" where
  "index xs i = (if i < length xs then Ok (xs ! i) else Panic)"

text \<open>\<open>slice::chunks(n)\<close> for \<open>n > 0\<close> (the callers clamp the chunk size to at least 1).\<close>

fun chunks :: "nat \<Rightarrow> 'a list \<Rightarrow> 'a list list" where
  "chunks n xs = (if n = 0 \<or> xs = [] then [] else take n xs # chunks n (drop n xs))"

declare chunks.simps [simp del]

lemma chunks_Nil [simp]: "chunks n [] = []"
  by (simp add: chunks.simps)

lemma concat_chunks: "0 < n \<Longrightarrow> concat (chunks n xs) = xs"
  by (induction n xs rule: chunks.induct) (subst chunks.simps, auto)

lemma div_ceil_0 [simp]: "div_ceil 0 b = 0"
  by (cases b) (simp_all add: div_ceil_def)

lemma div_ceil_step: "0 < b \<Longrightarrow> 0 < a \<Longrightarrow> div_ceil a b = Suc (div_ceil (a - b) b)"
proof (cases "a \<le> b")
  case True
  assume b: "0 < b" and a: "0 < a"
  have "(a + b - 1) div b = 1"
    using True a b by (simp add: div_nat_eqI)
  moreover have "(b - 1) div b = 0"
    using b by simp
  ultimately show ?thesis
    using True by (simp add: div_ceil_def)
next
  case False
  assume b: "0 < b" and a: "0 < a"
  have "a + b - 1 = (a - b + b - 1) + b"
    using False b by simp
  then have "(a + b - 1) div b = (a - b + b - 1) div b + 1"
    using b by (metis div_add_self2 less_not_refl)
  then show ?thesis by (simp add: div_ceil_def)
qed

lemma length_chunks: "0 < n \<Longrightarrow> length (chunks n xs) = div_ceil (length xs) n"
proof (induction n xs rule: chunks.induct)
  case (1 n xs)
  show ?case
  proof (cases "xs = []")
    case True
    then show ?thesis by simp
  next
    case False
    then have "length (chunks n xs) = Suc (length (chunks n (drop n xs)))"
      using "1.prems" by (subst chunks.simps) simp
    also have "\<dots> = Suc (div_ceil (length xs - n) n)"
      using "1" False by simp
    also have "\<dots> = div_ceil (length xs) n"
      using "1.prems" False by (subst (2) div_ceil_step) auto
    finally show ?thesis .
  qed
qed

lemma div_ceil_le_iff: "0 < b \<Longrightarrow> div_ceil a b \<le> n \<longleftrightarrow> a \<le> n * b"
proof -
  assume b: "0 < b"
  have "div_ceil a b \<le> n \<longleftrightarrow> (a + b - 1) div b < Suc n"
    by (simp add: div_ceil_def less_Suc_eq_le)
  also have "\<dots> \<longleftrightarrow> a + b - 1 < Suc n * b"
    using b by (simp add: div_less_iff_less_mult)
  also have "\<dots> \<longleftrightarrow> a \<le> n * b"
    using b by auto
  finally show ?thesis .
qed

lemma less_div_ceil_iff: "0 < b \<Longrightarrow> n < div_ceil a b \<longleftrightarrow> n * b < a"
  using div_ceil_le_iff [of b a n] by (meson not_le)

lemma slice_range_Ok [simp]:
  "a \<le> b \<Longrightarrow> b \<le> length xs \<Longrightarrow> slice_range xs a b = Ok (take (b - a) (drop a xs))"
  by (simp add: slice_range_def)

lemma slice_range_eq_Panic: "slice_range xs a b = Panic \<longleftrightarrow> \<not> (a \<le> b \<and> b \<le> length xs)"
  by (simp add: slice_range_def)

lemma slice_range_not_Err [simp]: "slice_range xs a b \<noteq> Err e"
  by (simp add: slice_range_def)

text \<open>Row-major matrices: entry \<open>(i, j)\<close> of a matrix with \<open>k\<close> columns is at \<open>k * i + j\<close>.\<close>

lemma length_concat_rows [simp]:
  "length (concat (map (\<lambda>i. map (f i) [0..<k]) rs)) = length rs * k"
  by (induction rs) simp_all

lemma concat_nth:
  "\<forall>r\<in>set rs. length r = k \<Longrightarrow> i < length rs \<Longrightarrow> j < k \<Longrightarrow> concat rs ! (k * i + j) = rs ! i ! j"
proof (induction rs arbitrary: i)
  case (Cons a rs)
  then show ?case by (cases i) (simp_all add: nth_append)
qed simp

lemma length_concat_const: "\<forall>r\<in>set rs. length r = k \<Longrightarrow> length (concat rs) = length rs * k"
  by (induction rs) simp_all

lemma concat_rows_nth:
  "i < length rs \<Longrightarrow> j < k \<Longrightarrow> concat (map (\<lambda>i. map (f i) [0..<k]) rs) ! (k * i + j) = f (rs ! i) j"
  by (subst concat_nth [where k = k]) simp_all

lemma row_index_less: "i < m \<Longrightarrow> j < k \<Longrightarrow> k * i + j < m * (k :: nat)"
proof -
  assume "i < m" "j < k"
  then have "k * i + j < k * Suc i" by simp
  also have "\<dots> \<le> k * m" using \<open>i < m\<close> by (intro mult_le_mono) simp_all
  finally show ?thesis by (simp add: mult.commute)
qed

text \<open>\<open>iter().enumerate()\<close> as a map over the positions.\<close>

lemma enumerate_eq_map: "enumerate a xs = map (\<lambda>i. (a + i, xs ! i)) [0..<length xs]"
  by (rule nth_equalityI) (simp_all add: nth_enumerate_eq)

lemma find_map: "find P (map f xs) = map_option f (find (\<lambda>x. P (f x)) xs)"
  by (induction xs) simp_all

lemma find_cong_set: "(\<And>x. x \<in> set xs \<Longrightarrow> P x = Q x) \<Longrightarrow> find P xs = find Q xs"
  by (induction xs) simp_all

section \<open>Machine words\<close>

lemma unat_ucast_up:
  "LENGTH('a) \<le> LENGTH('b) \<Longrightarrow> unat (ucast w :: 'b::len word) = unat (w :: 'a::len word)"
  by transfer (simp add: min_def)

lemma unat_word_inject [simp]: "unat a = unat b \<longleftrightarrow> a = b" for a b :: "'a::len word"
  by (simp add: word_unat_eq_iff)

lemma unat_u8_less: "unat w < 256" for w :: u8
  using unsigned_less [of w] by simp

section \<open>Big-endian bytes\<close>

definition be_bytes :: "u64 \<Rightarrow> bytes" where
  "be_bytes w = map (\<lambda>i. ucast (drop_bit (8 * (7 - i)) w)) [0..<8]"

lemma length_be_bytes [simp]: "length (be_bytes w) = 8"
  by (simp add: be_bytes_def)

section \<open>Decimal and hexadecimal numerals\<close>

definition digit_char :: "nat \<Rightarrow> char" where
  "digit_char d = char_of (48 + d)"

fun nat_to_dec :: "nat \<Rightarrow> string" where
  "nat_to_dec n = (if n < 10 then [digit_char n] else nat_to_dec (n div 10) @ [digit_char (n mod 10)])"

declare nat_to_dec.simps [simp del]

text \<open>\<open>char::to_digit(radix)\<close> for radix at most 16.\<close>

definition to_digit :: "nat \<Rightarrow> char \<Rightarrow> nat option" where
  "to_digit radix c =
     (let n = of_char c;
          d = (if 48 \<le> n \<and> n \<le> 57 then Some (n - 48)
               else if 97 \<le> n \<and> n \<le> 102 then Some (n - 87)
               else if 65 \<le> n \<and> n \<le> 70 then Some (n - 55)
               else None)
      in case d of None \<Rightarrow> None | Some v \<Rightarrow> if v < radix then Some v else None)"

fun parse_digits :: "nat \<Rightarrow> nat \<Rightarrow> nat \<Rightarrow> string \<Rightarrow> nat option" where
  "parse_digits radix mx acc [] = Some acc"
| "parse_digits radix mx acc (c # cs) =
     (case to_digit radix c of
        None \<Rightarrow> None
      | Some d \<Rightarrow> let acc' = acc * radix + d
                  in if mx < acc' then None else parse_digits radix mx acc' cs)"

text \<open>
  \<open>from_str_radix\<close> of an unsigned type with maximum \<open>mx\<close>: an optional plus sign, at least one
  digit, no overflow. A minus sign is not a digit.
\<close>

definition parse_unsigned :: "nat \<Rightarrow> nat \<Rightarrow> string \<Rightarrow> nat option" where
  "parse_unsigned radix mx s =
     (case s of
        [] \<Rightarrow> None
      | c # cs \<Rightarrow> if c = CHR ''+'' then (if cs = [] then None else parse_digits radix mx 0 cs)
                 else parse_digits radix mx 0 s)"

lemma of_char_digit_char [simp]: "d < 10 \<Longrightarrow> of_char (digit_char d) = (48 + d :: nat)"
  by (simp add: digit_char_def)

lemma to_digit_digit_char [simp]: "d < 10 \<Longrightarrow> 10 \<le> radix \<Longrightarrow> to_digit radix (digit_char d) = Some d"
  by (simp add: to_digit_def)

lemma nat_to_dec_nonempty [simp]: "nat_to_dec n \<noteq> []"
  by (subst nat_to_dec.simps) simp

lemma set_nat_to_dec: "set (nat_to_dec n) \<subseteq> digit_char ` {..<10}"
proof (induction n rule: nat_to_dec.induct)
  case (1 n)
  then show ?case by (subst nat_to_dec.simps) auto
qed

lemma digit_char_neq:
  assumes "d < 10" and "of_char c < (48::nat) \<or> (57::nat) < of_char c"
  shows "digit_char d \<noteq> c"
  using assms of_char_digit_char [OF assms(1)] by auto

lemma nat_to_dec_notin:
  "of_char c < (48::nat) \<or> (57::nat) < of_char c \<Longrightarrow> c \<notin> set (nat_to_dec n)"
  using set_nat_to_dec [of n] digit_char_neq by blast

lemma parse_digits_nat_to_dec:
  "n \<le> mx \<Longrightarrow> parse_digits 10 mx 0 (nat_to_dec n @ cs) = parse_digits 10 mx n cs"
proof (induction n arbitrary: cs rule: nat_to_dec.induct)
  case (1 n)
  show ?case
  proof (cases "n < 10")
    case True
    with "1.prems" show ?thesis by (subst nat_to_dec.simps) simp
  next
    case False
    have "parse_digits 10 mx 0 (nat_to_dec (n div 10) @ digit_char (n mod 10) # cs)
        = parse_digits 10 mx (n div 10) (digit_char (n mod 10) # cs)"
      using "1" False by simp
    also have "\<dots> = parse_digits 10 mx n cs"
      using "1.prems" by simp
    finally show ?thesis
      using False by (subst nat_to_dec.simps) simp
  qed
qed

text \<open>Printing an unsigned value and parsing it back gives the value.\<close>

lemma parse_nat_to_dec: "n \<le> mx \<Longrightarrow> parse_unsigned 10 mx (nat_to_dec n) = Some n"
proof -
  assume "n \<le> mx"
  then have eq: "parse_digits 10 mx 0 (nat_to_dec n) = Some n"
    using parse_digits_nat_to_dec [of n mx "[]"] by simp
  obtain c cs where s: "nat_to_dec n = c # cs"
    by (cases "nat_to_dec n") auto
  have "CHR ''+'' \<notin> set (nat_to_dec n)"
    by (rule nat_to_dec_notin) simp
  with s have "c \<noteq> CHR ''+''" by auto
  with s eq show ?thesis by (simp add: parse_unsigned_def)
qed

section \<open>Ordered maps\<close>

text \<open>
  A \<open>BTreeMap\<close> is its list of entries in key order; \<^const>\<open>map_of\<close> is lookup.
\<close>

type_synonym ('k, 'v) btree_map = "('k \<times> 'v) list"

fun btree_insert :: "'k::linorder \<Rightarrow> 'v \<Rightarrow> ('k, 'v) btree_map \<Rightarrow> ('k, 'v) btree_map" where
  "btree_insert k v [] = [(k, v)]"
| "btree_insert k v ((k', v') # xs) =
     (if k < k' then (k, v) # (k', v') # xs
      else if k = k' then (k, v) # xs
      else (k', v') # btree_insert k v xs)"

definition btree_wf :: "('k::linorder, 'v) btree_map \<Rightarrow> bool" where
  "btree_wf xs \<longleftrightarrow> sorted_wrt (<) (map fst xs)"

lemma map_of_btree_insert [simp]: "map_of (btree_insert k v xs) = (map_of xs)(k \<mapsto> v)"
  by (induction k v xs rule: btree_insert.induct) auto

lemma set_btree_insert: "fst ` set (btree_insert k v xs) = insert k (fst ` set xs)"
  by (induction k v xs rule: btree_insert.induct) auto

lemma btree_wf_insert: "btree_wf xs \<Longrightarrow> btree_wf (btree_insert k v xs)"
proof (induction k v xs rule: btree_insert.induct)
  case (2 k v k' v' xs)
  then show ?case
    using set_btree_insert [of k v xs] by (auto simp: btree_wf_def)
qed (simp add: btree_wf_def)

definition btree_remove :: "'k \<Rightarrow> ('k, 'v) btree_map \<Rightarrow> ('k, 'v) btree_map" where
  "btree_remove k xs = filter (\<lambda>(k', _). k' \<noteq> k) xs"

lemma map_of_btree_remove [simp]: "map_of (btree_remove k xs) = (map_of xs)(k := None)"
  by (induction xs) (auto simp: btree_remove_def)

lemma btree_wf_remove: "btree_wf xs \<Longrightarrow> btree_wf (btree_remove k xs)"
  by (induction xs) (auto simp: btree_wf_def btree_remove_def)

end
