(* ===== verification/Galois.thy ===== *)
theory Galois
  imports Ozone_Prelude
begin

text \<open>
  Arithmetic in GF(2^8) with the reduction polynomial 0x11D, as
  \<open>crates/isa-l-safe/src/lib.rs\<close> ports it from Ozone's Java coder: the shift-and-add product
  \<open>gf_mul\<close>, the inverse \<open>gf_inv\<close> as the 254th power by repeated squaring, and the generator
  matrix \<open>ozone_cauchy\<close>. The theory shows that these routines are the operations of a field
  (an instance of the class \<^theory_text>\<open>field\<close>), so that the library's algebra applies to them.
\<close>

section \<open>The routines of the source\<close>

definition xtime :: "u8 \<Rightarrow> u8" where
  "xtime a = (let high = a AND 0x80; a' = push_bit 1 a
              in if high \<noteq> 0 then a' XOR 0x1d else a')"

fun gf_mul_loop :: "nat \<Rightarrow> u8 \<Rightarrow> u8 \<Rightarrow> u8 \<Rightarrow> u8" where
  "gf_mul_loop 0 product a b = product"
| "gf_mul_loop (Suc n) product a b =
     gf_mul_loop n (if b AND 1 \<noteq> 0 then product XOR a else product) (xtime a) (drop_bit 1 b)"

definition gf_mul :: "u8 \<Rightarrow> u8 \<Rightarrow> u8" where
  "gf_mul a b = gf_mul_loop 8 0 a b"

fun gf_inv_loop :: "u8 \<Rightarrow> u8 \<Rightarrow> nat \<Rightarrow> u8" where
  "gf_inv_loop result base e =
     (if e > 0
      then gf_inv_loop (if e mod 2 = 1 then gf_mul result base else result) (gf_mul base base) (e div 2)
      else result)"

declare gf_inv_loop.simps [simp del]

definition gf_inv :: "u8 \<Rightarrow> u8" where
  "gf_inv x = gf_inv_loop 1 x 254"

text \<open>
  The rows of \<open>ozone_cauchy\<close> are written one entry after the other: \<open>k\<close> identity rows, then
  \<open>m - k\<close> rows of inverses; \<open>(i ^ j) as u8\<close> is the cast of the index's exclusive or.
\<close>

definition ozone_cauchy :: "nat \<Rightarrow> nat \<Rightarrow> bytes" where
  "ozone_cauchy m k =
     concat (map (\<lambda>i. map (\<lambda>j. if i = j then 1 else 0) [0..<k]) [0..<k]) @
     concat (map (\<lambda>i. map (\<lambda>j. gf_inv (of_nat (i XOR j))) [0..<k]) [k..<m])"

section \<open>The product is bilinear\<close>

lemma and_0x80_iff: "a AND 0x80 \<noteq> 0 \<longleftrightarrow> bit a 7" for a :: u8
proof -
  have "a AND 0x80 = (if bit a 7 then push_bit 7 1 else 0)"
    by (rule bit_word_eqI) (auto simp: bit_simps bit_numeral_rec less_Suc_eq numeral_eq_Suc)
  then show ?thesis by simp
qed

lemma and_1_iff: "b AND 1 \<noteq> 0 \<longleftrightarrow> bit b 0" for b :: u8
  by (simp add: and_one_eq bit_0 odd_iff_mod_2_eq_one)

lemma xtime_alt: "xtime a = push_bit 1 a XOR (if bit a 7 then 0x1d else 0)"
  by (simp add: xtime_def Let_def and_0x80_iff)

lemma xtime_0 [simp]: "xtime 0 = 0"
  by (simp add: xtime_alt)

lemma xor_cancel [simp]: "x XOR (x XOR y) = y" for x y :: u8
  by (simp flip: xor.assoc)

lemma xtime_xor: "xtime (a XOR b) = xtime a XOR xtime b"
proof -
  have "(push_bit 1 (a XOR b) :: u8) = push_bit 1 a XOR push_bit 1 b"
    by (simp add: push_bit_xor)
  then show ?thesis
    by (simp add: xtime_alt bit_xor_iff ac_simps)
qed

lemma gf_mul_loop_xor_left:
  "gf_mul_loop n (p XOR p') (a XOR a') b = gf_mul_loop n p a b XOR gf_mul_loop n p' a' b"
proof (induction n arbitrary: p p' a a' b)
  case (Suc n)
  have "(p XOR p') XOR (a XOR a') = (p XOR a) XOR (p' XOR a')"
    by (simp add: ac_simps)
  then show ?case
    by (simp add: xtime_xor flip: Suc.IH)
qed simp

lemma gf_mul_loop_xor_right:
  "gf_mul_loop n (p XOR p') a (b XOR b') = gf_mul_loop n p a b XOR gf_mul_loop n p' a b'"
proof (induction n arbitrary: p p' a b b')
  case (Suc n)
  have "p XOR p' = (p XOR a) XOR (p' XOR a)" "(p XOR p') XOR a = (p XOR a) XOR p'"
    "(p XOR p') XOR a = p XOR (p' XOR a)"
    by (simp_all add: ac_simps)
  then show ?case
    by (simp add: and_1_iff bit_xor_iff drop_bit_xor flip: Suc.IH)
qed simp

lemma gf_mul_xor_left: "gf_mul (a XOR a') b = gf_mul a b XOR gf_mul a' b"
  using gf_mul_loop_xor_left [of 8 0 0] by (simp add: gf_mul_def)

lemma gf_mul_xor_right: "gf_mul a (b XOR b') = gf_mul a b XOR gf_mul a b'"
  using gf_mul_loop_xor_right [of 8 0 0] by (simp add: gf_mul_def)

lemma gf_mul_loop_xtime: "gf_mul_loop n (xtime p) (xtime a) b = xtime (gf_mul_loop n p a b)"
  by (induction n arbitrary: p a b) (simp_all flip: xtime_xor)

lemma gf_mul_xtime: "gf_mul (xtime a) b = xtime (gf_mul a b)"
  using gf_mul_loop_xtime [of 8 0] by (simp add: gf_mul_def)

lemma gf_mul_funpow_xtime: "gf_mul ((xtime ^^ i) a) b = (xtime ^^ i) (gf_mul a b)"
  by (induction i) (simp_all add: gf_mul_xtime)

text \<open>Every byte is an exclusive or of the eight powers of two.\<close>

lemma byte_xor_induct [case_names zero power xor]:
  assumes zero: "P 0" and power: "\<And>i. i < 8 \<Longrightarrow> P (2 ^ i)"
    and xor: "\<And>a b. P a \<Longrightarrow> P b \<Longrightarrow> P (a XOR b)"
  shows "P (x :: u8)"
proof -
  have P_take: "P (take_bit n x)" if "n \<le> 8" for n
    using that
  proof (induction n)
    case (Suc n)
    have "take_bit (Suc n) x = take_bit n x XOR (if bit x n then 2 ^ n else 0)"
      by (rule bit_word_eqI) (auto simp: bit_simps less_Suc_eq)
    with Suc power xor zero show ?case by simp
  qed (simp add: zero)
  have "take_bit 8 x = x"
    by (rule bit_word_eqI) (simp add: bit_simps)
  with P_take [of 8] show ?thesis by simp
qed

lemma gf_mul_0_left [simp]: "gf_mul 0 b = 0"
  using gf_mul_xor_left [of 0 0 b] by simp

lemma gf_mul_0_right [simp]: "gf_mul a 0 = 0"
  using gf_mul_xor_right [of a 0 0] by simp

lemma gf_mul_loop_0_right: "gf_mul_loop n p a 0 = p"
  by (induction n arbitrary: a) simp_all

lemma drop_bit_power: "Suc i < 8 \<Longrightarrow> drop_bit 1 (2 ^ Suc i :: u8) = 2 ^ i"
  by (rule bit_word_eqI) (auto simp: bit_simps simp del: power_Suc)

lemma gf_mul_loop_power:
  "i < n \<Longrightarrow> i < 8 \<Longrightarrow> gf_mul_loop n p b (2 ^ i) = p XOR (xtime ^^ i) b"
proof (induction n arbitrary: i p b)
  case (Suc n)
  show ?case
  proof (cases i)
    case 0
    have "drop_bit 1 (1 :: u8) = 0" by simp
    with 0 show ?thesis by (simp add: gf_mul_loop_0_right)
  next
    case (Suc j)
    have "\<not> bit (2 ^ Suc j :: u8) 0" by (simp add: bit_simps del: power_Suc)
    then have "(2 :: u8) ^ Suc j AND 1 = 0"
      using and_1_iff by blast
    with Suc Suc.IH [of j p "xtime b"] Suc.prems show ?thesis
      by (simp add: drop_bit_power [simplified] funpow_swap1)
  qed
qed simp

lemma gf_mul_power_right: "i < 8 \<Longrightarrow> gf_mul b (2 ^ i) = (xtime ^^ i) b"
  by (simp add: gf_mul_def gf_mul_loop_power)

lemma xtime_power_one: "i < 8 \<Longrightarrow> (xtime ^^ i) 1 = 2 ^ i"
proof (induction i)
  case (Suc i)
  then have "\<not> bit (2 ^ i :: u8) 7" by (simp add: bit_simps)
  with Suc show ?case by (simp add: xtime_alt)
qed simp

lemma gf_mul_1_left [simp]: "gf_mul 1 b = b"
  by (induction b rule: byte_xor_induct) (simp_all add: gf_mul_power_right xtime_power_one gf_mul_xor_right)

lemma gf_mul_power_left: "i < 8 \<Longrightarrow> gf_mul (2 ^ i) b = (xtime ^^ i) b"
  using gf_mul_funpow_xtime [of i 1 b] by (simp add: xtime_power_one)

lemma gf_mul_commute: "gf_mul a b = gf_mul b a"
  by (induction a rule: byte_xor_induct)
    (simp_all add: gf_mul_power_left gf_mul_power_right gf_mul_xor_left gf_mul_xor_right)

lemma gf_mul_assoc: "gf_mul (gf_mul a b) c = gf_mul a (gf_mul b c)"
  by (induction a rule: byte_xor_induct)
    (simp_all add: gf_mul_power_left gf_mul_funpow_xtime gf_mul_xor_left)

section \<open>Two generates the nonzero bytes\<close>

lemma xtime_eq_0 [simp]: "xtime x = 0 \<longleftrightarrow> x = 0"
proof
  assume eq: "xtime x = 0"
  have "bit (xtime x) 0 \<longleftrightarrow> bit x 7"
    unfolding xtime_alt bit_xor_iff bit_push_bit_iff by simp
  with eq have 7: "\<not> bit x 7" by simp
  with eq have "push_bit 1 x = 0" by (simp add: xtime_alt)
  then have "\<not> bit (push_bit 1 x) (Suc n)" for n by simp
  then have "\<not> bit x n" if "n < 7" for n
    using that unfolding bit_push_bit_iff by simp
  with 7 have "\<not> bit x n" if "n < 8" for n
    using that by (cases "n = 7") (auto simp: less_Suc_eq)
  then show "x = 0"
    by (intro bit_word_eqI) simp
qed simp

lemma xtime_inject [simp]: "xtime x = xtime y \<longleftrightarrow> x = y"
proof
  assume "xtime x = xtime y"
  then have "xtime (x XOR y) = 0" by (simp add: xtime_xor)
  then have "x XOR y = 0" by simp
  then have "x XOR (x XOR y) = x" by simp
  then show "x = y" by simp
qed simp

lemma funpow_xtime_inject [simp]: "(xtime ^^ n) x = (xtime ^^ n) y \<longleftrightarrow> x = y"
  by (induction n) simp_all

lemma funpow_xtime_eq_0 [simp]: "(xtime ^^ n) x = 0 \<longleftrightarrow> x = 0"
  by (induction n) simp_all

fun orbit_avoids_one :: "nat \<Rightarrow> u8 \<Rightarrow> bool" where
  "orbit_avoids_one 0 x = True"
| "orbit_avoids_one (Suc n) x = (x \<noteq> 1 \<and> orbit_avoids_one n (xtime x))"

lemma orbit_avoids_oneD: "orbit_avoids_one n x \<Longrightarrow> i < n \<Longrightarrow> (xtime ^^ i) x \<noteq> 1"
proof (induction n arbitrary: i x)
  case (Suc n)
  then show ?case by (cases i) (auto simp: funpow_swap1)
qed simp

lemma orbit_of_two: "orbit_avoids_one 254 2"
  by code_simp

fun xtime_iter :: "nat \<Rightarrow> u8 \<Rightarrow> u8" where
  "xtime_iter 0 x = x"
| "xtime_iter (Suc n) x = xtime_iter n (xtime x)"

lemma xtime_iter_eq: "xtime_iter n x = (xtime ^^ n) x"
  by (induction n arbitrary: x) (simp_all add: funpow_swap1)

lemma xtime_255: "(xtime ^^ 255) 1 = 1"
proof -
  have "xtime_iter 255 1 = 1" by code_simp
  then show ?thesis by (simp only: xtime_iter_eq)
qed

lemma inj_on_xtime_power: "inj_on (\<lambda>n. (xtime ^^ n) 1) {..<255}"
proof -
  have neq: "(xtime ^^ i) 1 \<noteq> (xtime ^^ j) 1" if "i < j" "j < 255" for i j
  proof
    assume eq: "(xtime ^^ i) 1 = (xtime ^^ j) 1"
    obtain d where j: "j = i + Suc d"
      using less_imp_Suc_add [OF \<open>i < j\<close>] by auto
    have "(xtime ^^ i) 1 = (xtime ^^ i) ((xtime ^^ Suc d) 1)"
      using eq by (simp only: j funpow_add o_apply)
    then have "(xtime ^^ Suc d) 1 = 1" by (simp del: funpow.simps)
    moreover have "(xtime ^^ Suc d) 1 = (xtime ^^ d) 2"
      by (simp add: funpow_swap1 xtime_alt)
    ultimately show False
      using orbit_avoids_oneD [OF orbit_of_two, of d] j \<open>j < 255\<close> by simp
  qed
  show ?thesis
  proof (rule inj_onI)
    fix i j
    assume "i \<in> {..<255}" "j \<in> {..<255}" "(xtime ^^ i) 1 = (xtime ^^ j) 1"
    with neq [of i j] neq [of j i] show "i = j"
      by (cases i j rule: linorder_cases) auto
  qed
qed

lemma nonzero_is_power:
  assumes "x \<noteq> 0"
  obtains n where "x = (xtime ^^ n) 1"
proof -
  let ?f = "\<lambda>n. (xtime ^^ n) 1"
  have sub: "?f ` {..<255} \<subseteq> UNIV - {0}" by auto
  have fin: "finite (UNIV :: u8 set)" by simp
  have "card (UNIV - {0 :: u8}) = 255"
    using fin by (simp add: card_word)
  then have "?f ` {..<255} = UNIV - {0}"
    using sub fin by (intro card_subset_eq) (simp_all add: card_image [OF inj_on_xtime_power])
  with assms have "x \<in> ?f ` {..<255}" by blast
  with that show thesis by blast
qed

section \<open>The field\<close>

datatype gf256 = GF (byte_of: u8)

instantiation gf256 :: comm_ring_1
begin

definition zero_gf256 :: gf256 where "0 = GF 0"
definition one_gf256 :: gf256 where "1 = GF 1"
definition plus_gf256 :: "gf256 \<Rightarrow> gf256 \<Rightarrow> gf256" where "x + y = GF (byte_of x XOR byte_of y)"
definition minus_gf256 :: "gf256 \<Rightarrow> gf256 \<Rightarrow> gf256" where "x - y = GF (byte_of x XOR byte_of y)"
definition uminus_gf256 :: "gf256 \<Rightarrow> gf256" where "- x = (x :: gf256)"
definition times_gf256 :: "gf256 \<Rightarrow> gf256 \<Rightarrow> gf256" where
  "x * y = GF (gf_mul (byte_of x) (byte_of y))"

instance
proof
  fix a b c :: gf256
  show "a + b + c = a + (b + c)" by (simp add: plus_gf256_def xor.assoc)
  show "a + b = b + a" by (simp add: plus_gf256_def xor.commute)
  show "0 + a = a" by (simp add: plus_gf256_def zero_gf256_def)
  show "- a + a = 0" by (simp add: plus_gf256_def zero_gf256_def uminus_gf256_def)
  show "a - b = a + - b" by (simp add: plus_gf256_def minus_gf256_def uminus_gf256_def)
  show "a * b * c = a * (b * c)" by (simp add: times_gf256_def gf_mul_assoc)
  show "a * b = b * a" by (simp add: times_gf256_def gf_mul_commute)
  show "1 * a = a" by (simp add: times_gf256_def one_gf256_def)
  show "(a + b) * c = a * c + b * c" by (simp add: times_gf256_def plus_gf256_def gf_mul_xor_left)
  show "(0 :: gf256) \<noteq> 1" by (simp add: zero_gf256_def one_gf256_def)
qed

end

lemma byte_of_simps [simp]:
  "byte_of 0 = 0" "byte_of 1 = 1" "byte_of (x + y) = byte_of x XOR byte_of y"
  "byte_of (x * y) = gf_mul (byte_of x) (byte_of y)" "byte_of (- x) = byte_of x"
  "byte_of (x - y) = byte_of x XOR byte_of y"
  by (simp_all add: zero_gf256_def one_gf256_def plus_gf256_def times_gf256_def uminus_gf256_def
      minus_gf256_def)

lemma GF_simps:
  "GF 0 = 0" "GF 1 = 1" "GF (a XOR b) = GF a + GF b" "GF (gf_mul a b) = GF a * GF b"
  by (simp_all add: zero_gf256_def one_gf256_def plus_gf256_def times_gf256_def)

lemma GF_eq_0_iff [simp]: "GF a = 0 \<longleftrightarrow> a = 0"
  by (simp add: zero_gf256_def)

lemma gf256_eq_iff: "x = y \<longleftrightarrow> byte_of x = byte_of y" for x y :: gf256
  by (cases x; cases y) simp

lemma gf256_two [simp]: "(2 :: gf256) = 0"
  unfolding one_add_one [symmetric] by (simp add: plus_gf256_def zero_gf256_def del: one_add_one)

lemma gf256_add_self: "x + x = 0" for x :: gf256
  by (simp flip: mult_2)

lemma gf256_uminus [simp]: "- x = x" for x :: gf256
  by (simp add: uminus_gf256_def)

lemma gf256_add_eq_0_iff [simp]: "x + y = 0 \<longleftrightarrow> x = y" for x y :: gf256
  using eq_neg_iff_add_eq_0 [of x y] by simp

lemma GF_xtime_power: "GF ((xtime ^^ n) 1) = GF 2 ^ n"
proof (induction n)
  case (Suc n)
  have "xtime ((xtime ^^ n) 1) = gf_mul 2 ((xtime ^^ n) 1)"
    using gf_mul_power_left [of 1 "(xtime ^^ n) 1"] by simp
  with Suc show ?case by (simp add: GF_simps)
qed (simp add: GF_simps)

lemma GF_power_255: "x \<noteq> 0 \<Longrightarrow> GF x ^ 255 = 1"
proof -
  assume "x \<noteq> 0"
  then obtain n where n: "x = (xtime ^^ n) 1" by (rule nonzero_is_power)
  have "GF x ^ 255 = (GF 2 ^ 255) ^ n"
    by (simp only: n GF_xtime_power power_mult [symmetric] mult.commute)
  also have "GF 2 ^ 255 = 1"
    by (simp only: GF_xtime_power [symmetric] xtime_255 GF_simps)
  finally show ?thesis by simp
qed

lemma GF_inv_loop: "GF (gf_inv_loop r b e) = GF r * GF b ^ e"
proof (induction r b e rule: gf_inv_loop.induct)
  case (1 r b e)
  show ?case
  proof (cases "e > 0")
    case True
    have "GF b ^ e = (GF b * GF b) ^ (e div 2) * GF b ^ (e mod 2)"
      by (simp flip: power2_eq_square power_mult power_add)
    with True 1 show ?thesis
      by (subst gf_inv_loop.simps) (simp add: GF_simps mod2_eq_if mult.assoc)
  qed (simp add: gf_inv_loop.simps)
qed

lemma GF_gf_inv: "GF (gf_inv x) = GF x ^ 254"
  by (simp add: gf_inv_def GF_inv_loop GF_simps)

instantiation gf256 :: field
begin

definition inverse_gf256 :: "gf256 \<Rightarrow> gf256" where "inverse x = GF (gf_inv (byte_of x))"
definition divide_gf256 :: "gf256 \<Rightarrow> gf256 \<Rightarrow> gf256" where "x div y = x * inverse (y :: gf256)"

instance
proof
  fix a b :: gf256
  show "inverse a * a = 1" if "a \<noteq> 0"
  proof -
    from that have "byte_of a \<noteq> 0" by (simp add: gf256_eq_iff)
    then have "a ^ 255 = 1" using GF_power_255 [of "byte_of a"] by simp
    moreover have "inverse a * a = a ^ Suc 254"
      by (simp only: inverse_gf256_def GF_gf_inv gf256.collapse power_Suc mult.commute)
    ultimately show ?thesis by simp
  qed
  show "a div b = a * inverse b" by (simp add: divide_gf256_def)
  show "inverse (0 :: gf256) = 0" by (simp add: inverse_gf256_def GF_gf_inv GF_simps)
qed

end

lemma GF_inverse: "GF (gf_inv a) = inverse (GF a)"
  by (simp add: inverse_gf256_def)

lemma gf_inv_mul: "x \<noteq> 0 \<Longrightarrow> gf_mul x (gf_inv x) = 1"
proof -
  assume "x \<noteq> 0"
  then have "GF x * inverse (GF x) = 1" by simp
  then show ?thesis by (simp add: gf256_eq_iff flip: GF_inverse)
qed

end
