(* ===== verification/Cauchy.thy ===== *)
theory Cauchy
  imports Galois
begin

text \<open>
  Why \<open>k\<close> shards are enough: any \<open>k\<close> rows of the generator matrix \<open>ozone_cauchy\<close> are linearly
  independent. The argument works with kernels: a vector that all chosen rows map to zero is
  zero. It rests on the classical property of Cauchy matrices, proved here over any field.
\<close>

section \<open>Cauchy matrices have trivial kernels\<close>

lemma cauchy_eliminate:
  fixes d y :: "nat \<Rightarrow> 'a::field"
  assumes "finite J" "j0 \<notin> J"
    and nz: "\<And>j. j \<in> insert j0 J \<Longrightarrow> x + y j \<noteq> 0"
  shows "(x + y j0) * (\<Sum>j\<in>insert j0 J. d j / (x + y j)) =
    (\<Sum>j\<in>insert j0 J. d j) + (\<Sum>j\<in>J. d j * (y j0 - y j) / (x + y j))"
proof -
  have "(x + y j0) * (d j / (x + y j)) = d j + d j * (y j0 - y j) / (x + y j)" if "j \<in> J" for j
    using nz [of j] that by (simp add: field_simps)
  then have "(x + y j0) * (\<Sum>j\<in>J. d j / (x + y j)) =
      (\<Sum>j\<in>J. d j) + (\<Sum>j\<in>J. d j * (y j0 - y j) / (x + y j))"
    by (simp add: sum_distrib_left sum.distrib)
  moreover have "(x + y j0) * (d j0 / (x + y j0)) = d j0"
    using nz [of j0] by simp
  ultimately show ?thesis
    using assms by (simp add: distrib_left)
qed

lemma cauchy_kernel:
  fixes d x y :: "nat \<Rightarrow> 'a::field"
  assumes "finite J" "finite P" "card P = card J" "inj_on y J" "inj_on x P"
    and "\<And>i j. i \<in> P \<Longrightarrow> j \<in> J \<Longrightarrow> x i + y j \<noteq> 0"
    and "\<And>i. i \<in> P \<Longrightarrow> (\<Sum>j\<in>J. d j / (x i + y j)) = 0"
    and "j \<in> J"
  shows "d j = 0"
  using assms
proof (induction J arbitrary: P d j rule: finite_induct)
  case (insert j0 J)
  let ?J = "insert j0 J"
  from insert have "card P = Suc (card J)" by simp
  then obtain i0 where i0: "i0 \<in> P" by (metis card.empty ex_in_conv nat.distinct(1))
  let ?d = "\<lambda>j. d j * (y j0 - y j) / (x i0 + y j)"
  have elim: "(\<Sum>j\<in>?J. d j) + (\<Sum>j\<in>J. d j * (y j0 - y j) / (x i + y j)) = 0" if "i \<in> P" for i
    using cauchy_eliminate [of J j0 "x i" y d] insert.prems(6) [OF that] insert.prems(5) [OF that]
      insert.hyps by simp
  have "(\<Sum>j\<in>J. ?d j / (x i + y j)) = 0" if i: "i \<in> P - {i0}" for i
  proof -
    have nx: "x i0 - x i \<noteq> 0"
      using insert.prems(4) i i0 by (auto dest: inj_onD)
    have "(x i0 - x i) * (?d j / (x i + y j)) =
        d j * (y j0 - y j) / (x i + y j) - d j * (y j0 - y j) / (x i0 + y j)" if "j \<in> J" for j
    proof -
      have "x i + y j \<noteq> 0" "x i0 + y j \<noteq> 0" using insert.prems(5) i i0 that by auto
      then show ?thesis by (simp add: field_simps)
    qed
    then have "(x i0 - x i) * (\<Sum>j\<in>J. ?d j / (x i + y j)) =
        (\<Sum>j\<in>J. d j * (y j0 - y j) / (x i + y j)) - (\<Sum>j\<in>J. d j * (y j0 - y j) / (x i0 + y j))"
      by (simp add: sum_distrib_left sum_subtractf)
    also have "\<dots> = 0"
      using elim [of i] elim [OF i0] i by (simp add: eq_neg_iff_add_eq_0 [symmetric] neg_eq_iff_add_eq_0)
    finally show ?thesis using nx by simp
  qed
  then have d0: "?d j = 0" if "j \<in> J" for j
    using insert.IH [of "P - {i0}" ?d j] insert.prems i0 insert.hyps that
    by (simp add: inj_on_diff)
  have dJ: "d j = 0" if "j \<in> J" for j
  proof -
    have "y j0 - y j \<noteq> 0" using insert.prems(3) insert.hyps that by (auto dest: inj_onD)
    moreover have "x i0 + y j \<noteq> 0" using insert.prems(5) i0 that by simp
    ultimately show ?thesis using d0 [OF that] by simp
  qed
  then have "d j0 / (x i0 + y j0) = 0"
    using insert.prems(6) [OF i0] insert.hyps by simp
  then have "d j0 = 0" using insert.prems(5) [OF i0, of j0] by simp
  with dJ insert.prems(7) show ?case by auto
qed simp

section \<open>Entries of the generator matrix\<close>

definition gen :: "nat \<Rightarrow> nat \<Rightarrow> nat \<Rightarrow> gf256" where
  "gen k i j = (if i < k then (if i = j then 1 else 0) else inverse (GF (of_nat i) + GF (of_nat j)))"

lemma length_ozone_cauchy [simp]: "k \<le> m \<Longrightarrow> length (ozone_cauchy m k) = m * k"
  by (simp add: ozone_cauchy_def flip: distrib_right)

lemma ozone_cauchy_nth:
  assumes "i < m" "j < k" "k \<le> m"
  shows "GF (ozone_cauchy m k ! (k * i + j)) = gen k i j"
proof (cases "i < k")
  case True
  then have "k * i + j < k * k" using assms row_index_less by blast
  then show ?thesis
    using True assms concat_rows_nth [where f = "\<lambda>i j. if i = j then 1 else 0 :: u8" and i = i and j = j
        and rs = "[0..<k]" and k = k]
    by (simp add: ozone_cauchy_def nth_append gen_def GF_simps)
next
  case False
  have "k * i + j - k * k = k * (i - k) + j"
    using False by (simp add: diff_mult_distrib2)
  moreover have "k * k \<le> k * i" using False by simp
  then have "\<not> k * i + j < k * k" by linarith
  ultimately show ?thesis
    using False assms concat_rows_nth [where f = "\<lambda>i j. gf_inv (of_nat (i XOR j))" and i = "i - k"
        and j = j and rs = "[k..<m]" and k = k]
    by (simp add: ozone_cauchy_def nth_append gen_def GF_simps GF_inverse of_nat_xor_eq)
qed

lemma of_nat_u8_inject: "i < 256 \<Longrightarrow> j < 256 \<Longrightarrow> (of_nat i :: u8) = of_nat j \<longleftrightarrow> i = j"
  by (simp add: word_of_nat_eq_iff take_bit_nat_eq_self)

text \<open>Any \<open>k\<close> distinct rows of the generator matrix have a trivial kernel.\<close>

lemma gen_rows_kernel:
  assumes S: "finite S" "card S = k" "S \<subseteq> {..<256}" and "k \<le> 256"
    and v: "\<And>i. i \<in> S \<Longrightarrow> (\<Sum>j<k. gen k i j * v j) = 0"
    and "j < k"
  shows "v j = 0"
proof -
  let ?D = "S \<inter> {..<k}" and ?P = "S - {..<k}" and ?J = "{..<k} - S"
  have data: "v i = 0" if "i \<in> ?D" for i
  proof -
    have "(\<Sum>j<k. gen k i j * v j) = (\<Sum>j<k. if i = j then v j else 0)"
      using that by (intro sum.cong) (auto simp: gen_def)
    with v [of i] that show ?thesis by simp
  qed
  have "card ?P = card S - card ?D"
    by (simp add: S(1) card_Diff_subset_Int)
  moreover have "card ?J = k - card ?D"
    by (simp add: card_Diff_subset_Int Int_commute)
  ultimately have card: "card ?P = card ?J" using S(2) by simp
  have par: "(\<Sum>j\<in>?J. v j / (GF (of_nat i) + GF (of_nat j))) = 0" if "i \<in> ?P" for i
  proof -
    have "(\<Sum>j<k. gen k i j * v j) = (\<Sum>j\<in>?J. gen k i j * v j)"
      using data by (intro sum.mono_neutral_right) auto
    also have "\<dots> = (\<Sum>j\<in>?J. v j / (GF (of_nat i) + GF (of_nat j)))"
      using that by (intro sum.cong) (auto simp: gen_def field_class.field_divide_inverse)
    finally show ?thesis using v that by simp
  qed
  have inj: "inj_on (\<lambda>i. GF (of_nat i)) {..<256}"
    by (rule inj_onI) (simp add: of_nat_u8_inject)
  have "v j = 0" if "j \<in> ?J" for j
  proof (rule cauchy_kernel [OF _ _ card _ _ _ par that])
    show "inj_on (\<lambda>i. GF (of_nat i)) ?J" "inj_on (\<lambda>i. GF (of_nat i)) ?P"
      using S(3) \<open>k \<le> 256\<close> by (auto intro: inj_on_subset [OF inj])
    show "GF (of_nat i) + GF (of_nat j) \<noteq> 0" if "i \<in> ?P" "j \<in> ?J" for i j
      using that S(3) \<open>k \<le> 256\<close> by (auto simp: of_nat_u8_inject)
  qed (use S(1) in auto)
  with data \<open>j < k\<close> show ?thesis by auto
qed

end
