(* ===== verification/Isal_Safe.thy ===== *)
theory Isal_Safe
  imports Cauchy
begin

text \<open>
  \<open>crates/isa-l-safe/src/lib.rs\<close>: the Reed-Solomon encoder and decoder over the C library
  ISA-L. The library itself is not part of the sources, so its five entry points are the fields
  of a record that every operation takes as an argument; the locale \<open>isal_contract\<close> states
  what the Rust code relies on. A slice or vector index that Rust would check is a checked
  \<^const>\<open>index\<close>, so that "does not panic" is a statement of the model.
\<close>

section \<open>The foreign functions\<close>

text \<open>
  Lengths cross the boundary as \<open>i32\<close>. \<open>gf_invert_matrix\<close> gives its return code and the
  inverse; \<open>ec_encode_data\<close> takes the output buffers and gives them back overwritten.
\<close>

record isal =
  isal_gf_gen_cauchy1_matrix :: "int \<Rightarrow> int \<Rightarrow> bytes"
  isal_gf_mul :: "u8 \<Rightarrow> u8 \<Rightarrow> u8"
  isal_gf_invert_matrix :: "bytes \<Rightarrow> int \<Rightarrow> int \<times> bytes"
  isal_ec_init_tables :: "int \<Rightarrow> int \<Rightarrow> bytes \<Rightarrow> bytes"
  isal_ec_encode_data :: "int \<Rightarrow> int \<Rightarrow> int \<Rightarrow> bytes \<Rightarrow> bytes list \<Rightarrow> bytes list \<Rightarrow> bytes list"

definition as_i32 :: "nat \<Rightarrow> int" where
  "as_i32 n = sint (of_nat n :: u32)"

section \<open>Configuration and errors\<close>

record ec_config =
  cfg_data :: nat
  cfg_parity :: nat

definition cfg_total :: "ec_config \<Rightarrow> nat" where
  "cfg_total cfg = cfg_data cfg + cfg_parity cfg"

datatype isal_error =
    BufferCount nat nat
  | BufferLen nat nat
  | InvalidConfig nat nat
  | BadIndex nat nat
  | DuplicateIndex nat
  | Overlap nat
  | Singular

definition validate_cfg :: "ec_config \<Rightarrow> (isal_error, unit) result" where
  "validate_cfg cfg =
     (if cfg_data cfg = 0 \<or> cfg_data cfg > 32 \<or> cfg_parity cfg = 0 \<or> cfg_parity cfg > 32
      then Err (InvalidConfig (cfg_data cfg) (cfg_parity cfg))
      else Ok ())"

definition build_encode_matrix :: "isal \<Rightarrow> ec_config \<Rightarrow> bytes" where
  "build_encode_matrix L cfg =
     isal_gf_gen_cauchy1_matrix L (as_i32 (cfg_total cfg)) (as_i32 (cfg_data cfg))"

text \<open>The loop that rejects the first buffer whose length is not \<open>len\<close>.\<close>

definition check_lens :: "nat \<Rightarrow> bytes list \<Rightarrow> (isal_error, unit) result" where
  "check_lens len bs =
     (case find (\<lambda>b. length b \<noteq> len) bs of
        Some b \<Rightarrow> Err (BufferLen len (length b))
      | None \<Rightarrow> Ok ())"

section \<open>Encoder\<close>

record isal_encoder =
  enc_cfg :: ec_config
  enc_g_tbls :: bytes

definition isal_encoder_new :: "isal \<Rightarrow> ec_config \<Rightarrow> (isal_error, isal_encoder) result" where
  "isal_encoder_new L cfg =
     rbind (validate_cfg cfg) (\<lambda>_.
     let encode_matrix = build_encode_matrix L cfg;
         parity_rows_offset = cfg_data cfg * cfg_data cfg
     in rbind (slice_range encode_matrix parity_rows_offset (length encode_matrix)) (\<lambda>parity_rows.
        Ok \<lparr>enc_cfg = cfg,
            enc_g_tbls = isal_ec_init_tables L (as_i32 (cfg_data cfg)) (as_i32 (cfg_parity cfg))
                           parity_rows\<rparr>))"

definition isal_encode ::
    "isal \<Rightarrow> isal_encoder \<Rightarrow> nat \<Rightarrow> bytes list \<Rightarrow> bytes list \<Rightarrow> (isal_error, bytes list) result" where
  "isal_encode L enc len data parity =
     (let cfg = enc_cfg enc in
      if length data \<noteq> cfg_data cfg then Err (BufferCount (cfg_data cfg) (length data))
      else if length parity \<noteq> cfg_parity cfg then Err (BufferCount (cfg_parity cfg) (length parity))
      else rbind (check_lens len data) (\<lambda>_.
           rbind (check_lens len parity) (\<lambda>_.
           Ok (isal_ec_encode_data L (as_i32 len) (as_i32 (cfg_data cfg)) (as_i32 (cfg_parity cfg))
                 (enc_g_tbls enc) data parity))))"

section \<open>Decoder\<close>

record isal_decoder =
  dec_cfg :: ec_config
  dec_encode_matrix :: bytes

definition isal_decoder_new :: "isal \<Rightarrow> ec_config \<Rightarrow> (isal_error, isal_decoder) result" where
  "isal_decoder_new L cfg =
     rbind (validate_cfg cfg) (\<lambda>_. Ok \<lparr>dec_cfg = cfg, dec_encode_matrix = build_encode_matrix L cfg\<rparr>)"

definition mark_source :: "nat \<Rightarrow> nat \<Rightarrow> bool list \<Rightarrow> (isal_error, bool list) result" where
  "mark_source m s is_source =
     (if s \<ge> m then Err (BadIndex s m)
      else rbind (index is_source s) (\<lambda>seen.
           if seen then Err (DuplicateIndex s) else Ok (is_source[s := True])))"

definition check_erased :: "nat \<Rightarrow> bool list \<Rightarrow> nat \<Rightarrow> unit \<Rightarrow> (isal_error, unit) result" where
  "check_erased m is_source e _ =
     (if e \<ge> m then Err (BadIndex e m)
      else rbind (index is_source e) (\<lambda>seen. if seen then Err (Overlap e) else Ok ()))"

definition matrix_row :: "bytes \<Rightarrow> nat \<Rightarrow> nat \<Rightarrow> (isal_error, bytes) result" where
  "matrix_row M k i = rmap_list (\<lambda>j. index M (k * i + j)) [0..<k]"

text \<open>One row of the decode matrix: the coefficients that rebuild shard \<open>e\<close> from the survivors.\<close>

definition decode_row :: "isal \<Rightarrow> bytes \<Rightarrow> bytes \<Rightarrow> nat \<Rightarrow> nat \<Rightarrow> (isal_error, bytes) result" where
  "decode_row L encode_matrix invert k e =
     (if e < k then matrix_row invert k e
      else rmap_list (\<lambda>col.
             rfold (\<lambda>row acc.
               rbind (index invert (k * row + col)) (\<lambda>a.
               rbind (index encode_matrix (k * e + row)) (\<lambda>c.
               Ok (acc XOR isal_gf_mul L a c)))) [0..<k] 0) [0..<k])"

definition isal_reconstruct ::
    "isal \<Rightarrow> isal_decoder \<Rightarrow> nat \<Rightarrow> nat list \<Rightarrow> bytes list \<Rightarrow> nat list \<Rightarrow> bytes list
       \<Rightarrow> (isal_error, bytes list) result" where
  "isal_reconstruct L dec len source_indices sources erased outputs =
     (let k = cfg_data (dec_cfg dec); m = cfg_total (dec_cfg dec) in
      if length source_indices \<noteq> k then Err (BufferCount k (length source_indices))
      else if length sources \<noteq> k then Err (BufferCount k (length sources))
      else if length erased \<noteq> length outputs then Err (BufferCount (length erased) (length outputs))
      else if erased = [] then Ok outputs
      else
        rbind (check_lens len sources) (\<lambda>_.
        rbind (check_lens len outputs) (\<lambda>_.
        rbind (rfold (mark_source m) source_indices (replicate m False)) (\<lambda>is_source.
        rbind (rfold (check_erased m is_source) erased ()) (\<lambda>_.
        rbind (rmap_list (matrix_row (dec_encode_matrix dec) k) source_indices) (\<lambda>brows.
        let (rc, invert) = isal_gf_invert_matrix L (concat brows) (as_i32 k) in
        if rc < 0 then Err Singular
        else
          rbind (rmap_list (decode_row L (dec_encode_matrix dec) invert k) erased) (\<lambda>drows.
          let g_tbls = isal_ec_init_tables L (as_i32 k) (as_i32 (length erased)) (concat drows) in
          Ok (isal_ec_encode_data L (as_i32 len) (as_i32 k) (as_i32 (length erased)) g_tbls
                sources outputs))))))))"

section \<open>The contract of the library\<close>

text \<open>Entry \<open>(i, j)\<close> of a row-major matrix with \<open>n\<close> columns as a field element.\<close>

definition mat_at :: "bytes \<Rightarrow> nat \<Rightarrow> nat \<Rightarrow> nat \<Rightarrow> gf256" where
  "mat_at M n i j = GF (M ! (n * i + j))"

definition singular :: "nat \<Rightarrow> bytes \<Rightarrow> bool" where
  "singular n b \<longleftrightarrow>
     (\<exists>v. (\<exists>j<n. v j \<noteq> 0) \<and> (\<forall>i<n. (\<Sum>j<n. mat_at b n i j * v j) = 0))"

text \<open>Each output byte is the field's inner product of a coefficient row with a data column.\<close>

definition code_rows :: "nat \<Rightarrow> nat \<Rightarrow> nat \<Rightarrow> bytes \<Rightarrow> bytes list \<Rightarrow> bytes list" where
  "code_rows len k rows M data =
     map (\<lambda>r. map (\<lambda>b. byte_of (\<Sum>j<k. mat_at M k r j * GF (data ! j ! b))) [0..<len]) [0..<rows]"

locale isal_contract =
  fixes L :: isal
  assumes gen_cauchy: "1 \<le> k \<Longrightarrow> k < m \<Longrightarrow> m \<le> 64 \<Longrightarrow>
      isal_gf_gen_cauchy1_matrix L (int m) (int k) = ozone_cauchy m k"
    and mul: "isal_gf_mul L x y = gf_mul x y"
    and invert_rc: "1 \<le> n \<Longrightarrow> n \<le> 32 \<Longrightarrow> length b = n * n \<Longrightarrow>
      fst (isal_gf_invert_matrix L b (int n)) < 0 \<longleftrightarrow> singular n b"
    and invert_length: "1 \<le> n \<Longrightarrow> n \<le> 32 \<Longrightarrow> length b = n * n \<Longrightarrow>
      length (snd (isal_gf_invert_matrix L b (int n))) = n * n"
    and invert_left: "1 \<le> n \<Longrightarrow> n \<le> 32 \<Longrightarrow> length b = n * n \<Longrightarrow> \<not> singular n b \<Longrightarrow> i < n \<Longrightarrow> l < n \<Longrightarrow>
      (\<Sum>j<n. mat_at (snd (isal_gf_invert_matrix L b (int n))) n i j * mat_at b n j l) =
      (if i = l then 1 else 0)"
    and encode_data: "1 \<le> k \<Longrightarrow> k \<le> 32 \<Longrightarrow> 1 \<le> rows \<Longrightarrow> rows < 2 ^ 31 \<Longrightarrow> len < 2 ^ 31 \<Longrightarrow>
      length M = rows * k \<Longrightarrow> length data = k \<Longrightarrow> length outs = rows \<Longrightarrow>
      (\<forall>d\<in>set data. length d = len) \<Longrightarrow> (\<forall>d\<in>set outs. length d = len) \<Longrightarrow>
      isal_ec_encode_data L (int len) (int k) (int rows)
        (isal_ec_init_tables L (int k) (int rows) M) data outs = code_rows len k rows M data"

section \<open>Lemmas\<close>

lemma as_i32_small [simp]: "n < 2 ^ 31 \<Longrightarrow> as_i32 n = int n"
  by (simp add: as_i32_def signed_of_nat signed_take_bit_int_eq_self_iff)

definition cfg_ok :: "ec_config \<Rightarrow> bool" where
  "cfg_ok cfg \<longleftrightarrow> 1 \<le> cfg_data cfg \<and> cfg_data cfg \<le> 32 \<and> 1 \<le> cfg_parity cfg \<and> cfg_parity cfg \<le> 32"

lemma validate_cfg_eq_Ok [simp]: "validate_cfg cfg = Ok u \<longleftrightarrow> cfg_ok cfg"
  by (auto simp: validate_cfg_def cfg_ok_def)

lemma validate_cfg_Ok [simp]: "cfg_ok cfg \<Longrightarrow> validate_cfg cfg = Ok ()"
  by simp

lemma validate_cfg_not_Panic [simp]: "validate_cfg cfg \<noteq> Panic"
  by (simp add: validate_cfg_def)

lemma cfg_ok_i32 [simp]:
  "cfg_ok cfg \<Longrightarrow> as_i32 (cfg_data cfg) = int (cfg_data cfg)"
  "cfg_ok cfg \<Longrightarrow> as_i32 (cfg_parity cfg) = int (cfg_parity cfg)"
  by (simp_all add: cfg_ok_def)

lemma check_lens_eq_Ok [simp]: "check_lens len bs = Ok u \<longleftrightarrow> (\<forall>b\<in>set bs. length b = len)"
  by (auto simp: check_lens_def find_None_iff find_Some_iff split: option.splits)

lemma check_lens_Ok [simp]: "\<forall>b\<in>set bs. length b = len \<Longrightarrow> check_lens len bs = Ok ()"
  by simp

lemma check_lens_not_Panic [simp]: "check_lens len bs \<noteq> Panic"
  by (simp add: check_lens_def split: option.splits)

lemma index_eq_Ok [res_simps]: "index xs i = Ok y \<longleftrightarrow> i < length xs \<and> y = xs ! i"
  by (auto simp: index_def)

text \<open>The validation loops accept exactly the distinct in-range sources and disjoint targets.\<close>

lemma mark_source_not_Panic: "length bs = m \<Longrightarrow> mark_source m s bs \<noteq> Panic"
  by (auto simp: mark_source_def index_def)

lemma rfold_mark_source:
  assumes "length bs = m"
  shows "rfold (mark_source m) xs bs \<noteq> Panic"
    and "rfold (mark_source m) xs bs = Ok cs \<longleftrightarrow>
      (\<forall>s\<in>set xs. s < m \<and> \<not> bs ! s) \<and> distinct xs \<and>
      cs = map (\<lambda>i. bs ! i \<or> i \<in> set xs) [0..<m]"
proof -
  have "rfold (mark_source m) xs bs \<noteq> Panic \<and> (rfold (mark_source m) xs bs = Ok cs \<longleftrightarrow>
      (\<forall>s\<in>set xs. s < m \<and> \<not> bs ! s) \<and> distinct xs \<and>
      cs = map (\<lambda>i. bs ! i \<or> i \<in> set xs) [0..<m])"
    using assms
  proof (induction xs arbitrary: bs)
    case Nil
    then have "map (\<lambda>i. bs ! i) [0..<m] = bs" using map_nth [of bs] by simp
    then show ?case by auto
  next
    case (Cons x xs)
    show ?case
    proof (cases "x < m \<and> \<not> bs ! x")
      case True
      then have "mark_source m x bs = Ok (bs[x := True])"
        using Cons.prems by (simp add: mark_source_def index_def)
      moreover have "map (\<lambda>i. bs[x := True] ! i \<or> i \<in> set xs) [0..<m] =
          map (\<lambda>i. bs ! i \<or> i \<in> set (x # xs)) [0..<m]"
        using Cons.prems True by (auto simp: nth_list_update)
      moreover have "(\<forall>s\<in>set xs. s < m \<and> \<not> bs[x := True] ! s) \<longleftrightarrow>
          (\<forall>s\<in>set xs. s < m \<and> \<not> bs ! s) \<and> x \<notin> set xs"
        using Cons.prems True by (auto simp: nth_list_update)
      ultimately show ?thesis
        using Cons.IH [of "bs[x := True]"] Cons.prems True by auto
    qed (use Cons.prems in \<open>auto simp: mark_source_def index_def\<close>)
  qed
  then show "rfold (mark_source m) xs bs \<noteq> Panic"
    and "rfold (mark_source m) xs bs = Ok cs \<longleftrightarrow>
      (\<forall>s\<in>set xs. s < m \<and> \<not> bs ! s) \<and> distinct xs \<and>
      cs = map (\<lambda>i. bs ! i \<or> i \<in> set xs) [0..<m]"
    by blast+
qed

lemma rfold_check_erased:
  assumes "length is_source = m"
  shows "rfold (check_erased m is_source) xs u \<noteq> Panic"
    and "rfold (check_erased m is_source) xs u = Ok u' \<longleftrightarrow> (\<forall>e\<in>set xs. e < m \<and> \<not> is_source ! e)"
  using assms by (induction xs arbitrary: u) (auto simp: check_erased_def index_def res_simps)

lemma matrix_row_Ok:
  "i < m \<Longrightarrow> length M = m * k \<Longrightarrow> matrix_row M k i = Ok (map (\<lambda>j. M ! (k * i + j)) [0..<k])"
  unfolding matrix_row_def using row_index_less [of i m _ k]
  by (intro rmap_list_Ok_map) (simp add: index_def)

section \<open>What the coder computes\<close>

text \<open>
  The code word: shard \<open>e\<close> of a stripe is the inner product of row \<open>e\<close> of the generator matrix
  with the data shards, byte by byte.
\<close>

definition code_shard :: "nat \<Rightarrow> nat \<Rightarrow> bytes list \<Rightarrow> nat \<Rightarrow> bytes" where
  "code_shard k len D e = map (\<lambda>b. byte_of (\<Sum>j<k. gen k e j * GF (D ! j ! b))) [0..<len]"

lemma length_code_shard [simp]: "length (code_shard k len D e) = len"
  by (simp add: code_shard_def)

lemma code_shard_data: "e < k \<Longrightarrow> length (D ! e) = len \<Longrightarrow> code_shard k len D e = D ! e"
proof -
  assume e: "e < k" and len: "length (D ! e) = len"
  have "(\<Sum>j<k. gen k e j * GF (D ! j ! b)) = GF (D ! e ! b)" for b
  proof -
    have "(\<Sum>j<k. gen k e j * GF (D ! j ! b)) = (\<Sum>j<k. if e = j then GF (D ! j ! b) else 0)"
      using e by (intro sum.cong) (auto simp: gen_def)
    with e show ?thesis by simp
  qed
  then show ?thesis using len by (simp add: code_shard_def map_nth flip: len)
qed

lemma rfold_xor:
  assumes "\<And>r acc. r < n \<Longrightarrow> f r acc = Ok (acc XOR g r)"
  shows "rfold f [0..<n] acc = Ok (acc XOR byte_of (\<Sum>r<n. GF (g r)))"
  using assms
proof (induction n)
  case (Suc n)
  then show ?case by (simp add: rfold_append xor.assoc)
qed simp

lemma inverse_applied:
  fixes inv B :: "nat \<Rightarrow> nat \<Rightarrow> 'a::comm_ring_1"
  assumes "\<And>l. l < k \<Longrightarrow> (\<Sum>i<k. inv e i * B i l) = (if e = l then 1 else 0)" and "e < k"
  shows "(\<Sum>i<k. inv e i * (\<Sum>l<k. B i l * d l)) = d e"
proof -
  have "(\<Sum>i<k. inv e i * (\<Sum>l<k. B i l * d l)) = (\<Sum>i<k. \<Sum>l<k. inv e i * B i l * d l)"
    by (simp add: sum_distrib_left mult.assoc)
  also have "\<dots> = (\<Sum>l<k. (\<Sum>i<k. inv e i * B i l) * d l)"
    by (subst sum.swap) (simp add: sum_distrib_right)
  also have "\<dots> = (\<Sum>l<k. if e = l then d l else 0)"
    using assms by (intro sum.cong) auto
  finally show ?thesis using \<open>e < k\<close> by simp
qed

definition decode_bytes ::
    "nat \<Rightarrow> nat \<Rightarrow> (nat \<Rightarrow> nat \<Rightarrow> gf256) \<Rightarrow> bytes list \<Rightarrow> nat \<Rightarrow> bytes" where
  "decode_bytes k len V S e =
     map (\<lambda>b. byte_of (\<Sum>j<k. (\<Sum>i<k. gen k e i * V i j) * GF (S ! j ! b))) [0..<len]"

context isal_contract
begin

lemma build_encode_matrix_eq:
  "cfg_ok cfg \<Longrightarrow> build_encode_matrix L cfg = ozone_cauchy (cfg_total cfg) (cfg_data cfg)"
  using gen_cauchy [of "cfg_data cfg" "cfg_total cfg"]
  by (simp add: build_encode_matrix_def cfg_ok_def cfg_total_def)

lemma encoder_new_eq:
  "cfg_ok cfg \<Longrightarrow> isal_encoder_new L cfg =
     Ok \<lparr>enc_cfg = cfg, enc_g_tbls = isal_ec_init_tables L (int (cfg_data cfg)) (int (cfg_parity cfg))
          (drop (cfg_data cfg * cfg_data cfg) (ozone_cauchy (cfg_total cfg) (cfg_data cfg)))\<rparr>"
  by (simp add: isal_encoder_new_def build_encode_matrix_eq Let_def cfg_total_def)

lemma decoder_new_eq:
  "cfg_ok cfg \<Longrightarrow> isal_decoder_new L cfg =
     Ok \<lparr>dec_cfg = cfg, dec_encode_matrix = ozone_cauchy (cfg_total cfg) (cfg_data cfg)\<rparr>"
  by (simp add: isal_decoder_new_def build_encode_matrix_eq)

lemma encode_eq:
  assumes cfg: "cfg_ok cfg" and enc: "isal_encoder_new L cfg = Ok enc" and len: "len < 2 ^ 31"
    and data: "length data = cfg_data cfg" "\<forall>d\<in>set data. length d = len"
    and parity: "length parity = cfg_parity cfg" "\<forall>d\<in>set parity. length d = len"
  shows "isal_encode L enc len data parity =
    Ok (map (code_shard (cfg_data cfg) len data) [cfg_data cfg..<cfg_total cfg])"
proof -
  define k p where "k = cfg_data cfg" and "p = cfg_parity cfg"
  let ?M = "drop (k * k) (ozone_cauchy (k + p) k)"
  have kp: "1 \<le> k" "k \<le> 32" "1 \<le> p" "p \<le> 32"
    using cfg by (simp_all add: cfg_ok_def k_def p_def)
  have M: "mat_at ?M k r j = gen k (k + r) j" if "r < p" "j < k" for r j
  proof -
    have "?M ! (k * r + j) = ozone_cauchy (k + p) k ! (k * (k + r) + j)"
      by (simp add: distrib_left add.assoc)
    then show ?thesis
      using ozone_cauchy_nth [of "k + r" "k + p" j k] that by (simp add: mat_at_def)
  qed
  have "length ?M = p * k" by (simp flip: diff_mult_distrib)
  then have run: "isal_ec_encode_data L (int len) (int k) (int p)
      (isal_ec_init_tables L (int k) (int p) ?M) data parity = code_rows len k p ?M data"
    using len data parity kp by (intro encode_data) (simp_all add: k_def p_def)
  have enc_eq: "enc = \<lparr>enc_cfg = cfg, enc_g_tbls = isal_ec_init_tables L (int k) (int p) ?M\<rparr>"
    using enc cfg by (simp add: encoder_new_eq k_def p_def cfg_total_def)
  have "isal_encode L enc len data parity = Ok (code_rows len k p ?M data)"
    using run kp len data parity by (simp add: enc_eq isal_encode_def k_def p_def)
  also have "code_rows len k p ?M data = map (\<lambda>r. code_shard k len data (k + r)) [0..<p]"
    by (auto simp: code_rows_def code_shard_def M intro!: map_cong sum.cong)
  also have "\<dots> = map (code_shard k len data) [k..<k + p]"
    by (rule nth_equalityI) simp_all
  finally show ?thesis by (simp add: k_def p_def cfg_total_def)
qed

text \<open>The rows picked for \<open>k\<close> distinct survivors are never singular.\<close>

lemma survivors_not_singular:
  assumes "k \<le> 32" "distinct src" "length src = k" "set src \<subseteq> {..<64}"
    and B: "\<And>i j. i < k \<Longrightarrow> j < k \<Longrightarrow> mat_at B k i j = gen k (src ! i) j"
  shows "\<not> singular k B"
proof
  assume "singular k B"
  then obtain v j0 where v: "j0 < k" "v j0 \<noteq> 0" "\<And>i. i < k \<Longrightarrow> (\<Sum>j<k. mat_at B k i j * v j) = 0"
    by (auto simp: singular_def)
  have "(\<Sum>j<k. gen k e j * v j) = 0" if e: "e \<in> set src" for e
  proof -
    from e obtain i where i: "i < k" "e = src ! i"
      using assms(3) by (metis in_set_conv_nth)
    have "(\<Sum>j<k. gen k e j * v j) = (\<Sum>j<k. mat_at B k i j * v j)"
      using i B by (intro sum.cong) auto
    with v(3) i show ?thesis by simp
  qed
  then have "v j0 = 0"
    using assms v(1) by (intro gen_rows_kernel [of "set src" k v j0]) (auto simp: distinct_card)
  with v(2) show False by simp
qed

text \<open>
  A decode row applied to the survivors' column gives the erased shard's byte, whether the
  shard holds data or parity.
\<close>

lemma decode_row_eq:
  assumes M: "length M = m * k" "\<And>i j. i < m \<Longrightarrow> j < k \<Longrightarrow> mat_at M k i j = gen k i j"
    and V: "length V = k * k" and e: "e < m" and k: "k \<le> m"
  shows "\<exists>r. decode_row L M V k e = Ok r \<and> length r = k \<and>
    (\<forall>j<k. GF (r ! j) = (\<Sum>i<k. gen k e i * mat_at V k i j))"
proof (cases "e < k")
  case True
  have "decode_row L M V k e = Ok (map (\<lambda>j. V ! (k * e + j)) [0..<k])"
    using True V by (simp add: decode_row_def matrix_row_Ok)
  moreover have "(\<Sum>i<k. gen k e i * mat_at V k i j) = mat_at V k e j" for j
  proof -
    have "(\<Sum>i<k. gen k e i * mat_at V k i j) = (\<Sum>i<k. if e = i then mat_at V k i j else 0)"
      using True by (intro sum.cong) (auto simp: gen_def)
    with True show ?thesis by simp
  qed
  ultimately show ?thesis by (auto simp: mat_at_def)
next
  case False
  let ?g = "\<lambda>col row. gf_mul (V ! (k * row + col)) (M ! (k * e + row))"
  let ?row = "map (\<lambda>col. byte_of (\<Sum>row<k. GF (?g col row))) [0..<k]"
  have "decode_row L M V k e = Ok ?row"
    using False unfolding decode_row_def
    by (simp, intro rmap_list_Ok_map)
      (subst rfold_xor [where g = "?g _"],
        auto simp: index_def mul V M(1) row_index_less e)
  moreover have "GF (?g col row) = gen k e row * mat_at V k row col" if "row < k" for row col
    using M(2) [OF e that] by (simp add: mat_at_def GF_simps mult.commute)
  ultimately show ?thesis by auto
qed

lemma decode_rows_apply:
  fixes V B :: "nat \<Rightarrow> nat \<Rightarrow> gf256"
  assumes V: "\<And>i l. i < k \<Longrightarrow> l < k \<Longrightarrow> (\<Sum>j<k. V i j * B j l) = (if i = l then 1 else 0)"
  shows "(\<Sum>j<k. (\<Sum>i<k. g i * V i j) * (\<Sum>l<k. B j l * d l)) = (\<Sum>i<k. g i * d i)"
proof -
  have swap: "(\<Sum>j<k. (\<Sum>i<k. g i * V i j) * s j) = (\<Sum>i<k. g i * (\<Sum>j<k. V i j * s j))" for s
    by (simp add: sum_distrib_right sum_distrib_left mult.assoc) (subst sum.swap, simp)
  have "(\<Sum>j<k. (\<Sum>i<k. g i * V i j) * (\<Sum>l<k. B j l * d l)) =
      (\<Sum>i<k. g i * (\<Sum>j<k. V i j * (\<Sum>l<k. B j l * d l)))"
    by (rule swap)
  also have "\<dots> = (\<Sum>i<k. g i * d i)"
    using V by (intro sum.cong refl) (simp add: inverse_applied [of k V _ B d])
  finally show ?thesis .
qed

text \<open>The matrix of the survivors' rows and its inverse, as the library computes it.\<close>

lemma invert_survivors:
  assumes k: "1 \<le> k" "k \<le> 32" "k < m" "m \<le> 64"
    and src: "length src = k" "distinct src" "\<forall>s\<in>set src. s < m"
  defines "B \<equiv> concat (map (\<lambda>s. map (\<lambda>j. ozone_cauchy m k ! (k * s + j)) [0..<k]) src)"
  shows "\<not> fst (isal_gf_invert_matrix L B (int k)) < 0"
    and "length (snd (isal_gf_invert_matrix L B (int k))) = k * k"
    and "i < k \<Longrightarrow> l < k \<Longrightarrow>
      (\<Sum>j<k. mat_at (snd (isal_gf_invert_matrix L B (int k))) k i j * gen k (src ! j) l) =
      (if i = l then 1 else 0)"
proof -
  have B: "mat_at B k i j = gen k (src ! i) j" if "i < k" "j < k" for i j
    using that src k ozone_cauchy_nth [of "src ! i" m j k]
    by (simp add: mat_at_def B_def concat_rows_nth)
  have lenB: "length B = k * k" using src by (simp add: B_def)
  have ns: "\<not> singular k B"
    using src k by (intro survivors_not_singular [OF _ _ _ _ B]) auto
  show "\<not> fst (isal_gf_invert_matrix L B (int k)) < 0"
    using invert_rc [OF k(1,2) lenB] ns by simp
  show "length (snd (isal_gf_invert_matrix L B (int k))) = k * k"
    using invert_length [OF k(1,2) lenB] .
  show "(\<Sum>j<k. mat_at (snd (isal_gf_invert_matrix L B (int k))) k i j * gen k (src ! j) l) =
      (if i = l then 1 else 0)" if "i < k" "l < k"
    using invert_left [OF k(1,2) lenB ns that] that by (simp add: B cong: sum.cong_simp)
qed

text \<open>
  On well-formed arguments the decoder returns, for whatever bytes the survivors hold, the
  combination of the survivors that the inverse matrix \<open>V\<close> prescribes.
\<close>

lemma run_decode_rows:
  assumes k: "1 \<le> k" "k \<le> 32" and len: "len < 2 ^ 31" and S: "length S = k" "\<forall>d\<in>set S. length d = len"
    and er: "erased \<noteq> []" "length erased < 2 ^ 31"
    and outs: "length outs = length erased" "\<forall>d\<in>set outs. length d = len"
    and row: "\<And>e. e \<in> set erased \<Longrightarrow> length (row e) = k"
    "\<And>e j. e \<in> set erased \<Longrightarrow> j < k \<Longrightarrow> GF (row e ! j) = (\<Sum>i<k. gen k e i * V i j)"
  shows "isal_ec_encode_data L (int len) (int k) (int (length erased))
      (isal_ec_init_tables L (int k) (int (length erased)) (concat (map row erased))) S outs =
      map (decode_bytes k len V S) erased"
proof -
  let ?R = "concat (map row erased)"
  have "length ?R = length erased * k"
    using row(1) length_concat_const [of "map row erased" k] by simp
  then have "isal_ec_encode_data L (int len) (int k) (int (length erased))
      (isal_ec_init_tables L (int k) (int (length erased)) ?R) S outs = code_rows len k (length erased) ?R S"
    using er len k S outs by (intro encode_data) (auto simp: Suc_le_eq)
  also have "\<dots> = map (decode_bytes k len V S) erased"
  proof (rule nth_equalityI)
    fix r assume "r < length (code_rows len k (length erased) ?R S)"
    then have r: "r < length erased" by (simp add: code_rows_def)
    have "mat_at ?R k r j = (\<Sum>i<k. gen k (erased ! r) i * V i j)" if "j < k" for j
      using r that row by (simp add: mat_at_def concat_nth)
    with r show "code_rows len k (length erased) ?R S ! r = map (decode_bytes k len V S) erased ! r"
      by (simp add: code_rows_def decode_bytes_def cong: sum.cong_simp)
  qed (simp add: code_rows_def)
  finally show ?thesis .
qed

lemma reconstruct_total:
  assumes cfg: "cfg_ok cfg" and dec: "isal_decoder_new L cfg = Ok dec"
    and len: "len < 2 ^ 31" and src: "length src = cfg_data cfg" "distinct src"
    "\<forall>s\<in>set src. s < cfg_total cfg"
    and S: "length S = cfg_data cfg" "\<forall>d\<in>set S. length d = len"
    and er: "erased \<noteq> []" "\<forall>e\<in>set erased. e < cfg_total cfg \<and> e \<notin> set src" "length erased < 2 ^ 31"
    and outs: "length outs = length erased" "\<forall>d\<in>set outs. length d = len"
  obtains V where "isal_reconstruct L dec len src S erased outs =
      Ok (map (decode_bytes (cfg_data cfg) len V S) erased)"
    "\<And>i l. i < cfg_data cfg \<Longrightarrow> l < cfg_data cfg \<Longrightarrow>
      (\<Sum>j<cfg_data cfg. V i j * gen (cfg_data cfg) (src ! j) l) = (if i = l then 1 else 0)"
proof -
  define k m where "k = cfg_data cfg" and "m = cfg_total cfg"
  let ?M = "ozone_cauchy m k"
  let ?B = "concat (map (\<lambda>s. map (\<lambda>j. ?M ! (k * s + j)) [0..<k]) src)"
  let ?I = "map (\<lambda>i. replicate m False ! i \<or> i \<in> set src) [0..<m]"
  define V where "V = snd (isal_gf_invert_matrix L ?B (int k))"
  define row where "row = (\<lambda>e. the_ok (decode_row L ?M V k e))"
  have kp: "1 \<le> k" "k \<le> 32" "k < m" "m \<le> 64"
    using cfg by (simp_all add: cfg_ok_def k_def m_def cfg_total_def)
  have dec_eq: "dec = \<lparr>dec_cfg = cfg, dec_encode_matrix = ?M\<rparr>"
    using dec cfg by (simp add: decoder_new_eq k_def m_def)
  have M: "length ?M = m * k" "\<And>i j. i < m \<Longrightarrow> j < k \<Longrightarrow> mat_at ?M k i j = gen k i j"
    using kp by (simp_all add: mat_at_def ozone_cauchy_nth)
  note inv = invert_survivors [OF kp src [folded k_def m_def], folded V_def]
  have row: "decode_row L ?M V k e = Ok (row e)" "length (row e) = k"
    "j < k \<Longrightarrow> GF (row e ! j) = (\<Sum>i<k. gen k e i * mat_at V k i j)" if "e \<in> set erased" for e j
    using decode_row_eq [OF M inv(2), of e] er(2) that kp(3) by (auto simp: row_def m_def)
  have "rmap_list (decode_row L ?M V k) erased = Ok (map row erased)"
    using row(1) by (rule rmap_list_Ok_map)
  moreover have "rmap_list (matrix_row ?M k) src = Ok (map (\<lambda>s. map (\<lambda>j. ?M ! (k * s + j)) [0..<k]) src)"
    using src(3) M(1) by (intro rmap_list_Ok_map matrix_row_Ok [of _ m]) (simp_all add: m_def)
  moreover have "rfold (mark_source m) src (replicate m False) = Ok ?I"
    using src by (simp add: rfold_mark_source m_def)
  moreover have "rfold (check_erased m ?I) erased () = Ok ()"
    using er(2) by (simp add: rfold_check_erased m_def)
  ultimately have "isal_reconstruct L dec len src S erased outs =
      Ok (map (decode_bytes k len (mat_at V k) S) erased)"
    using run_decode_rows [OF kp(1,2) len _ S(2) er(1,3) outs row(2,3), folded k_def]
      src S er outs len kp inv(1)
    by (simp add: isal_reconstruct_def dec_eq k_def m_def V_def split_beta Let_def)
  with inv(3) show thesis by (intro that [of "mat_at V k"]) (simp_all add: k_def)
qed

lemma reconstruct_eq:
  assumes cfg: "cfg_ok cfg" and dec: "isal_decoder_new L cfg = Ok dec"
    and len: "len < 2 ^ 31" and src: "length src = cfg_data cfg" "distinct src"
    "\<forall>s\<in>set src. s < cfg_total cfg"
    and er: "erased \<noteq> []" "\<forall>e\<in>set erased. e < cfg_total cfg \<and> e \<notin> set src" "length erased < 2 ^ 31"
    and outs: "length outs = length erased" "\<forall>d\<in>set outs. length d = len"
  shows "isal_reconstruct L dec len src (map (code_shard (cfg_data cfg) len D) src) erased outs =
    Ok (map (code_shard (cfg_data cfg) len D) erased)"
proof -
  let ?k = "cfg_data cfg"
  let ?S = "map (code_shard ?k len D) src"
  obtain V where run: "isal_reconstruct L dec len src ?S erased outs = Ok (map (decode_bytes ?k len V ?S) erased)"
    and V: "\<And>i l. i < ?k \<Longrightarrow> l < ?k \<Longrightarrow> (\<Sum>j<?k. V i j * gen ?k (src ! j) l) = (if i = l then 1 else 0)"
    using reconstruct_total [OF cfg dec len src _ _ er outs, of ?S] src(1) by auto
  have "decode_bytes ?k len V ?S e = code_shard ?k len D e" for e
    using decode_rows_apply [OF V] src(1)
    by (simp add: decode_bytes_def code_shard_def cong: sum.cong_simp)
  with run show ?thesis by simp
qed

end

end
