(* ===== verification/Ec_Stripe.thy ===== *)
theory Ec_Stripe
  imports Isal_Safe
begin

text \<open>
  \<open>crates/ozone-ec\<close>: profiles, the stripe encoder and reconstructor of \<open>lib.rs\<close>, and the object
  pipeline of \<open>stripe.rs\<close>: an object is cut into cells dealt round-robin to the \<open>k\<close> data
  shards, parity is computed per stripe over the zero-padded cells, and an object is read back
  from any \<open>k\<close> shards. Sizes are natural numbers: with a profile of a validated configuration
  (at most 32 data shards, 32-bit cells) and an object that fits memory no product of the code
  reaches the end of \<open>usize\<close>.
\<close>

section \<open>Profiles, errors, and the per-stripe coders (lib.rs)\<close>

record profile =
  pr_data :: nat
  pr_parity :: nat
  pr_chunk_size :: nat

definition stripe_size :: "profile \<Rightarrow> nat" where
  "stripe_size pf = pr_data pf * pr_chunk_size pf"

definition pr_total :: "profile \<Rightarrow> nat" where
  "pr_total pf = pr_data pf + pr_parity pf"

datatype ec_error =
    Inner isal_error
  | NotPartial nat nat
  | NotEnoughShards nat nat
  | ShardCount nat nat
  | InvalidProfile nat nat

definition inner_cfg :: "profile \<Rightarrow> ec_config" where
  "inner_cfg pf = \<lparr>cfg_data = pr_data pf, cfg_parity = pr_parity pf\<rparr>"

record encoder =
  en_profile :: profile
  en_inner :: isal_encoder

definition encoder_new :: "isal \<Rightarrow> profile \<Rightarrow> (ec_error, encoder) result" where
  "encoder_new L pf =
     rbind (map_err Inner (isal_encoder_new L (inner_cfg pf))) (\<lambda>inner.
     Ok \<lparr>en_profile = pf, en_inner = inner\<rparr>)"

definition encode_stripe ::
    "isal \<Rightarrow> encoder \<Rightarrow> bytes list \<Rightarrow> bytes list \<Rightarrow> (ec_error, bytes list) result" where
  "encode_stripe L enc data parity =
     map_err Inner (isal_encode L (en_inner enc) (pr_chunk_size (en_profile enc)) data parity)"

definition encode_partial ::
    "isal \<Rightarrow> encoder \<Rightarrow> bytes list \<Rightarrow> bytes list \<Rightarrow> (ec_error, bytes list) result" where
  "encode_partial L enc data_zero_padded parity =
     (case find (\<lambda>d. length d \<noteq> pr_chunk_size (en_profile enc)) data_zero_padded of
        Some d \<Rightarrow> Err (Inner (BufferLen (pr_chunk_size (en_profile enc)) (length d)))
      | None \<Rightarrow> map_err Inner
                 (isal_encode L (en_inner enc) (pr_chunk_size (en_profile enc)) data_zero_padded parity))"

record reconstructor =
  rc_profile :: profile
  rc_inner :: isal_decoder

definition reconstructor_new :: "isal \<Rightarrow> profile \<Rightarrow> (ec_error, reconstructor) result" where
  "reconstructor_new L pf =
     rbind (map_err Inner (isal_decoder_new L (inner_cfg pf))) (\<lambda>inner.
     Ok \<lparr>rc_profile = pf, rc_inner = inner\<rparr>)"

definition reconstruct ::
    "isal \<Rightarrow> reconstructor \<Rightarrow> nat \<Rightarrow> nat list \<Rightarrow> bytes list \<Rightarrow> nat list \<Rightarrow> bytes list
       \<Rightarrow> (ec_error, bytes list) result" where
  "reconstruct L rc len source_indices sources erased outputs =
     map_err Inner (isal_reconstruct L (rc_inner rc) len source_indices sources erased outputs)"

section \<open>Objects and shards (stripe.rs)\<close>

record encoded_shards =
  es_data :: "bytes list"
  es_parity :: "bytes list"

definition num_stripes :: "profile \<Rightarrow> nat \<Rightarrow> nat" where
  "num_stripes pf len = (if len = 0 then 0 else div_ceil len (stripe_size pf))"

definition cell_len :: "profile \<Rightarrow> nat \<Rightarrow> nat \<Rightarrow> nat \<Rightarrow> nat" where
  "cell_len pf len i s =
     (let off = s * stripe_size pf + i * pr_chunk_size pf
      in if off \<ge> len then 0 else min (len - off) (pr_chunk_size pf))"

definition expected_shard_len :: "profile \<Rightarrow> nat \<Rightarrow> nat \<Rightarrow> nat" where
  "expected_shard_len pf len idx =
     (let c = pr_chunk_size pf in
      if idx < pr_data pf then
        let stripe = stripe_size pf;
            full = saturating_mul (len div stripe) c;
            rm = len mod stripe
        in full + min (rm - idx * c) c
      else saturating_mul (num_stripes pf len) c)"

text \<open>\<open>let mut cell = vec![0; c]; cell[..b.len()].copy_from_slice(b)\<close>\<close>

definition copy_prefix :: "nat \<Rightarrow> bytes \<Rightarrow> (ec_error, bytes) result" where
  "copy_prefix c b = (if length b \<le> c then Ok (b @ replicate (c - length b) 0) else Panic)"

definition padded_cell :: "profile \<Rightarrow> nat \<Rightarrow> nat \<Rightarrow> nat \<Rightarrow> bytes \<Rightarrow> (ec_error, bytes) result" where
  "padded_cell pf len idx s shard =
     (let c = pr_chunk_size pf in
      if idx < pr_data pf then
        let off = sum_list (map (\<lambda>t. cell_len pf len idx t) [0..<s]);
            cl = cell_len pf len idx s
        in rbind (slice_range shard off (off + cl)) (copy_prefix c)
      else
        let start = s * c
        in slice_range shard start (start + c))"

text \<open>One data cell of a stripe: its zero-padded bytes and the real bytes the shard keeps.\<close>

definition encode_cell :: "profile \<Rightarrow> bytes \<Rightarrow> nat \<Rightarrow> nat \<Rightarrow> (ec_error, bytes \<times> bytes) result" where
  "encode_cell pf data s i =
     (let c = pr_chunk_size pf;
          off = s * stripe_size pf + i * c;
          cl = cell_len pf (length data) i s
      in if cl > 0
         then rbind (slice_range data off (off + cl)) (\<lambda>b.
              rbind (copy_prefix c b) (\<lambda>cell. Ok (cell, b)))
         else Ok (replicate c 0, []))"

definition encode_object_stripe ::
    "isal \<Rightarrow> encoder \<Rightarrow> profile \<Rightarrow> bytes \<Rightarrow> nat \<Rightarrow> encoded_shards \<Rightarrow> (ec_error, encoded_shards) result" where
  "encode_object_stripe L enc pf data s shards =
     rbind (rmap_list (encode_cell pf data s) [0..<pr_data pf]) (\<lambda>cells.
     rbind (encode_stripe L enc (map fst cells) (replicate (pr_parity pf) (replicate (pr_chunk_size pf) 0))) (\<lambda>par.
     Ok \<lparr>es_data = map2 (@) (es_data shards) (map snd cells),
         es_parity = map2 (@) (es_parity shards) par\<rparr>))"

definition encode_object :: "isal \<Rightarrow> profile \<Rightarrow> bytes \<Rightarrow> (ec_error, encoded_shards) result" where
  "encode_object L pf data =
     (if pr_data pf = 0 \<or> pr_chunk_size pf = 0
      then Err (InvalidProfile (pr_data pf) (pr_chunk_size pf))
      else
        let stripes = num_stripes pf (length data) in
        rbind (encoder_new L pf) (\<lambda>enc.
        rfold (encode_object_stripe L enc pf data) [0..<stripes]
          \<lparr>es_data = replicate (pr_data pf) [], es_parity = replicate (pr_parity pf) []\<rparr>))"

text \<open>The inner loop of \<open>reassemble\<close> carries the output and one read cursor per data shard.\<close>

definition reassemble_cell ::
    "profile \<Rightarrow> nat \<Rightarrow> bytes list \<Rightarrow> nat \<Rightarrow> nat \<Rightarrow> bytes \<times> nat list \<Rightarrow> (ec_error, bytes \<times> nat list) result" where
  "reassemble_cell pf len data_shards s i st =
     (case st of (out, cursor) \<Rightarrow>
      let cl = cell_len pf len i s in
      rbind (index cursor i) (\<lambda>cur.
      rbind (index data_shards i) (\<lambda>shard.
      rbind (slice_range shard cur (cur + cl)) (\<lambda>b.
      Ok (out @ b, cursor[i := cur + cl])))))"

definition reassemble :: "profile \<Rightarrow> nat \<Rightarrow> bytes list \<Rightarrow> (ec_error, bytes) result" where
  "reassemble pf len data_shards =
     (let stripes = num_stripes pf len in
      rbind (rfold (\<lambda>s. rfold (reassemble_cell pf len data_shards s) [0..<pr_data pf]) [0..<stripes]
               ([], replicate (pr_data pf) 0)) (\<lambda>st.
      Ok (fst st)))"

definition drop_inconsistent :: "profile \<Rightarrow> nat \<Rightarrow> bytes option list \<Rightarrow> bytes option list" where
  "drop_inconsistent pf len shards =
     map (\<lambda>(idx, slot). case slot of
            None \<Rightarrow> None
          | Some b \<Rightarrow> if length b \<noteq> expected_shard_len pf len idx then None else Some b)
       (enumerate 0 shards)"

text \<open>Truncate a rebuilt cell to its real length and append it to its shard's buffer.\<close>

definition extend_buf ::
    "profile \<Rightarrow> nat \<Rightarrow> nat \<Rightarrow> bytes list \<Rightarrow> nat \<times> nat \<Rightarrow> bytes list \<Rightarrow> (ec_error, bytes list) result" where
  "extend_buf pf len s out_storage mi_i bufs =
     (case mi_i of (mi, i) \<Rightarrow>
      let cl = cell_len pf len i s in
      rbind (index out_storage mi) (\<lambda>cell.
      rbind (slice_range cell 0 cl) (\<lambda>b.
      rbind (index bufs i) (\<lambda>buf.
      Ok (bufs[i := buf @ b])))))"

text \<open>The loop of \<open>decode_object\<close> over the stripes: rebuild the missing cells of stripe \<open>s\<close>.\<close>

definition decode_stripe ::
    "isal \<Rightarrow> reconstructor \<Rightarrow> profile \<Rightarrow> nat \<Rightarrow> bytes option list \<Rightarrow> nat list \<Rightarrow> nat list \<Rightarrow> nat
       \<Rightarrow> bytes list \<Rightarrow> (ec_error, bytes list) result" where
  "decode_stripe L recon pf len shards sources_idx missing_data s data_bufs =
     rbind (rmap_list (\<lambda>idx. case shards ! idx of
              None \<Rightarrow> Panic
            | Some b \<Rightarrow> padded_cell pf len idx s b) sources_idx) (\<lambda>src_cells.
     rbind (reconstruct L recon (pr_chunk_size pf) sources_idx src_cells missing_data
              (replicate (length missing_data) (replicate (pr_chunk_size pf) 0))) (\<lambda>out_storage.
     rfold (extend_buf pf len s out_storage) (enumerate 0 missing_data) data_bufs))"

definition decode_object :: "isal \<Rightarrow> profile \<Rightarrow> nat \<Rightarrow> bytes option list \<Rightarrow> (ec_error, bytes) result" where
  "decode_object L pf len shards0 =
     (if pr_data pf = 0 \<or> pr_chunk_size pf = 0
      then Err (InvalidProfile (pr_data pf) (pr_chunk_size pf))
      else if length shards0 \<noteq> pr_total pf then Err (ShardCount (pr_total pf) (length shards0))
      else
        let k = pr_data pf;
            shards = drop_inconsistent pf len shards0;
            stripes = num_stripes pf len;
            data_bufs = map (\<lambda>i. case shards ! i of Some b \<Rightarrow> b | None \<Rightarrow> []) [0..<k];
            missing_data = filter (\<lambda>i. shards ! i = None) [0..<k]
        in if missing_data \<noteq> []
           then
             let present = filter (\<lambda>x. shards ! x \<noteq> None) [0..<pr_total pf] in
             if length present < k then Err (NotEnoughShards (length present) k)
             else
               let sources_idx = take k present in
               rbind (reconstructor_new L pf) (\<lambda>recon.
               rbind (rfold (decode_stripe L recon pf len shards sources_idx missing_data) [0..<stripes]
                        data_bufs) (\<lambda>bufs.
               reassemble pf len bufs))
           else reassemble pf len data_bufs)"

section \<open>The layout as a specification\<close>

text \<open>
  The cells of an object, their zero-padded stripes, and the bytes each shard stores: data
  shards the real bytes of their cells, parity shards a full coded cell per stripe.
\<close>

definition cell :: "profile \<Rightarrow> bytes \<Rightarrow> nat \<Rightarrow> nat \<Rightarrow> bytes" where
  "cell pf D i s = take (pr_chunk_size pf) (drop (s * stripe_size pf + i * pr_chunk_size pf) D)"

definition pad :: "nat \<Rightarrow> bytes \<Rightarrow> bytes" where
  "pad c b = b @ replicate (c - length b) 0"

definition stripe_cells :: "profile \<Rightarrow> bytes \<Rightarrow> nat \<Rightarrow> bytes list" where
  "stripe_cells pf D s = map (\<lambda>i. pad (pr_chunk_size pf) (cell pf D i s)) [0..<pr_data pf]"

definition coded_cell :: "profile \<Rightarrow> bytes \<Rightarrow> nat \<Rightarrow> nat \<Rightarrow> bytes" where
  "coded_cell pf D idx s = code_shard (pr_data pf) (pr_chunk_size pf) (stripe_cells pf D s) idx"

definition stored_cell :: "profile \<Rightarrow> bytes \<Rightarrow> nat \<Rightarrow> nat \<Rightarrow> bytes" where
  "stored_cell pf D idx s = (if idx < pr_data pf then cell pf D idx s else coded_cell pf D idx s)"

definition shard_upto :: "profile \<Rightarrow> bytes \<Rightarrow> nat \<Rightarrow> nat \<Rightarrow> bytes" where
  "shard_upto pf D n idx = concat (map (stored_cell pf D idx) [0..<n])"

definition shard_of :: "profile \<Rightarrow> bytes \<Rightarrow> nat \<Rightarrow> bytes" where
  "shard_of pf D = shard_upto pf D (num_stripes pf (length D))"

definition profile_ok :: "profile \<Rightarrow> bool" where
  "profile_ok pf \<longleftrightarrow> cfg_ok (inner_cfg pf) \<and> 0 < pr_chunk_size pf \<and> pr_chunk_size pf < 2 ^ 31"

section \<open>Cells\<close>

lemma cell_len_eq: "cell_len pf (length D) i s = length (cell pf D i s)"
  by (simp add: cell_len_def cell_def Let_def min.commute)

lemma cell_len_le: "cell_len pf len i s \<le> pr_chunk_size pf"
  by (simp add: cell_len_def Let_def)

lemma length_pad [simp]: "length b \<le> c \<Longrightarrow> length (pad c b) = c"
  by (simp add: pad_def)

lemma copy_prefix_Ok: "length b \<le> c \<Longrightarrow> copy_prefix c b = Ok (pad c b)"
  by (simp add: copy_prefix_def pad_def)

lemma length_cell_le: "length (cell pf D i s) \<le> pr_chunk_size pf"
  by (simp add: cell_def)

lemma encode_cell_eq: "encode_cell pf D s i = Ok (pad (pr_chunk_size pf) (cell pf D i s), cell pf D i s)"
proof (cases "cell_len pf (length D) i s > 0")
  case True
  let ?off = "s * stripe_size pf + i * pr_chunk_size pf"
  have "?off + cell_len pf (length D) i s \<le> length D"
    using True by (auto simp: cell_len_def Let_def split: if_splits)
  moreover have "take (cell_len pf (length D) i s) (drop ?off D) = cell pf D i s"
    by (simp add: cell_len_eq cell_def min_def)
  ultimately show ?thesis
    using True length_cell_le by (simp add: encode_cell_def Let_def copy_prefix_Ok)
next
  case False
  then have "cell pf D i s = []" by (simp add: cell_len_eq)
  with False show ?thesis by (simp add: encode_cell_def Let_def pad_def)
qed

lemma coded_cell_data:
  "idx < pr_data pf \<Longrightarrow> coded_cell pf D idx s = pad (pr_chunk_size pf) (cell pf D idx s)"
  by (simp add: coded_cell_def stripe_cells_def code_shard_data length_cell_le)

text \<open>A piece of a concatenation is found behind the pieces before it.\<close>

lemma concat_upt_split:
  "s < n \<Longrightarrow> concat (map f [0..<n]) = concat (map f [0..<s]) @ f s @ concat (map f [Suc s..<n])"
proof -
  assume "s < n"
  then have "[0..<n] = [0..<s] @ s # [Suc s..<n]"
    using upt_add_eq_append [of 0 s "n - s"] by (simp add: upt_conv_Cons)
  then show ?thesis by simp
qed

lemma slice_concat:
  "s < n \<Longrightarrow> off = length (concat (map f [0..<s])) \<Longrightarrow> stop = off + length (f s) \<Longrightarrow>
     slice_range (concat (map f [0..<n])) off stop = Ok (f s)"
  by (simp add: slice_range_def concat_upt_split)

lemma sum_cell_len:
  "sum_list (map (\<lambda>t. cell_len pf (length D) i t) ts) = length (concat (map (cell pf D i) ts))"
  by (simp add: length_concat cell_len_eq o_def)

lemma stored_cell_simps [simp]:
  "idx < pr_data pf \<Longrightarrow> stored_cell pf D idx = cell pf D idx"
  "\<not> idx < pr_data pf \<Longrightarrow> stored_cell pf D idx = coded_cell pf D idx"
  by (auto simp: stored_cell_def)

lemma length_coded_cell [simp]: "length (coded_cell pf D idx s) = pr_chunk_size pf"
  by (simp add: coded_cell_def)

lemma padded_cell_eq:
  assumes "s < n"
  shows "padded_cell pf (length D) idx s (shard_upto pf D n idx) = Ok (coded_cell pf D idx s)"
proof (cases "idx < pr_data pf")
  case True
  have "shard_upto pf D n idx = concat (map (cell pf D idx) [0..<n])"
    using True by (simp add: shard_upto_def)
  with True length_cell_le show ?thesis
    by (simp add: padded_cell_def Let_def sum_cell_len cell_len_eq copy_prefix_Ok coded_cell_data
        slice_concat [OF assms refl refl])
next
  case False
  have "length (concat (map (coded_cell pf D idx) [0..<s])) = s * pr_chunk_size pf"
    by (subst length_concat_const [of _ "pr_chunk_size pf"]) auto
  with False show ?thesis
    by (simp add: padded_cell_def Let_def shard_upto_def slice_concat [OF assms])
qed

section \<open>The cells cover the object\<close>

lemma concat_takes: "concat (map (\<lambda>i. take c (drop (b + i * c) D)) [0..<n]) = take (n * c) (drop b D)"
proof (induction n)
  case (Suc n)
  have "take (Suc n * c) (drop b D) = take (n * c) (drop b D) @ take c (drop (n * c) (drop b D))"
    by (simp add: take_add add.commute [of c])
  with Suc show ?case by (simp add: add.commute)
qed simp

lemma concat_cells:
  assumes "0 < stripe_size pf"
  shows "concat (map (\<lambda>s. concat (map (\<lambda>i. cell pf D i s) [0..<pr_data pf]))
           [0..<num_stripes pf (length D)]) = D"
proof -
  have "concat (map (\<lambda>i. cell pf D i s) [0..<pr_data pf]) =
      take (stripe_size pf) (drop (s * stripe_size pf) D)" for s
    by (simp add: cell_def concat_takes stripe_size_def)
  then have "concat (map (\<lambda>s. concat (map (\<lambda>i. cell pf D i s) [0..<pr_data pf]))
      [0..<num_stripes pf (length D)]) = take (num_stripes pf (length D) * stripe_size pf) D"
    using concat_takes [of "stripe_size pf" 0 D "num_stripes pf (length D)"] by simp
  also have "length D \<le> num_stripes pf (length D) * stripe_size pf"
    using div_ceil_le_iff [OF assms, of "length D" "div_ceil (length D) (stripe_size pf)"]
    by (simp add: num_stripes_def)
  then have "take (num_stripes pf (length D) * stripe_size pf) D = D" by simp
  finally show ?thesis .
qed

text \<open>The closed form of \<open>expected_shard_len\<close> is the length of what the encoder stores.\<close>

lemma cell_len_full:
  "t < len div stripe_size pf \<Longrightarrow> i < pr_data pf \<Longrightarrow> cell_len pf len i t = pr_chunk_size pf"
proof -
  assume t: "t < len div stripe_size pf" and i: "i < pr_data pf"
  have "i * pr_chunk_size pf + pr_chunk_size pf \<le> stripe_size pf"
    using mult_le_mono1 [of "Suc i" "pr_data pf" "pr_chunk_size pf"] i by (simp add: stripe_size_def)
  moreover have "Suc t * stripe_size pf \<le> len"
    using mult_le_mono1 [of "Suc t" "len div stripe_size pf" "stripe_size pf"] t
      div_times_less_eq_dividend [of len "stripe_size pf"] by linarith
  ultimately have "t * stripe_size pf + i * pr_chunk_size pf + pr_chunk_size pf \<le> len" by simp
  then show ?thesis by (auto simp: cell_len_def Let_def)
qed

lemma num_stripes_eq:
  "0 < stripe_size pf \<Longrightarrow>
   num_stripes pf len = len div stripe_size pf + (if len mod stripe_size pf = 0 then 0 else 1)"
proof -
  assume S: "0 < stripe_size pf"
  have eq: "len + stripe_size pf - 1 = len div stripe_size pf * stripe_size pf + (len mod stripe_size pf + stripe_size pf - 1)"
    using S by simp
  have "div_ceil len (stripe_size pf) =
      len div stripe_size pf + (len mod stripe_size pf + stripe_size pf - 1) div stripe_size pf"
    unfolding div_ceil_def eq using S by (intro div_mult_self3) simp
  moreover have "(len mod stripe_size pf + stripe_size pf - 1) div stripe_size pf =
      (if len mod stripe_size pf = 0 then 0 else 1)"
    using S mod_less_divisor [OF S, of len] by (auto intro!: div_nat_eqI)
  ultimately show ?thesis by (simp add: num_stripes_def)
qed

lemma sum_cell_len_data:
  assumes S: "0 < stripe_size pf" and i: "i < pr_data pf"
  shows "sum_list (map (cell_len pf len i) [0..<num_stripes pf len]) =
    len div stripe_size pf * pr_chunk_size pf + min (len mod stripe_size pf - i * pr_chunk_size pf) (pr_chunk_size pf)"
proof -
  let ?q = "len div stripe_size pf" and ?r = "len mod stripe_size pf" and ?c = "pr_chunk_size pf"
  have "map (cell_len pf len i) [0..<?q] = replicate ?q ?c"
    by (rule nth_equalityI) (simp_all add: cell_len_full [OF _ i])
  then have full: "sum_list (map (cell_len pf len i) [0..<?q]) = ?q * ?c"
    by (simp add: sum_list_replicate)
  have "len - (?q * stripe_size pf + i * ?c) = ?r - i * ?c"
    by (simp add: minus_div_mult_eq_mod flip: diff_diff_left)
  then have last: "cell_len pf len i ?q = min (?r - i * ?c) ?c"
    by (simp add: cell_len_def Let_def)
  show ?thesis
    using full last S by (simp add: num_stripes_eq)
qed

lemma expected_shard_len_data:
  assumes S: "0 < stripe_size pf" and i: "i < pr_data pf" and len: "len \<le> usize_max"
  shows "expected_shard_len pf len i = sum_list (map (cell_len pf len i) [0..<num_stripes pf len])"
proof -
  have "len div stripe_size pf * pr_chunk_size pf \<le> len div stripe_size pf * stripe_size pf"
    using i by (simp add: stripe_size_def)
  also have "\<dots> \<le> len" by simp
  finally have "saturating_mul (len div stripe_size pf) (pr_chunk_size pf) =
      len div stripe_size pf * pr_chunk_size pf"
    using len by (simp add: saturating_mul_def)
  then show ?thesis
    using i by (simp add: expected_shard_len_def Let_def sum_cell_len_data [OF S i])
qed

lemma num_stripes_mult_le:
  "0 < stripe_size pf \<Longrightarrow> 0 < pr_data pf \<Longrightarrow>
   num_stripes pf len * pr_chunk_size pf \<le> len + pr_chunk_size pf"
proof -
  assume S: "0 < stripe_size pf" and k: "0 < pr_data pf"
  have "len div stripe_size pf * pr_chunk_size pf \<le> len div stripe_size pf * stripe_size pf"
    using k by (simp add: stripe_size_def)
  also have "\<dots> \<le> len" by simp
  finally show ?thesis using S by (simp add: num_stripes_eq)
qed

lemma expected_shard_len_eq:
  assumes pf: "profile_ok pf" and D: "length D < 2 ^ 63"
  shows "length (shard_of pf D idx) = expected_shard_len pf (length D) idx"
proof (cases "idx < pr_data pf")
  case True
  have "0 < stripe_size pf"
    using pf by (auto simp: profile_ok_def cfg_ok_def inner_cfg_def stripe_size_def)
  moreover have "length D \<le> usize_max" using D by (simp add: usize_max_def)
  ultimately show ?thesis
    using True by (simp add: expected_shard_len_data shard_of_def shard_upto_def sum_cell_len)
next
  case False
  have S: "0 < stripe_size pf" "0 < pr_data pf"
    using pf by (auto simp: profile_ok_def cfg_ok_def inner_cfg_def stripe_size_def)
  have "num_stripes pf (length D) * pr_chunk_size pf \<le> usize_max"
    using num_stripes_mult_le [OF S, of "length D"] D pf by (simp add: usize_max_def profile_ok_def)
  moreover have "length (shard_of pf D idx) = num_stripes pf (length D) * pr_chunk_size pf"
    using False by (simp add: shard_of_def shard_upto_def)
      (subst length_concat_const [of _ "pr_chunk_size pf"], auto)
  ultimately show ?thesis
    using False by (simp add: expected_shard_len_def Let_def saturating_mul_def)
qed

section \<open>Reassembly\<close>

text \<open>The bytes of shard \<open>i\<close> that the reader takes in stripe \<open>s\<close>.\<close>

definition piece :: "profile \<Rightarrow> nat \<Rightarrow> bytes list \<Rightarrow> nat \<Rightarrow> nat \<Rightarrow> bytes" where
  "piece pf len bufs s i =
     take (cell_len pf len i s) (drop (sum_list (map (cell_len pf len i) [0..<s])) (bufs ! i))"

lemma sum_list_upt_mono:
  "s < n \<Longrightarrow> sum_list (map f [0..<s]) + f s \<le> sum_list (map f [0..<n])" for f :: "nat \<Rightarrow> nat"
proof (induction n)
  case (Suc n)
  then show ?case by (cases "s = n") auto
qed simp

lemma reassemble_stripe:
  assumes "length bufs = k" "length cur = k" "m \<le> k"
    and "\<And>i. i < k \<Longrightarrow> cur ! i = sum_list (map (cell_len pf len i) [0..<s])"
    and "\<And>i. i < k \<Longrightarrow> sum_list (map (cell_len pf len i) [0..<Suc s]) \<le> length (bufs ! i)"
  shows "rfold (reassemble_cell pf len bufs s) [0..<m] (out, cur) =
    Ok (out @ concat (map (piece pf len bufs s) [0..<m]),
        map (\<lambda>i. sum_list (map (cell_len pf len i) [0..<if i < m then Suc s else s])) [0..<k])"
  using assms(3)
proof (induction m)
  case 0
  have "cur = map (\<lambda>i. sum_list (map (cell_len pf len i) [0..<s])) [0..<k]"
    using assms by (intro nth_equalityI) simp_all
  then show ?case by simp
next
  case (Suc m)
  let ?cur = "\<lambda>m. map (\<lambda>i. sum_list (map (cell_len pf len i) [0..<if i < m then Suc s else s])) [0..<k]"
  have cur: "(?cur m)[m := sum_list (map (cell_len pf len m) [0..<Suc s])] = ?cur (Suc m)"
    using Suc.prems by (intro nth_equalityI) (auto simp: nth_list_update less_Suc_eq)
  have slice: "slice_range (bufs ! m) (sum_list (map (cell_len pf len m) [0..<s]))
      (sum_list (map (cell_len pf len m) [0..<s]) + cell_len pf len m s) = Ok (piece pf len bufs s m)"
    using assms(5) [of m] Suc.prems by (simp add: slice_range_def piece_def)
  show ?case
    using Suc cur assms(1) by (simp add: rfold_append reassemble_cell_def index_def Let_def slice)
qed

lemma reassemble_eq:
  assumes "length bufs = pr_data pf"
    and "\<And>i. i < pr_data pf \<Longrightarrow>
      length (bufs ! i) = sum_list (map (cell_len pf len i) [0..<num_stripes pf len])"
  shows "reassemble pf len bufs =
    Ok (concat (map (\<lambda>s. concat (map (piece pf len bufs s) [0..<pr_data pf])) [0..<num_stripes pf len]))"
proof -
  let ?k = "pr_data pf"
  have run: "rfold (\<lambda>s. rfold (reassemble_cell pf len bufs s) [0..<?k]) [0..<n] ([], replicate ?k 0) =
      Ok (concat (map (\<lambda>s. concat (map (piece pf len bufs s) [0..<?k])) [0..<n]),
          map (\<lambda>i. sum_list (map (cell_len pf len i) [0..<n])) [0..<?k])"
    if "n \<le> num_stripes pf len" for n
    using that
  proof (induction n)
    case 0
    show ?case by (simp add: map_replicate_const)
  next
    case (Suc n)
    have le: "sum_list (map (cell_len pf len i) [0..<Suc n]) \<le> length (bufs ! i)" if "i < ?k" for i
      using sum_list_upt_mono [of n "num_stripes pf len" "cell_len pf len i"] assms(2) [OF that] Suc.prems
      by simp
    have curs: "map (\<lambda>i. sum_list (map (cell_len pf len i) [0..<if i < ?k then Suc n else n])) [0..<?k] =
        map (\<lambda>i. sum_list (map (cell_len pf len i) [0..<Suc n])) [0..<?k]"
      by simp
    have step: "rfold (reassemble_cell pf len bufs n) [0..<?k] (out, map (\<lambda>i. sum_list (map (cell_len pf len i) [0..<n])) [0..<?k]) =
        Ok (out @ concat (map (piece pf len bufs n) [0..<?k]),
            map (\<lambda>i. sum_list (map (cell_len pf len i) [0..<Suc n])) [0..<?k])" for out
      unfolding curs [symmetric] using assms(1) le by (intro reassemble_stripe) simp_all
    show ?case
      using Suc by (simp add: rfold_append step)
  qed
  show ?thesis by (simp add: reassemble_def run)
qed

lemma length_piece:
  assumes "s < num_stripes pf len"
    and "length (bufs ! i) = sum_list (map (cell_len pf len i) [0..<num_stripes pf len])"
  shows "length (piece pf len bufs s i) = cell_len pf len i s"
  using sum_list_upt_mono [OF assms(1), of "cell_len pf len i"] assms(2) by (simp add: piece_def)

text \<open>Reading consistent shards gives exactly \<open>len\<close> bytes, and the object when they hold its cells.\<close>

lemma reassemble_length:
  assumes S: "0 < stripe_size pf" and bufs: "length bufs = pr_data pf"
    and len: "\<And>i. i < pr_data pf \<Longrightarrow>
      length (bufs ! i) = sum_list (map (cell_len pf len i) [0..<num_stripes pf len])"
  obtains out where "reassemble pf len bufs = Ok out" "length out = len"
proof -
  let ?out = "\<lambda>f. concat (map (\<lambda>s. concat (map (f s) [0..<pr_data pf])) [0..<num_stripes pf len])"
  let ?D = "replicate len (0 :: u8)"
  have "length (piece pf len bufs s i) = length (cell pf ?D i s)"
    if "s < num_stripes pf len" "i < pr_data pf" for s i
    using length_piece [OF that(1) len] that(2) cell_len_eq [of pf ?D i s] by simp
  then have "length (?out (piece pf len bufs)) = length (?out (\<lambda>s i. cell pf ?D i s))"
    by (auto simp: length_concat o_def intro!: arg_cong [of _ _ sum_list])
  also have "\<dots> = len" using concat_cells [OF S, of ?D] by simp
  finally show thesis using reassemble_eq [OF bufs len] that by simp
qed

lemma reassemble_cells:
  assumes S: "0 < stripe_size pf"
    and bufs: "bufs = map (shard_of pf D) [0..<pr_data pf]"
  shows "reassemble pf (length D) bufs = Ok D"
proof -
  let ?n = "num_stripes pf (length D)"
  have shard: "bufs ! i = concat (map (cell pf D i) [0..<?n])" if "i < pr_data pf" for i
    using that by (simp add: bufs shard_of_def shard_upto_def)
  have "piece pf (length D) bufs s i = cell pf D i s" if "s < ?n" "i < pr_data pf" for s i
    using concat_upt_split [OF that(1), of "cell pf D i"] shard [OF that(2)]
    by (simp add: piece_def cell_len_eq sum_cell_len)
  then have "concat (map (\<lambda>s. concat (map (piece pf (length D) bufs s) [0..<pr_data pf])) [0..<?n]) =
      concat (map (\<lambda>s. concat (map (\<lambda>i. cell pf D i s) [0..<pr_data pf])) [0..<?n])"
    by (auto intro!: arg_cong [of _ _ concat])
  also have "\<dots> = D" by (rule concat_cells [OF S])
  finally have "concat (map (\<lambda>s. concat (map (piece pf (length D) bufs s) [0..<pr_data pf])) [0..<?n]) = D" .
  moreover have "length (bufs ! i) = sum_list (map (cell_len pf (length D) i) [0..<?n])"
    if "i < pr_data pf" for i
    using shard [OF that] sum_cell_len [of pf D i] by simp
  ultimately show ?thesis
    by (subst reassemble_eq) (simp_all add: bufs)
qed

section \<open>The encoder\<close>

context isal_contract
begin

lemma encode_object_stripe_eq:
  assumes pf: "profile_ok pf" and enc: "encoder_new L pf = Ok enc"
  shows "encode_object_stripe L enc pf D s
      \<lparr>es_data = map (shard_upto pf D s) [0..<pr_data pf],
       es_parity = map (shard_upto pf D s) [pr_data pf..<pr_total pf]\<rparr> =
    Ok \<lparr>es_data = map (shard_upto pf D (Suc s)) [0..<pr_data pf],
        es_parity = map (shard_upto pf D (Suc s)) [pr_data pf..<pr_total pf]\<rparr>"
proof -
  let ?k = "pr_data pf" and ?c = "pr_chunk_size pf"
  have ok: "cfg_ok (inner_cfg pf)" and c: "?c < 2 ^ 31" using pf by (simp_all add: profile_ok_def)
  from enc obtain inner where inner: "isal_encoder_new L (inner_cfg pf) = Ok inner"
    "enc = \<lparr>en_profile = pf, en_inner = inner\<rparr>"
    by (auto simp: encoder_new_def res_simps)
  have cells: "rmap_list (encode_cell pf D s) [0..<?k] = Ok (map (\<lambda>i. (pad ?c (cell pf D i s), cell pf D i s)) [0..<?k])"
    by (intro rmap_list_Ok_map) (simp add: encode_cell_eq)
  have "isal_encode L inner ?c (stripe_cells pf D s) (replicate (pr_parity pf) (replicate ?c 0)) =
      Ok (map (code_shard ?k ?c (stripe_cells pf D s)) [?k..<pr_total pf])"
    using encode_eq [OF ok inner(1) c, of "stripe_cells pf D s" "replicate (pr_parity pf) (replicate ?c 0)"]
    by (auto simp: inner_cfg_def stripe_cells_def length_cell_le cfg_total_def pr_total_def)
  then have par: "encode_stripe L enc (stripe_cells pf D s) (replicate (pr_parity pf) (replicate ?c 0)) =
      Ok (map (\<lambda>idx. coded_cell pf D idx s) [?k..<pr_total pf])"
    by (simp add: encode_stripe_def inner(2) coded_cell_def)
  have "map2 (@) (map (shard_upto pf D s) [0..<?k]) (map (\<lambda>i. cell pf D i s) [0..<?k]) =
      map (shard_upto pf D (Suc s)) [0..<?k]"
    by (rule nth_equalityI) (simp_all add: shard_upto_def)
  moreover have "map2 (@) (map (shard_upto pf D s) [?k..<pr_total pf]) (map (\<lambda>idx. coded_cell pf D idx s) [?k..<pr_total pf]) =
      map (shard_upto pf D (Suc s)) [?k..<pr_total pf]"
    by (rule nth_equalityI) (simp_all add: shard_upto_def)
  ultimately show ?thesis
    by (simp add: encode_object_stripe_def cells par [unfolded stripe_cells_def] o_def)
qed

lemma encode_object_eq:
  assumes pf: "profile_ok pf"
  shows "encode_object L pf D =
    Ok \<lparr>es_data = map (shard_of pf D) [0..<pr_data pf],
        es_parity = map (shard_of pf D) [pr_data pf..<pr_total pf]\<rparr>"
proof -
  have "cfg_ok (inner_cfg pf)" "pr_data pf \<noteq> 0" "pr_chunk_size pf \<noteq> 0"
    using pf by (auto simp: profile_ok_def cfg_ok_def inner_cfg_def)
  then obtain enc where enc: "encoder_new L pf = Ok enc"
    by (auto simp: encoder_new_def encoder_new_eq)
  let ?st = "\<lambda>n. \<lparr>es_data = map (shard_upto pf D n) [0..<pr_data pf],
        es_parity = map (shard_upto pf D n) [pr_data pf..<pr_total pf]\<rparr>"
  have "rfold (encode_object_stripe L enc pf D) [0..<n] (?st 0) = Ok (?st n)" for n
    by (induction n) (simp_all add: rfold_append encode_object_stripe_eq [OF pf enc])
  moreover have "?st 0 = \<lparr>es_data = replicate (pr_data pf) [], es_parity = replicate (pr_parity pf) []\<rparr>"
    by (auto simp: shard_upto_def pr_total_def intro!: nth_equalityI)
  ultimately show ?thesis
    using \<open>pr_data pf \<noteq> 0\<close> \<open>pr_chunk_size pf \<noteq> 0\<close>
    by (simp add: encode_object_def enc shard_of_def Let_def)
qed

end

section \<open>The decoder\<close>

text \<open>Appending the rebuilt cells to the buffers of the missing shards.\<close>

lemma extend_missing:
  assumes "distinct ms" "\<forall>i\<in>set ms. i < length bufs"
    and "\<And>j. j < length ms \<Longrightarrow> a + j < length out \<and> out ! (a + j) = F (ms ! j)"
    and "\<And>e. e \<in> set ms \<Longrightarrow> cell_len pf len e s \<le> length (F e)"
  shows "rfold (extend_buf pf len s out) (enumerate a ms) bufs =
    Ok (map (\<lambda>i. if i \<in> set ms then bufs ! i @ take (cell_len pf len i s) (F i) else bufs ! i)
          [0..<length bufs])"
  using assms
proof (induction ms arbitrary: a bufs)
  case Nil
  then show ?case by (simp add: map_nth)
next
  case (Cons m ms)
  let ?b = "bufs[m := bufs ! m @ take (cell_len pf len m s) (F m)]"
  have out: "a < length out" "out ! a = F m" using Cons.prems(3) [of 0] by simp_all
  have "Suc a + j < length out \<and> out ! (Suc a + j) = F (ms ! j)" if "j < length ms" for j
    using Cons.prems(3) [of "Suc j"] that by simp
  note IH = Cons.IH [of ?b "Suc a", OF _ _ this]
  have eq: "map (\<lambda>i. if i \<in> set ms then ?b ! i @ take (cell_len pf len i s) (F i) else ?b ! i) [0..<length bufs] =
      map (\<lambda>i. if i \<in> set (m # ms) then bufs ! i @ take (cell_len pf len i s) (F i) else bufs ! i) [0..<length bufs]"
    using Cons.prems(1,2) by (auto simp: nth_list_update)
  have step: "extend_buf pf len s out (a, m) bufs = Ok ?b"
    using Cons.prems out by (simp add: extend_buf_def Let_def index_def)
  show ?case
    unfolding eq [symmetric] using Cons.prems by (simp add: step IH)
qed

lemma length_drop_inconsistent [simp]: "length (drop_inconsistent pf len shards) = length shards"
  by (simp add: drop_inconsistent_def)

lemma drop_inconsistent_nth:
  "i < length shards \<Longrightarrow> drop_inconsistent pf len shards ! i =
     (case shards ! i of None \<Rightarrow> None
      | Some b \<Rightarrow> if length b \<noteq> expected_shard_len pf len i then None else Some b)"
  by (simp add: drop_inconsistent_def nth_enumerate_eq)

lemma padded_cell_total:
  assumes S: "0 < stripe_size pf" and s: "s < num_stripes pf len" and len: "len \<le> usize_max"
    and b: "length b = expected_shard_len pf len idx" and nosat: "length b < usize_max"
  obtains x where "padded_cell pf len idx s b = Ok x" "length x = pr_chunk_size pf"
proof (cases "idx < pr_data pf")
  case True
  let ?off = "sum_list (map (cell_len pf len idx) [0..<s])"
  have "?off + cell_len pf len idx s \<le> length b"
    using sum_list_upt_mono [OF s, of "cell_len pf len idx"] b expected_shard_len_data [OF S True len] by simp
  moreover have "cell_len pf len idx s \<le> pr_chunk_size pf" by (rule cell_len_le)
  ultimately show thesis
    using True that by (simp add: padded_cell_def Let_def copy_prefix_Ok)
next
  case False
  then have "length b = num_stripes pf len * pr_chunk_size pf"
    using b nosat by (simp add: expected_shard_len_def Let_def saturating_mul_def min_def split: if_splits)
  moreover have "Suc s * pr_chunk_size pf \<le> num_stripes pf len * pr_chunk_size pf"
    using s by (intro mult_le_mono1) simp
  ultimately show thesis
    using False that by (simp add: padded_cell_def Let_def add.commute)
qed

text \<open>The shape of the survivor and target lists that \<open>decode_object\<close> picks.\<close>

lemma picked_shards:
  fixes shards :: "'b option list" and k m :: nat
  assumes "k \<le> m"
  defines "missing \<equiv> filter (\<lambda>i. shards ! i = None) [0..<k]"
    and "src \<equiv> take k (filter (\<lambda>x. shards ! x \<noteq> None) [0..<m])"
  assumes "\<not> length (filter (\<lambda>x. shards ! x \<noteq> None) [0..<m]) < k"
  shows "length src = k" "distinct src" "\<forall>s\<in>set src. s < m \<and> shards ! s \<noteq> None"
    "distinct missing" "\<forall>i\<in>set missing. i < k \<and> shards ! i = None \<and> i \<notin> set src"
    "length missing \<le> k"
proof -
  show "length src = k" using assms(4) by (simp add: src_def)
  show "distinct src" by (simp add: src_def)
  show src: "\<forall>s\<in>set src. s < m \<and> shards ! s \<noteq> None" by (auto simp: src_def dest: in_set_takeD)
  show "distinct missing" by (simp add: missing_def)
  show "\<forall>i\<in>set missing. i < k \<and> shards ! i = None \<and> i \<notin> set src"
    using src by (auto simp: missing_def)
  show "length missing \<le> k" using length_filter_le [of _ "[0..<k]"] by (simp add: missing_def)
qed

context isal_contract
begin

lemma reconstructor_new_Ok:
  assumes "profile_ok pf"
  obtains dec where "isal_decoder_new L (inner_cfg pf) = Ok dec"
    "reconstructor_new L pf = Ok \<lparr>rc_profile = pf, rc_inner = dec\<rparr>"
  using assms that by (auto simp: profile_ok_def reconstructor_new_def decoder_new_eq)

lemma decode_stripe_total:
  assumes pf: "profile_ok pf" and recon: "reconstructor_new L pf = Ok recon"
    and len: "len \<le> usize_max" and s: "s < num_stripes pf len"
    and src: "length src = pr_data pf" "distinct src"
    "\<forall>x\<in>set src. x < pr_total pf \<and> (\<exists>b. shards ! x = Some b \<and>
       length b = expected_shard_len pf len x \<and> length b < usize_max)"
    and ms: "missing \<noteq> []" "distinct missing" "\<forall>i\<in>set missing. i < pr_data pf \<and> i \<notin> set src"
    "length missing \<le> pr_data pf"
    and bufs: "length bufs = pr_data pf"
  shows "\<exists>F. decode_stripe L recon pf len shards src missing s bufs =
      Ok (map (\<lambda>i. if i \<in> set missing then bufs ! i @ F i else bufs ! i) [0..<pr_data pf]) \<and>
      (\<forall>i. length (F i) = cell_len pf len i s)"
proof -
  let ?c = "pr_chunk_size pf" and ?outs = "replicate (length missing) (replicate (pr_chunk_size pf) (0 :: u8))"
  define g where "g = (\<lambda>idx. the_ok (case shards ! idx of
      None \<Rightarrow> Panic | Some b \<Rightarrow> (padded_cell pf len idx s b :: (ec_error, bytes) result)))"
  have S: "0 < stripe_size pf" and ok: "cfg_ok (inner_cfg pf)" and c: "?c < 2 ^ 31" and k: "pr_data pf \<le> 32"
    using pf by (auto simp: profile_ok_def cfg_ok_def inner_cfg_def stripe_size_def)
  obtain dec where dec: "isal_decoder_new L (inner_cfg pf) = Ok dec" "recon = \<lparr>rc_profile = pf, rc_inner = dec\<rparr>"
    using reconstructor_new_Ok [OF pf] recon by auto
  have g: "(case shards ! x of None \<Rightarrow> Panic | Some b \<Rightarrow> padded_cell pf len x s b) = Ok (g x) \<and> length (g x) = ?c"
    if x: "x \<in> set src" for x
  proof -
    from src(3) x obtain b where b: "shards ! x = Some b" "length b = expected_shard_len pf len x" "length b < usize_max"
      by blast
    obtain y where "padded_cell pf len x s b = (Ok y :: (ec_error, bytes) result)" "length y = ?c"
      using padded_cell_total [OF S s len b(2,3)] by blast
    with b(1) show ?thesis by (simp add: g_def)
  qed
  then have cells: "rmap_list (\<lambda>idx. case shards ! idx of None \<Rightarrow> Panic | Some b \<Rightarrow> padded_cell pf len idx s b) src =
      Ok (map g src)"
    by (intro rmap_list_Ok_map) blast
  have tot: "cfg_total (inner_cfg pf) = pr_total pf" "cfg_data (inner_cfg pf) = pr_data pf"
    by (simp_all add: inner_cfg_def cfg_total_def pr_total_def)
  have mt: "\<forall>e\<in>set missing. e < pr_total pf \<and> e \<notin> set src" using ms(3) by (auto simp: pr_total_def)
  obtain V where "isal_reconstruct L dec ?c src (map g src) missing ?outs =
      Ok (map (decode_bytes (pr_data pf) ?c V (map g src)) missing)"
  proof (rule reconstruct_total [OF ok dec(1) c, of src "map g src" missing ?outs, unfolded tot])
    fix V
    assume "isal_reconstruct L dec ?c src (map g src) missing ?outs =
      Ok (map (decode_bytes (pr_data pf) ?c V (map g src)) missing)"
    then show thesis by (rule that)
  qed (use src ms mt g k in auto)
  then have "decode_stripe L recon pf len shards src missing s bufs =
      rfold (extend_buf pf len s (map (decode_bytes (pr_data pf) ?c V (map g src)) missing)) (enumerate 0 missing) bufs"
    by (simp add: decode_stripe_def cells reconstruct_def dec(2))
  also have "\<dots> = Ok (map (\<lambda>i. if i \<in> set missing
      then bufs ! i @ take (cell_len pf len i s) (decode_bytes (pr_data pf) ?c V (map g src) i) else bufs ! i) [0..<pr_data pf])"
    using ms bufs cell_len_le [of pf len]
    by (subst extend_missing [where F = "decode_bytes (pr_data pf) ?c V (map g src)"])
      (simp_all add: decode_bytes_def)
  finally show ?thesis
    using cell_len_le [of pf len]
    by (intro exI [of _ "\<lambda>i. take (cell_len pf len i s) (decode_bytes (pr_data pf) ?c V (map g src) i)"])
      (simp add: decode_bytes_def)
qed

lemma decode_loop_total:
  assumes pf: "profile_ok pf" and recon: "reconstructor_new L pf = Ok recon" and len: "len \<le> usize_max"
    and src: "length src = pr_data pf" "distinct src"
    "\<forall>x\<in>set src. x < pr_total pf \<and> (\<exists>b. shards ! x = Some b \<and>
       length b = expected_shard_len pf len x \<and> length b < usize_max)"
    and ms: "missing \<noteq> []" "distinct missing" "\<forall>i\<in>set missing. i < pr_data pf \<and> i \<notin> set src"
    "length missing \<le> pr_data pf"
    and bufs: "length bufs = pr_data pf" "\<forall>i\<in>set missing. bufs ! i = []"
  shows "\<exists>bufs'. rfold (decode_stripe L recon pf len shards src missing) [0..<num_stripes pf len] bufs = Ok bufs' \<and>
    length bufs' = pr_data pf \<and> (\<forall>i<pr_data pf. length (bufs' ! i) =
      (if i \<in> set missing then sum_list (map (cell_len pf len i) [0..<num_stripes pf len]) else length (bufs ! i)))"
proof -
  define P where "P = (\<lambda>s (bs :: bytes list). length bs = pr_data pf \<and> (\<forall>i<pr_data pf. length (bs ! i) =
      (if i \<in> set missing then sum_list (map (cell_len pf len i) [0..<s]) else length (bufs ! i))))"
  have step: "\<exists>bs'. decode_stripe L recon pf len shards src missing s bs = Ok bs' \<and> P (Suc s) bs'"
    if s: "s < num_stripes pf len" and P: "P s bs" for s bs
  proof -
    have "length bs = pr_data pf" using P by (simp add: P_def)
    from decode_stripe_total [OF pf recon len s src ms this]
    obtain F where F: "decode_stripe L recon pf len shards src missing s bs =
        Ok (map (\<lambda>i. if i \<in> set missing then bs ! i @ F i else bs ! i) [0..<pr_data pf])"
      "\<forall>i. length (F i) = cell_len pf len i s"
      by blast
    moreover have "P (Suc s) (map (\<lambda>i. if i \<in> set missing then bs ! i @ F i else bs ! i) [0..<pr_data pf])"
      using P F(2) by (simp add: P_def)
    ultimately show ?thesis by blast
  qed
  have "P 0 bufs" using bufs by (auto simp: P_def)
  from rfold_upt_progress [where P = P and n = "num_stripes pf len"
      and f = "decode_stripe L recon pf len shards src missing", OF this step]
  show ?thesis by (simp add: P_def)
qed

text \<open>
  \<open>decode_object\<close> on arbitrary shards: either too few of them have the length the object's
  length implies, or the result has exactly that many bytes.
\<close>

lemma decode_object_total:
  assumes pf: "profile_ok pf" and len: "len \<le> usize_max"
    and shards: "length shards = pr_total pf" "\<forall>b. Some b \<in> set shards \<longrightarrow> length b < usize_max"
  defines "good \<equiv> filter (\<lambda>x. drop_inconsistent pf len shards ! x \<noteq> None) [0..<pr_total pf]"
  shows "(length good < pr_data pf \<and> decode_object L pf len shards = Err (NotEnoughShards (length good) (pr_data pf))) \<or>
    (\<exists>out. decode_object L pf len shards = Ok out \<and> length out = len)"
proof -
  let ?k = "pr_data pf" and ?sh = "drop_inconsistent pf len shards" and ?n = "num_stripes pf len"
  let ?bufs = "map (\<lambda>i. case ?sh ! i of Some b \<Rightarrow> b | None \<Rightarrow> []) [0..<?k]"
  let ?ms = "filter (\<lambda>i. ?sh ! i = None) [0..<?k]" and ?src = "take ?k good"
  have S: "0 < stripe_size pf" and kc: "?k \<noteq> 0" "pr_chunk_size pf \<noteq> 0"
    using pf by (auto simp: profile_ok_def cfg_ok_def inner_cfg_def stripe_size_def)
  have consistent: "length b = expected_shard_len pf len i \<and> length b < usize_max"
    if "?sh ! i = Some b" "i < pr_total pf" for i b
  proof -
    have "shards ! i = Some b \<and> length b = expected_shard_len pf len i"
      using that shards(1) by (auto simp: drop_inconsistent_nth split: option.splits if_splits)
    moreover from this have "Some b \<in> set shards" using that(2) shards(1) by (metis nth_mem)
    ultimately show ?thesis using shards(2) by blast
  qed
  have kt: "?k \<le> pr_total pf" by (simp add: pr_total_def)
  have start: "length (?bufs ! i) = (if i \<in> set ?ms then 0 else expected_shard_len pf len i)" if "i < ?k" for i
    using that consistent [of i] kt by (auto split: option.splits)
  have total: "\<exists>out. reassemble pf len bufs = Ok out \<and> length out = len"
    if "length bufs = ?k" "\<And>i. i < ?k \<Longrightarrow> length (bufs ! i) = sum_list (map (cell_len pf len i) [0..<?n])" for bufs
    using reassemble_length [OF S that] by blast
  consider "?ms = []" | "?ms \<noteq> []" "length good < ?k" | "?ms \<noteq> []" "\<not> length good < ?k" by blast
  then show ?thesis
  proof cases
    case 1
    then have "\<exists>out. reassemble pf len ?bufs = Ok out \<and> length out = len"
      using start expected_shard_len_data [OF S _ len] by (intro total) (simp_all del: nth_map)
    with 1 kc shards(1) show ?thesis by (simp add: decode_object_def Let_def)
  next
    case 2
    with kc shards(1) show ?thesis by (simp add: decode_object_def Let_def good_def)
  next
    case 3
    obtain recon where recon: "reconstructor_new L pf = Ok recon" using reconstructor_new_Ok [OF pf] by blast
    note picked = picked_shards [OF kt, of ?sh, folded good_def, OF 3(2)]
    have src: "\<forall>x\<in>set ?src. x < pr_total pf \<and> (\<exists>b. ?sh ! x = Some b \<and>
        length b = expected_shard_len pf len x \<and> length b < usize_max)"
      using picked(3) consistent by fastforce
    have ms: "\<forall>i\<in>set ?ms. i < ?k \<and> i \<notin> set ?src" using picked(5) by blast
    have "\<forall>i\<in>set ?ms. ?bufs ! i = []" by auto
    with decode_loop_total [OF pf recon len picked(1,2) src 3(1) picked(4) ms picked(6), of ?bufs]
    obtain bufs where bufs: "rfold (decode_stripe L recon pf len ?sh ?src ?ms) [0..<?n] ?bufs = Ok bufs"
      "length bufs = ?k" "\<And>i. i < ?k \<Longrightarrow> length (bufs ! i) =
        (if i \<in> set ?ms then sum_list (map (cell_len pf len i) [0..<?n]) else length (?bufs ! i))"
      by auto
    have "\<exists>out. reassemble pf len bufs = Ok out \<and> length out = len"
      using bufs(2,3) start expected_shard_len_data [OF S _ len] by (intro total) (simp_all del: nth_map)
    with 3 kc shards(1) bufs(1) recon show ?thesis
      by (simp add: decode_object_def Let_def good_def)
  qed
qed

text \<open>With survivors of one object, each stripe restores the missing cells of that object.\<close>

lemma decode_stripe_eq:
  assumes pf: "profile_ok pf" and recon: "reconstructor_new L pf = Ok recon"
    and s: "s < num_stripes pf (length D)"
    and src: "length src = pr_data pf" "distinct src"
    "\<forall>x\<in>set src. x < pr_total pf \<and> shards ! x = Some (shard_of pf D x)"
    and ms: "missing \<noteq> []" "distinct missing" "\<forall>i\<in>set missing. i < pr_data pf \<and> i \<notin> set src"
    "length missing \<le> pr_data pf"
  shows "decode_stripe L recon pf (length D) shards src missing s
      (map (\<lambda>i. if i \<in> set missing then shard_upto pf D s i else B i) [0..<pr_data pf]) =
    Ok (map (\<lambda>i. if i \<in> set missing then shard_upto pf D (Suc s) i else B i) [0..<pr_data pf])"
proof -
  let ?k = "pr_data pf" and ?c = "pr_chunk_size pf"
  let ?outs = "replicate (length missing) (replicate ?c (0 :: u8))"
  let ?F = "\<lambda>e. coded_cell pf D e s"
  have ok: "cfg_ok (inner_cfg pf)" and c: "?c < 2 ^ 31" and k: "?k \<le> 32"
    using pf by (auto simp: profile_ok_def cfg_ok_def inner_cfg_def)
  have tot: "cfg_total (inner_cfg pf) = pr_total pf" "cfg_data (inner_cfg pf) = ?k"
    by (simp_all add: inner_cfg_def cfg_total_def pr_total_def)
  obtain dec where dec: "isal_decoder_new L (inner_cfg pf) = Ok dec" "recon = \<lparr>rc_profile = pf, rc_inner = dec\<rparr>"
    using reconstructor_new_Ok [OF pf] recon by auto
  have cells: "rmap_list (\<lambda>idx. case shards ! idx of None \<Rightarrow> Panic | Some b \<Rightarrow> padded_cell pf (length D) idx s b) src =
      Ok (map ?F src)"
    using src(3) s by (intro rmap_list_Ok_map) (simp add: shard_of_def padded_cell_eq)
  have mt: "\<forall>e\<in>set missing. e < pr_total pf \<and> e \<notin> set src" using ms(3) by (auto simp: pr_total_def)
  have "isal_reconstruct L dec ?c src (map ?F src) missing ?outs = Ok (map ?F missing)"
    using reconstruct_eq [OF ok dec(1) c, of src missing ?outs "stripe_cells pf D s", unfolded tot] src ms mt k
    by (simp add: coded_cell_def)
  then have run: "decode_stripe L recon pf (length D) shards src missing s bufs =
      rfold (extend_buf pf (length D) s (map ?F missing)) (enumerate 0 missing) bufs" for bufs
    by (simp add: decode_stripe_def cells reconstruct_def dec(2))
  have cut: "take (cell_len pf (length D) i s) (?F i) = cell pf D i s" if "i \<in> set missing" for i
    using that ms(3) by (simp add: coded_cell_data cell_len_eq pad_def)
  show ?thesis
    unfolding run using ms cell_len_le [of pf "length D"]
    by (subst extend_missing [where F = ?F]) (auto simp: shard_upto_def cut)
qed

lemma decode_loop_eq:
  assumes pf: "profile_ok pf" and recon: "reconstructor_new L pf = Ok recon"
    and src: "length src = pr_data pf" "distinct src"
    "\<forall>x\<in>set src. x < pr_total pf \<and> shards ! x = Some (shard_of pf D x)"
    and ms: "missing \<noteq> []" "distinct missing" "\<forall>i\<in>set missing. i < pr_data pf \<and> i \<notin> set src"
    "length missing \<le> pr_data pf"
  shows "rfold (decode_stripe L recon pf (length D) shards src missing) [0..<num_stripes pf (length D)]
      (map (\<lambda>i. if i \<in> set missing then [] else shard_of pf D i) [0..<pr_data pf]) =
    Ok (map (shard_of pf D) [0..<pr_data pf])"
proof -
  let ?st = "\<lambda>n. map (\<lambda>i. if i \<in> set missing then shard_upto pf D n i else shard_of pf D i) [0..<pr_data pf]"
  have run: "rfold (decode_stripe L recon pf (length D) shards src missing) [0..<n] (?st 0) = Ok (?st n)"
    if "n \<le> num_stripes pf (length D)" for n
    using that
    by (induction n) (simp_all add: rfold_append decode_stripe_eq [OF pf recon _ src ms])
  have first: "?st 0 = map (\<lambda>i. if i \<in> set missing then [] else shard_of pf D i) [0..<pr_data pf]"
    by (simp add: shard_upto_def)
  have last: "?st (num_stripes pf (length D)) = map (shard_of pf D) [0..<pr_data pf]"
    by (simp add: shard_of_def)
  show ?thesis using run [OF order_refl] unfolding first last .
qed

lemma decode_object_exact:
  assumes pf: "profile_ok pf" and D: "length D < 2 ^ 63" and shards: "length shards = pr_total pf"
    and slots: "\<forall>i<pr_total pf. \<forall>b. shards ! i = Some b \<longrightarrow> b = shard_of pf D i \<or> length b \<noteq> length (shard_of pf D i)"
    and enough: "pr_data pf \<le> card {i. i < pr_total pf \<and> shards ! i = Some (shard_of pf D i)}"
  shows "decode_object L pf (length D) shards = Ok D"
proof -
  let ?k = "pr_data pf" and ?len = "length D"
  let ?sh = "drop_inconsistent pf ?len shards" and ?n = "num_stripes pf ?len"
  let ?ms = "filter (\<lambda>i. ?sh ! i = None) [0..<?k]"
  let ?good = "filter (\<lambda>x. ?sh ! x \<noteq> None) [0..<pr_total pf]"
  let ?B = "\<lambda>i. case ?sh ! i of Some b \<Rightarrow> b | None \<Rightarrow> []"
  have S: "0 < stripe_size pf" and kc: "?k \<noteq> 0" "pr_chunk_size pf \<noteq> 0" and kt: "?k \<le> pr_total pf"
    using pf by (auto simp: profile_ok_def cfg_ok_def inner_cfg_def stripe_size_def pr_total_def)
  have sh: "?sh ! i = (if shards ! i = Some (shard_of pf D i) then Some (shard_of pf D i) else None)"
    if "i < pr_total pf" for i
    using that slots shards expected_shard_len_eq [OF pf D, of i]
    by (auto simp: drop_inconsistent_nth split: option.splits)
  have B: "?B i = (if i \<in> set ?ms then [] else shard_of pf D i)" if "i < ?k" for i
    using sh [of i] that kt by auto
  have "{i. i < pr_total pf \<and> shards ! i = Some (shard_of pf D i)} = set ?good"
    using sh by (auto split: if_splits)
  moreover have "card (set ?good) = length ?good" by (rule distinct_card) simp
  ultimately have "?k \<le> length ?good" using enough by (simp only:)
  then have good: "\<not> length ?good < ?k" by simp
  note picked = picked_shards [OF kt good]
  have src: "\<forall>x\<in>set (take ?k ?good). x < pr_total pf \<and> ?sh ! x = Some (shard_of pf D x)"
    using picked(3) sh by (metis (lifting))
  obtain recon where recon: "reconstructor_new L pf = Ok recon" using reconstructor_new_Ok [OF pf] by blast
  have final: "reassemble pf ?len (map (shard_of pf D) [0..<?k]) = Ok D"
    by (rule reassemble_cells [OF S refl])
  have bufs: "map ?B [0..<?k] = map (\<lambda>i. if i \<in> set ?ms then [] else shard_of pf D i) [0..<?k]"
    using B by (simp del: set_filter)
  show ?thesis
  proof (cases "?ms = []")
    case True
    then have "map ?B [0..<?k] = map (shard_of pf D) [0..<?k]" using B by simp
    with final have "reassemble pf ?len (map ?B [0..<?k]) = Ok D" by (simp only:)
    with True kc shards show ?thesis by (simp add: decode_object_def Let_def)
  next
    case False
    have ms: "\<forall>i\<in>set ?ms. i < ?k \<and> i \<notin> set (take ?k ?good)" using picked(5) by blast
    have "rfold (decode_stripe L recon pf ?len ?sh (take ?k ?good) ?ms) [0..<?n] (map ?B [0..<?k]) =
        Ok (map (shard_of pf D) [0..<?k])"
      unfolding bufs by (rule decode_loop_eq [OF pf recon picked(1,2) src False picked(4) ms picked(6)])
    with False final kc shards good recon show ?thesis
      by (simp add: decode_object_def Let_def)
  qed
qed

end

end
