(* ===== verification/Gauss_Jordan.thy ===== *)
theory Gauss_Jordan
  imports Main
begin

text \<open>
  Matrix inversion by Gauss-Jordan elimination on augmented rows, the method behind
  \<open>gf_invert_matrix\<close>: row \<open>i\<close> of the state is row \<open>i\<close> of the matrix followed by row \<open>i\<close> of the
  identity, and each column is cleared with a pivot found below the diagonal. The lemmas show
  that a run that succeeds leaves a left inverse, and that a run that finds no pivot exhibits a
  nonzero vector of the kernel.
\<close>

section \<open>Elimination\<close>

definition find_pivot :: "nat \<Rightarrow> 'a::field list list \<Rightarrow> nat \<Rightarrow> nat option" where
  "find_pivot n rows c = find (\<lambda>i. rows ! i ! c \<noteq> 0) [c..<n]"

definition swap_rows :: "nat \<Rightarrow> nat \<Rightarrow> 'b list \<Rightarrow> 'b list" where
  "swap_rows i j xs = xs[i := xs ! j, j := xs ! i]"

definition clear_column :: "nat \<Rightarrow> 'a::field list list \<Rightarrow> nat \<Rightarrow> 'a list list" where
  "clear_column n rows c =
     (let piv = map (\<lambda>x. inverse (rows ! c ! c) * x) (rows ! c)
      in map (\<lambda>i. if i = c then piv
                   else map2 (\<lambda>a b. a - rows ! i ! c * b) (rows ! i) piv) [0..<n])"

fun gauss_jordan :: "nat \<Rightarrow> nat list \<Rightarrow> 'a::field list list \<Rightarrow> 'a list list option" where
  "gauss_jordan n [] rows = Some rows"
| "gauss_jordan n (c # cs) rows =
     (case find_pivot n rows c of
        None \<Rightarrow> None
      | Some p \<Rightarrow> gauss_jordan n cs (clear_column n (swap_rows c p rows) c))"

section \<open>Invariants\<close>

definition kills :: "nat \<Rightarrow> 'a::field list \<Rightarrow> (nat \<Rightarrow> 'a) \<Rightarrow> bool" where
  "kills n w v \<longleftrightarrow> (\<Sum>l<n. w ! l * v l) = 0"

text \<open>The left half of an augmented row is its right half times \<open>B\<close>.\<close>

definition tracks :: "nat \<Rightarrow> (nat \<Rightarrow> nat \<Rightarrow> 'a::field) \<Rightarrow> 'a list \<Rightarrow> bool" where
  "tracks n B w \<longleftrightarrow> length w = 2 * n \<and> (\<forall>l<n. w ! l = (\<Sum>j<n. w ! (n + j) * B j l))"

definition gj_inv :: "nat \<Rightarrow> (nat \<Rightarrow> nat \<Rightarrow> 'a::field) \<Rightarrow> nat \<Rightarrow> 'a list list \<Rightarrow> bool" where
  "gj_inv n B c rows \<longleftrightarrow>
     length rows = n \<and> (\<forall>w\<in>set rows. tracks n B w) \<and>
     (\<forall>i<n. \<forall>l<c. rows ! i ! l = (if i = l then 1 else 0)) \<and>
     (\<forall>v. (\<forall>w\<in>set rows. kills n w v) \<longrightarrow> (\<forall>i<n. (\<Sum>l<n. B i l * v l) = 0))"

lemma tracks_scale: "tracks n B w \<Longrightarrow> tracks n B (map (\<lambda>x. s * x) w)"
  by (simp add: tracks_def sum_distrib_left mult.assoc)

lemma tracks_subtract:
  "tracks n B w \<Longrightarrow> tracks n B u \<Longrightarrow> tracks n B (map2 (\<lambda>a b. a - t * b) w u)"
  by (simp add: tracks_def sum_distrib_left sum_subtractf left_diff_distrib mult.assoc)

lemma kills_scale:
  "n \<le> length w \<Longrightarrow> s \<noteq> 0 \<Longrightarrow> kills n (map (\<lambda>x. s * x) w) v \<longleftrightarrow> kills n w v"
  by (simp add: kills_def mult.assoc flip: sum_distrib_left)

lemma kills_subtract:
  assumes "n \<le> length w" "n \<le> length u" "kills n u v"
  shows "kills n (map2 (\<lambda>a b. a - t * b) w u) v \<longleftrightarrow> kills n w v"
proof -
  have "(\<Sum>l<n. map2 (\<lambda>a b. a - t * b) w u ! l * v l) = (\<Sum>l<n. w ! l * v l) - t * (\<Sum>l<n. u ! l * v l)"
    using assms(1,2) by (simp add: left_diff_distrib sum_subtractf sum_distrib_left mult.assoc)
  with assms(3) show ?thesis by (simp add: kills_def)
qed

lemma swap_rows_simps:
  assumes "i < length xs" "j < length xs"
  shows "length (swap_rows i j xs) = length xs" "set (swap_rows i j xs) = set xs"
    "k < length xs \<Longrightarrow> swap_rows i j xs ! k = (if k = j then xs ! i else if k = i then xs ! j else xs ! k)"
proof -
  show "set (swap_rows i j xs) = set xs"
    using assms set_swap [of i xs j] by (simp add: swap_rows_def)
qed (use assms in \<open>auto simp: swap_rows_def nth_list_update\<close>)

lemma find_pivot_Some:
  "find_pivot n rows c = Some p \<Longrightarrow> c \<le> p \<and> p < n \<and> rows ! p ! c \<noteq> 0"
  by (auto simp: find_pivot_def find_Some_iff)

lemma find_pivot_None:
  "find_pivot n rows c = None \<longleftrightarrow> (\<forall>i. c \<le> i \<and> i < n \<longrightarrow> rows ! i ! c = 0)"
  by (auto simp: find_pivot_def find_None_iff)

lemma gj_inv_swap:
  assumes inv: "gj_inv n B c rows" and p: "c \<le> p" "p < n"
  shows "gj_inv n B c (swap_rows c p rows)"
proof -
  have len: "length rows = n" "c < length rows" "p < length rows"
    using assms by (auto simp: gj_inv_def)
  have "swap_rows c p rows ! i ! l = (if i = l then 1 else 0)" if "i < n" "l < c" for i l
    using inv that p len by (auto simp: swap_rows_simps gj_inv_def)
  with inv len show ?thesis by (simp add: gj_inv_def swap_rows_simps)
qed

lemma gj_inv_rows:
  assumes "gj_inv n B c rows" "i < n"
  shows "tracks n B (rows ! i)" "length (rows ! i) = 2 * n"
  using assms by (auto simp: gj_inv_def tracks_def)

lemma gj_inv_clear:
  assumes inv: "gj_inv n B c rows" and c: "c < n" "rows ! c ! c \<noteq> 0"
  shows "gj_inv n B (Suc c) (clear_column n rows c)"
proof -
  define s where "s = inverse (rows ! c ! c)"
  define piv where "piv = map (\<lambda>x. s * x) (rows ! c)"
  define R where "R = clear_column n rows c"
  have R: "R ! i = (if i = c then piv else map2 (\<lambda>a b. a - rows ! i ! c * b) (rows ! i) piv)"
    if "i < n" for i
    using that by (simp add: R_def clear_column_def piv_def s_def Let_def)
  have s: "s \<noteq> 0" "s * rows ! c ! c = 1" using c by (simp_all add: s_def)
  note row = gj_inv_rows [OF inv]
  have piv: "tracks n B piv" "length piv = 2 * n"
    using row [OF c(1)] by (simp_all add: piv_def tracks_scale)
  have len: "length rows = n" "length R = n"
    using inv by (simp_all add: gj_inv_def R_def clear_column_def Let_def)
  have unit: "rows ! i ! l = (if i = l then 1 else 0)" if "i < n" "l < c" for i l
    using inv that by (simp add: gj_inv_def)
  have tr: "tracks n B (R ! i)" if "i < n" for i
    using that row piv by (simp add: R tracks_subtract)
  have pl: "piv ! l = (if l = c then 1 else 0)" if "l < Suc c" for l
    using that c s unit [OF c(1)] row(2) [OF c(1)] by (auto simp: piv_def less_Suc_eq)
  have cols: "R ! i ! l = (if i = l then 1 else 0)" if "i < n" "l < Suc c" for i l
    using that c row(2) [OF that(1)] piv(2) unit [OF that(1)] pl [OF that(2)] pl [of c]
    by (auto simp: R less_Suc_eq)
  have kill: "kills n (rows ! i) v" if v: "\<forall>w\<in>set R. kills n w v" and i: "i < n" for i v
  proof -
    have Rv: "kills n (R ! j) v" if "j < n" for j using v that len by simp
    have pv: "kills n piv v" using Rv [OF c(1)] R [OF c(1)] by simp
    show ?thesis
    proof (cases "i = c")
      case True
      with pv s row(2) [OF c(1)] show ?thesis by (simp add: piv_def kills_scale)
    next
      case False
      with Rv [OF i] pv row(2) [OF i] piv(2) show ?thesis by (simp add: R [OF i] kills_subtract)
    qed
  qed
  have "\<forall>w\<in>set R. tracks n B w" using tr len by (auto simp: in_set_conv_nth)
  moreover have "(\<Sum>l<n. B i l * v l) = 0" if "\<forall>w\<in>set R. kills n w v" "i < n" for i v
  proof -
    have "\<forall>w\<in>set rows. kills n w v" using kill [OF that(1)] len by (auto simp: in_set_conv_nth)
    with inv that(2) show ?thesis by (simp add: gj_inv_def)
  qed
  ultimately show ?thesis
    using cols len unfolding R_def [symmetric] gj_inv_def by blast
qed

text \<open>No pivot in column \<open>c\<close>: the vector below is in the kernel of all rows.\<close>

lemma gj_inv_no_pivot:
  assumes inv: "gj_inv n B c rows" and c: "c < n" and none: "find_pivot n rows c = None"
  shows "\<exists>v. (\<exists>j<n. v j \<noteq> 0) \<and> (\<forall>i<n. (\<Sum>l<n. B i l * v l) = 0)"
proof -
  let ?v = "\<lambda>l. if l < c then - (rows ! l ! c) else if l = c then 1 else 0"
  have len: "length rows = n" using inv by (simp add: gj_inv_def)
  have "kills n (rows ! i) ?v" if i: "i < n" for i
  proof -
    have "(\<Sum>l<n. rows ! i ! l * ?v l) = (\<Sum>l<Suc c. rows ! i ! l * ?v l)"
      using c by (intro sum.mono_neutral_right) auto
    also have "\<dots> = (\<Sum>l<c. rows ! i ! l * ?v l) + rows ! i ! c" by simp
    also have "(\<Sum>l<c. rows ! i ! l * ?v l) = (\<Sum>l<c. if i = l then - (rows ! l ! c) else 0)"
      using inv i by (intro sum.cong) (auto simp: gj_inv_def)
    also have "\<dots> + rows ! i ! c = 0"
      using none i by (auto simp: find_pivot_None)
    finally show ?thesis by (simp add: kills_def)
  qed
  then have "\<forall>w\<in>set rows. kills n w ?v" using len by (auto simp: in_set_conv_nth)
  with inv have "\<forall>i<n. (\<Sum>l<n. B i l * ?v l) = 0" by (auto simp: gj_inv_def)
  with c show ?thesis by (intro exI [of _ ?v] conjI exI [of _ c]) auto
qed

lemma gauss_jordan_run:
  assumes "gj_inv n B c rows" "c \<le> n"
  shows "case gauss_jordan n [c..<n] rows of
      None \<Rightarrow> \<exists>v. (\<exists>j<n. v j \<noteq> 0) \<and> (\<forall>i<n. (\<Sum>l<n. B i l * v l) = 0)
    | Some R \<Rightarrow> gj_inv n B n R"
  using assms
proof (induction "n - c" arbitrary: c rows)
  case (Suc d)
  then have c: "c < n" by simp
  show ?case
  proof (cases "find_pivot n rows c")
    case None
    then show ?thesis
      using gj_inv_no_pivot [OF Suc.prems(1) c] c by (simp add: upt_conv_Cons)
  next
    case (Some p)
    from find_pivot_Some [OF Some] have p: "c \<le> p" "p < n" "rows ! p ! c \<noteq> 0" by auto
    let ?rows = "swap_rows c p rows"
    have "?rows ! c ! c \<noteq> 0"
      using p c Suc.prems(1) by (cases "c = p") (auto simp: swap_rows_simps gj_inv_def)
    then have "gj_inv n B (Suc c) (clear_column n ?rows c)"
      using gj_inv_clear gj_inv_swap p Suc.prems(1) c by blast
    with Suc.hyps(1) [of "Suc c"] Suc.hyps(2) c Some show ?thesis
      by (simp add: upt_conv_Cons)
  qed
qed simp

text \<open>A successful run leaves the identity on the left and a left inverse of \<open>B\<close> on the right.\<close>

lemma gj_inv_final:
  assumes "gj_inv n B n R" "i < n" "l < n"
  shows "(\<Sum>j<n. R ! i ! (n + j) * B j l) = (if i = l then 1 else 0)"
  using assms gj_inv_rows(1) [OF assms(1,2)] by (auto simp: gj_inv_def tracks_def)

end
