(* ===== verification/Isal_Reference.thy ===== *)
theory Isal_Reference
  imports Isal_Safe Gauss_Jordan
begin

text \<open>
  A reference implementation of the five ISA-L entry points, on the field operations that the
  sources port in their byte-equivalence test: Cauchy generation, Gauss-Jordan inversion, and
  coding through 32-byte nibble tables. It discharges \<open>isal_contract\<close>, so the contract is
  satisfiable and every theorem that assumes it applies to a concrete coder.
\<close>

section \<open>Definitions\<close>

definition augmented :: "nat \<Rightarrow> bytes \<Rightarrow> gf256 list list" where
  "augmented n b =
     map (\<lambda>i. map (\<lambda>j. mat_at b n i j) [0..<n] @ map (\<lambda>j. if i = j then 1 else 0) [0..<n]) [0..<n]"

definition ref_invert_matrix :: "bytes \<Rightarrow> int \<Rightarrow> int \<times> bytes" where
  "ref_invert_matrix b n' =
     (let n = nat n' in
      case gauss_jordan n [0..<n] (augmented n b) of
        None \<Rightarrow> (- 1, replicate (n * n) 0)
      | Some R \<Rightarrow> (0, concat (map (\<lambda>i. map (\<lambda>j. byte_of (R ! i ! (n + j))) [0..<n]) [0..<n])))"

text \<open>Per coefficient, 16 products of the low nibbles and 16 of the high nibbles.\<close>

definition nibble_table :: "u8 \<Rightarrow> bytes" where
  "nibble_table c =
     map (\<lambda>x. gf_mul c (of_nat x)) [0..<16] @ map (\<lambda>x. gf_mul c (push_bit 4 (of_nat x))) [0..<16]"

definition table_mul :: "bytes \<Rightarrow> nat \<Rightarrow> u8 \<Rightarrow> u8" where
  "table_mul t base x =
     t ! (base + unat (x AND 15)) XOR t ! (base + 16 + unat (drop_bit 4 x))"

definition ref_init_tables :: "int \<Rightarrow> int \<Rightarrow> bytes \<Rightarrow> bytes" where
  "ref_init_tables k rows M = concat (map nibble_table (take (nat (rows * k)) M))"

definition ref_encode_data ::
    "int \<Rightarrow> int \<Rightarrow> int \<Rightarrow> bytes \<Rightarrow> bytes list \<Rightarrow> bytes list \<Rightarrow> bytes list" where
  "ref_encode_data len k rows tbl data outs =
     map (\<lambda>r. map (\<lambda>b.
       foldl (\<lambda>acc j. acc XOR table_mul tbl (32 * (nat k * r + j)) (data ! j ! b)) 0 [0..<nat k])
       [0..<nat len]) [0..<nat rows]"

definition isal_ref :: isal where
  "isal_ref =
     \<lparr>isal_gf_gen_cauchy1_matrix = (\<lambda>m k. ozone_cauchy (nat m) (nat k)),
      isal_gf_mul = gf_mul,
      isal_gf_invert_matrix = ref_invert_matrix,
      isal_ec_init_tables = ref_init_tables,
      isal_ec_encode_data = ref_encode_data\<rparr>"

section \<open>Inversion\<close>

lemma augmented_inv: "gj_inv n (mat_at b n) 0 (augmented n b)"
proof -
  have "(\<Sum>j<n. (if i = j then 1 else 0) * mat_at b n j l) = mat_at b n i l" if "i < n" for i l
  proof -
    have "(\<Sum>j<n. (if i = j then 1 else 0) * mat_at b n j l) = (\<Sum>j<n. if i = j then mat_at b n j l else 0)"
      by (intro sum.cong) auto
    with that show ?thesis by simp
  qed
  then have "\<forall>w\<in>set (augmented n b). tracks n (mat_at b n) w"
    by (auto simp: augmented_def tracks_def nth_append)
  moreover have "(\<Sum>l<n. mat_at b n i l * v l) = 0"
    if "\<forall>w\<in>set (augmented n b). kills n w v" "i < n" for i v
    using that by (auto simp: augmented_def kills_def nth_append)
  ultimately show ?thesis by (simp add: gj_inv_def augmented_def)
qed

lemma left_inverse_not_singular:
  assumes "\<And>i l. i < n \<Longrightarrow> l < n \<Longrightarrow> (\<Sum>j<n. V i j * mat_at b n j l) = (if i = l then 1 else 0)"
  shows "\<not> singular n b"
proof
  assume "singular n b"
  then obtain v j0 where v: "j0 < n" "v j0 \<noteq> 0" "\<And>i. i < n \<Longrightarrow> (\<Sum>j<n. mat_at b n i j * v j) = 0"
    by (auto simp: singular_def)
  have "v j0 = (\<Sum>i<n. V j0 i * (\<Sum>l<n. mat_at b n i l * v l))"
    using assms v(1) by (subst inverse_applied) auto
  also have "\<dots> = 0" using v(3) by simp
  finally show False using v(2) by simp
qed

lemma ref_invert_cases:
  obtains (none) "ref_invert_matrix b (int n) = (- 1, replicate (n * n) 0)" "singular n b"
  | (some) R where "gj_inv n (mat_at b n) n R" "\<not> singular n b"
    "ref_invert_matrix b (int n) =
       (0, concat (map (\<lambda>i. map (\<lambda>j. byte_of (R ! i ! (n + j))) [0..<n]) [0..<n]))"
proof (cases "gauss_jordan n [0..<n] (augmented n b)")
  case None
  with gauss_jordan_run [OF augmented_inv, of n b] show thesis
    by (intro none) (simp_all add: ref_invert_matrix_def singular_def)
next
  case (Some R)
  with gauss_jordan_run [OF augmented_inv, of n b] have inv: "gj_inv n (mat_at b n) n R" by simp
  then have "\<not> singular n b"
    using gj_inv_final by (intro left_inverse_not_singular [of n "\<lambda>i j. R ! i ! (n + j)"]) blast
  with inv Some show thesis
    by (intro some) (simp_all add: ref_invert_matrix_def)
qed

section \<open>Tables\<close>

lemma length_nibble_table [simp]: "length (nibble_table c) = 32"
  by (simp add: nibble_table_def)

lemma table_mul_nibble: "table_mul (nibble_table c) 0 x = gf_mul c x"
proof -
  have "(15 :: u8) = mask 4" by (simp add: mask_eq_exp_minus_1)
  then have and15: "x AND 15 = take_bit 4 x" by (simp only: take_bit_eq_mask)
  have lo: "unat (x AND 15) < 16"
    using take_bit_nat_less_exp [of 4 "unat x"] by (simp add: and15 unsigned_take_bit_eq)
  have hi: "unat (drop_bit 4 x) < 16"
    using unat_u8_less [of x] by (simp add: drop_bit_eq_div unat_div_distrib)
  have "x = (x AND 15) XOR push_bit 4 (drop_bit 4 x)"
    unfolding and15 by (rule bit_word_eqI) (auto simp: bit_simps)
  then have "gf_mul c x = gf_mul c (x AND 15) XOR gf_mul c (push_bit 4 (drop_bit 4 x))"
    using gf_mul_xor_right by metis
  with lo hi show ?thesis
    by (simp add: table_mul_def nibble_table_def nth_append)
qed

lemma table_mul_concat:
  "i < length M \<Longrightarrow> table_mul (concat (map nibble_table M)) (32 * i) x = gf_mul (M ! i) x"
proof -
  assume i: "i < length M"
  have nth: "concat (map nibble_table M) ! (32 * i + j) = nibble_table (M ! i) ! j" if "j < 32" for j
    using concat_nth [of "map nibble_table M" 32 i j] i that by simp
  have "unat (x AND 15) < 16"
    using word_and_le1 [of x 15] by (simp add: word_le_nat_alt)
  moreover have "unat (drop_bit 4 x) < 16"
    using unat_u8_less [of x] by (simp add: drop_bit_eq_div unat_div_distrib)
  ultimately show ?thesis
    using nth [of "unat (x AND 15)"] nth [of "16 + unat (drop_bit 4 x)"] table_mul_nibble [of "M ! i" x]
    by (simp add: table_mul_def add.assoc)
qed

lemma foldl_xor: "foldl (\<lambda>acc j. acc XOR g j) a [0..<n] = a XOR byte_of (\<Sum>j<n. GF (g j))"
  by (induction n) (simp_all add: xor.assoc)

lemma ref_encode_code_rows:
  assumes "length M = rows * k"
  shows "ref_encode_data (int len) (int k) (int rows) (ref_init_tables (int k) (int rows) M) data outs =
    code_rows len k rows M data"
proof -
  have tbl: "ref_init_tables (int k) (int rows) M = concat (map nibble_table M)"
    using assms by (simp add: ref_init_tables_def flip: of_nat_mult)
  have "table_mul (concat (map nibble_table M)) (32 * (k * r + j)) x = gf_mul (M ! (k * r + j)) x"
    if "r < rows" "j < k" for r j x
    using row_index_less [OF that] assms by (intro table_mul_concat) simp
  then show ?thesis
    by (auto simp: tbl ref_encode_data_def code_rows_def foldl_xor mat_at_def GF_simps
        intro!: arg_cong [of _ _ byte_of] sum.cong)
qed

section \<open>The reference satisfies the contract\<close>

interpretation isref: isal_contract isal_ref
proof unfold_locales
  fix n b i l
  show "fst (isal_gf_invert_matrix isal_ref b (int n)) < 0 \<longleftrightarrow> singular n b"
    by (cases rule: ref_invert_cases [of b n]) (simp_all add: isal_ref_def)
  show "length (snd (isal_gf_invert_matrix isal_ref b (int n))) = n * n"
    by (cases rule: ref_invert_cases [of b n]) (simp_all add: isal_ref_def)
  assume "\<not> singular n b" "i < n" "l < n"
  then show "(\<Sum>j<n. mat_at (snd (isal_gf_invert_matrix isal_ref b (int n))) n i j * mat_at b n j l) =
      (if i = l then 1 else 0)"
    by (cases rule: ref_invert_cases [of b n])
      (simp_all add: isal_ref_def mat_at_def [of "concat _"] concat_rows_nth gj_inv_final cong: sum.cong_simp)
qed (simp_all add: isal_ref_def ref_encode_code_rows)

lemma isal_ref_contract: "isal_contract isal_ref"
  by (rule isref.isal_contract_axioms)

end
