(* ===== verification/Ec_Correct.thy ===== *)
theory Ec_Correct
  imports Ec_Stripe Isal_Reference
begin

text \<open>
  The properties of the erasure coder as a whole, over any library that satisfies
  \<open>isal_contract\<close>, each applied at a concrete input to the reference library \<open>isal_ref\<close>.
\<close>

section \<open>Objects\<close>

text \<open>
  C1. Decoding inverts encoding. Encode an object of up to 2^63 bytes; lose shards, or keep
  shards of a wrong length, in any positions: as long as \<open>k\<close> of the \<open>k + p\<close> slots still hold
  what the encoder wrote, \<open>decode_object\<close> gives back exactly the object.
\<close>

theorem decode_encode_object:
  assumes "isal_contract L" "profile_ok pf" "length D < 2 ^ 63"
    and "encode_object L pf D = Ok es" and "length shards = pr_total pf"
    and "\<forall>i<pr_total pf. \<forall>b. shards ! i = Some b \<longrightarrow>
      b = (es_data es @ es_parity es) ! i \<or> length b \<noteq> length ((es_data es @ es_parity es) ! i)"
    and "pr_data pf \<le> card {i. i < pr_total pf \<and> shards ! i = Some ((es_data es @ es_parity es) ! i)}"
  shows "decode_object L pf (length D) shards = Ok D"
proof -
  have "es = \<lparr>es_data = map (shard_of pf D) [0..<pr_data pf],
      es_parity = map (shard_of pf D) [pr_data pf..<pr_total pf]\<rparr>"
    using assms(4) isal_contract.encode_object_eq [OF assms(1,2), of D] by simp
  then have all: "(es_data es @ es_parity es) ! i = shard_of pf D i" if "i < pr_total pf" for i
    using that by (simp add: nth_append)
  then have "{i. i < pr_total pf \<and> shards ! i = Some ((es_data es @ es_parity es) ! i)} =
      {i. i < pr_total pf \<and> shards ! i = Some (shard_of pf D i)}" by auto
  with assms all show ?thesis
    by (intro isal_contract.decode_object_exact [OF assms(1,2,3)]) auto
qed

definition rs_2_1 :: profile where
  "rs_2_1 = \<lparr>pr_data = 2, pr_parity = 1, pr_chunk_size = 2\<rparr>"

lemma rs_2_1_ok: "profile_ok rs_2_1" "pr_total rs_2_1 = 3" "pr_data rs_2_1 = 2"
  by (simp_all add: rs_2_1_def profile_ok_def cfg_ok_def inner_cfg_def pr_total_def)

lemma upt_3: "[0..<3] = [0, 1, 2 :: nat]"
  by code_simp

lemma less_3_iff: "(\<forall>i<3. P i) \<longleftrightarrow> P 0 \<and> P 1 \<and> P (2 :: nat)"
  by (auto simp: less_Suc_eq numeral_eq_Suc)

theorem decode_encode_object_witness:
  "\<exists>es. encode_object isal_ref rs_2_1 [1, 2, 3, 4, 5] = Ok es \<and>
     decode_object isal_ref rs_2_1 5 [None, Some (es_data es ! 1), Some (es_parity es ! 0)] = Ok [1, 2, 3, 4, 5]"
proof -
  let ?D = "[1, 2, 3, 4, 5] :: bytes"
  obtain es where es: "encode_object isal_ref rs_2_1 ?D = Ok es" "length (es_data es) = 2"
    using isal_contract.encode_object_eq [OF isal_ref_contract rs_2_1_ok(1), of ?D] by (simp add: rs_2_1_ok)
  let ?sh = "[None, Some (es_data es ! 1), Some (es_parity es ! 0)]"
  have "{i. i < 3 \<and> ?sh ! i = Some ((es_data es @ es_parity es) ! i)} = {1, 2}"
    using es(2) by (auto simp: nth_append less_Suc_eq numeral_eq_Suc)
  then have "decode_object isal_ref rs_2_1 (length ?D) ?sh = Ok ?D"
    using es by (intro decode_encode_object [OF isal_ref_contract rs_2_1_ok(1) _ es(1)])
      (auto simp: rs_2_1_ok less_3_iff nth_append)
  moreover have "length ?D = 5" by simp
  ultimately have "decode_object isal_ref rs_2_1 5 ?sh = Ok ?D" by (simp only:)
  with es(1) show ?thesis by blast
qed

text \<open>
  C2. \<open>decode_object\<close> is total on untrusted input. For any claimed length and any shards it
  does not panic: either fewer than \<open>k\<close> shards have the length that the claim implies and the
  error reports how many do, or it returns exactly the claimed number of bytes.
\<close>

theorem decode_object_safe:
  assumes "isal_contract L" "profile_ok pf" "len \<le> usize_max" "length shards = pr_total pf"
    and "\<forall>b. Some b \<in> set shards \<longrightarrow> length b < usize_max"
  shows "case decode_object L pf len shards of
      Ok out \<Rightarrow> length out = len
    | Err e \<Rightarrow> (let good = {i. i < pr_total pf \<and> (\<exists>b. shards ! i = Some b \<and> length b = expected_shard_len pf len i)}
               in card good < pr_data pf \<and> e = NotEnoughShards (card good) (pr_data pf))
    | Panic \<Rightarrow> False"
proof -
  let ?sh = "drop_inconsistent pf len shards"
  have "{i. i < pr_total pf \<and> (\<exists>b. shards ! i = Some b \<and> length b = expected_shard_len pf len i)} =
      set (filter (\<lambda>x. ?sh ! x \<noteq> None) [0..<pr_total pf])"
    using assms(4) by (auto simp: drop_inconsistent_nth split: option.splits if_splits)
  moreover have "card (set (filter (\<lambda>x. ?sh ! x \<noteq> None) [0..<pr_total pf])) =
      length (filter (\<lambda>x. ?sh ! x \<noteq> None) [0..<pr_total pf])"
    by (rule distinct_card) simp
  ultimately have good: "card {i. i < pr_total pf \<and> (\<exists>b. shards ! i = Some b \<and> length b = expected_shard_len pf len i)} =
      length (filter (\<lambda>x. ?sh ! x \<noteq> None) [0..<pr_total pf])"
    by (simp only:)
  show ?thesis
    using isal_contract.decode_object_total [OF assms] unfolding Let_def good by (auto simp del: split_paired_Ex)
qed

theorem decode_object_safe_witness:
  "decode_object isal_ref rs_2_1 (2 ^ 40) [None, Some [7, 7], Some [7]] \<noteq> Panic"
proof -
  have "length [None, Some [7, 7], Some [7 :: u8]] = pr_total rs_2_1" by (simp add: rs_2_1_ok)
  from decode_object_safe [OF isal_ref_contract rs_2_1_ok(1) _ this, of "2 ^ 40"]
  show ?thesis by (auto simp: usize_max_def)
qed

text \<open>
  C3. What the encoder stores: \<open>k\<close> data and \<open>p\<close> parity shards whose lengths are the closed form
  \<open>expected_shard_len\<close>, and whose data shards read back in order are the object.
\<close>

theorem encode_object_layout:
  assumes "isal_contract L" "profile_ok pf" "length D < 2 ^ 63" "encode_object L pf D = Ok es"
  shows "length (es_data es) = pr_data pf \<and> length (es_parity es) = pr_parity pf \<and>
    map length (es_data es @ es_parity es) = map (expected_shard_len pf (length D)) [0..<pr_total pf] \<and>
    reassemble pf (length D) (es_data es) = Ok D"
proof -
  have es: "es = \<lparr>es_data = map (shard_of pf D) [0..<pr_data pf],
      es_parity = map (shard_of pf D) [pr_data pf..<pr_total pf]\<rparr>"
    using assms(4) isal_contract.encode_object_eq [OF assms(1,2), of D] by simp
  have "0 < stripe_size pf"
    using assms(2) by (auto simp: profile_ok_def cfg_ok_def inner_cfg_def stripe_size_def)
  moreover have "[0..<pr_total pf] = [0..<pr_data pf] @ [pr_data pf..<pr_total pf]"
    using upt_add_eq_append [of 0 "pr_data pf" "pr_parity pf"] by (simp add: pr_total_def)
  ultimately show ?thesis
    using expected_shard_len_eq [OF assms(2,3)]
    by (simp add: es pr_total_def reassemble_cells)
qed

theorem encode_object_layout_witness:
  "\<exists>es. encode_object isal_ref rs_2_1 [1, 2, 3, 4, 5] = Ok es \<and>
     map length (es_data es @ es_parity es) = [3, 2, 4] \<and>
     reassemble rs_2_1 (length [1, 2, 3, 4, 5 :: u8]) (es_data es) = Ok [1, 2, 3, 4, 5]"
proof -
  obtain es where es: "encode_object isal_ref rs_2_1 [1, 2, 3, 4, 5] = Ok es"
    using isal_contract.encode_object_eq [OF isal_ref_contract rs_2_1_ok(1)] by simp
  have lens: "map (expected_shard_len rs_2_1 (length [1, 2, 3, 4, 5 :: u8])) [0..<pr_total rs_2_1] = [3, 2, 4]"
    by (simp add: upt_3 rs_2_1_def pr_total_def expected_shard_len_def stripe_size_def num_stripes_def
        saturating_mul_def div_ceil_def usize_max_def)
  show ?thesis
    using es encode_object_layout [OF isal_ref_contract rs_2_1_ok(1) _ es] unfolding lens by simp
qed

section \<open>Stripes\<close>

text \<open>
  C4. Any \<open>k\<close> shards of a stripe determine all of them: given the shards of an encoded stripe at
  \<open>k\<close> distinct indices, \<open>reconstruct\<close> rebuilds any other shards, data or parity, bit for bit.
  In particular the survivors' matrix is never singular.
\<close>

theorem reconstruct_any_k:
  assumes "isal_contract L" "cfg_ok cfg" "len < 2 ^ 31"
    and "isal_encoder_new L cfg = Ok enc" "isal_decoder_new L cfg = Ok dec"
    and "length data = cfg_data cfg" "\<forall>d\<in>set data. length d = len"
    and "length par0 = cfg_parity cfg" "\<forall>d\<in>set par0. length d = len"
    and "isal_encode L enc len data par0 = Ok par"
    and "length src = cfg_data cfg" "distinct src" "\<forall>s\<in>set src. s < cfg_total cfg"
    and "erased \<noteq> []" "\<forall>e\<in>set erased. e < cfg_total cfg \<and> e \<notin> set src" "length erased < 2 ^ 31"
    and "length outs = length erased" "\<forall>d\<in>set outs. length d = len"
  shows "isal_reconstruct L dec len src (map (\<lambda>s. (data @ par) ! s) src) erased outs =
    Ok (map (\<lambda>e. (data @ par) ! e) erased)"
proof -
  let ?k = "cfg_data cfg"
  have par: "par = map (code_shard ?k len data) [?k..<cfg_total cfg]"
    using isal_contract.encode_eq [OF assms(1,2,4,3,6,7,8,9)] assms(10) by simp
  have all: "(data @ par) ! i = code_shard ?k len data i" if "i < cfg_total cfg" for i
    using that assms(6,7) by (cases "i < ?k") (auto simp: nth_append par code_shard_data)
  have eqs: "map (\<lambda>s. (data @ par) ! s) src = map (code_shard ?k len data) src"
    "map (\<lambda>e. (data @ par) ! e) erased = map (code_shard ?k len data) erased"
    using assms(13,15) all by auto
  show ?thesis
    unfolding eqs by (rule isal_contract.reconstruct_eq [OF assms(1,2,5,3,11,12,13,14,15,16,17,18)])
qed

theorem reconstruct_any_k_witness:
  "\<exists>enc dec par. isal_encoder_new isal_ref \<lparr>cfg_data = 2, cfg_parity = 1\<rparr> = Ok enc \<and>
     isal_decoder_new isal_ref \<lparr>cfg_data = 2, cfg_parity = 1\<rparr> = Ok dec \<and>
     isal_encode isal_ref enc 3 [[1, 2, 3], [4, 5, 6]] [[0, 0, 0]] = Ok par \<and>
     isal_reconstruct isal_ref dec 3 [2, 1] [par ! 0, [4, 5, 6]] [0] [[0, 0, 0]] = Ok [[1, 2, 3]]"
proof -
  let ?cfg = "\<lparr>cfg_data = 2, cfg_parity = 1\<rparr>" and ?data = "[[1, 2, 3], [4, 5, 6]] :: bytes list"
  have ok: "cfg_ok ?cfg" by (simp add: cfg_ok_def)
  obtain enc dec where ed: "isal_encoder_new isal_ref ?cfg = Ok enc" "isal_decoder_new isal_ref ?cfg = Ok dec"
    using isal_contract.encoder_new_eq [OF isal_ref_contract ok]
      isal_contract.decoder_new_eq [OF isal_ref_contract ok] by simp
  obtain par where par: "isal_encode isal_ref enc 3 ?data [[0, 0, 0]] = Ok par" "length par = 1"
    using isal_contract.encode_eq [OF isal_ref_contract ok ed(1), of 3 ?data "[[0, 0, 0]]"]
    by (simp add: cfg_total_def)
  have "isal_reconstruct isal_ref dec 3 [2, 1] (map (\<lambda>s. (?data @ par) ! s) [2, 1]) [0] [[0, 0, 0]] =
      Ok (map (\<lambda>e. (?data @ par) ! e) [0])"
    by (rule reconstruct_any_k [OF isal_ref_contract ok _ ed _ _ _ _ par(1)]) (simp_all add: cfg_total_def)
  with ed par show ?thesis by simp
qed

end
