(* ===== verification/Ozone_Types.thy ===== *)
theory Ozone_Types
  imports Ozone_Prelude
begin

text \<open>
  The domain types of \<open>crates/ozone-types\<close>: identifiers and replica slots, the erasure-coding
  configuration and its validation, checksum bundles, chunk and block metadata, and the container
  state machine's states. Field names carry a short prefix of their struct; the newtypes
  \<open>ContainerId(u64)\<close>, \<open>LocalId(u64)\<close> and \<open>ReplicaIndex(u8)\<close> are their payload.
\<close>

section \<open>Identifiers (lib.rs)\<close>

type_synonym container_id = u64
type_synonym local_id = u64
type_synonym replica_index = u8

definition u64_to_string :: "u64 \<Rightarrow> string" where
  "u64_to_string w = nat_to_dec (unat w)"

definition u8_to_string :: "u8 \<Rightarrow> string" where
  "u8_to_string w = nat_to_dec (unat w)"

definition NON_EC :: replica_index where
  "NON_EC = 0"

definition is_non_ec :: "replica_index \<Rightarrow> bool" where
  "is_non_ec r \<longleftrightarrow> r = 0"

definition zero_based :: "replica_index \<Rightarrow> nat option" where
  "zero_based r = (if r = 0 then None else Some (unat (r - 1)))"

record block_id =
  bid_container :: container_id
  bid_local :: local_id
  bid_replica :: replica_index

definition block_id_non_ec :: "container_id \<Rightarrow> local_id \<Rightarrow> block_id" where
  "block_id_non_ec c l = \<lparr>bid_container = c, bid_local = l, bid_replica = NON_EC\<rparr>"

definition block_id_ec :: "container_id \<Rightarrow> local_id \<Rightarrow> replica_index \<Rightarrow> block_id" where
  "block_id_ec c l r = \<lparr>bid_container = c, bid_local = l, bid_replica = r\<rparr>"

definition block_id_display :: "block_id \<Rightarrow> string" where
  "block_id_display b =
     u64_to_string (bid_container b) @ ''/'' @ u64_to_string (bid_local b) @ ''#'' @
     u8_to_string (bid_replica b)"

section \<open>Erasure-coding configuration (lib.rs)\<close>

datatype ec_codec = Rs

definition ec_codec_to_string :: "ec_codec \<Rightarrow> string" where
  "ec_codec_to_string c = (case c of Rs \<Rightarrow> ''RS'')"

definition ascii_lower :: "char \<Rightarrow> char" where
  "ascii_lower c = (let n = of_char c :: nat in if 65 \<le> n \<and> n \<le> 90 then char_of (n + 32) else c)"

definition eq_ignore_ascii_case :: "string \<Rightarrow> string \<Rightarrow> bool" where
  "eq_ignore_ascii_case s t \<longleftrightarrow> map ascii_lower s = map ascii_lower t"

datatype unknown_codec = UnknownCodec string

definition ec_codec_from_str :: "string \<Rightarrow> (unknown_codec, ec_codec) result" where
  "ec_codec_from_str s = (if eq_ignore_ascii_case s ''rs'' then Ok Rs else Err (UnknownCodec s))"

record ec_replication_config =
  ec_data :: u8
  ec_parity :: u8
  ec_chunk_size :: u32
  ec_codec :: ec_codec

datatype ec_config_error =
    EcData u8
  | EcParity u8
  | EcChunkSize
  | EcReplicaSlot u8 u16

definition ec_rs :: "u8 \<Rightarrow> u8 \<Rightarrow> u32 \<Rightarrow> ec_replication_config" where
  "ec_rs d p c = \<lparr>ec_data = d, ec_parity = p, ec_chunk_size = c, ec_codec = Rs\<rparr>"

definition RS_3_2_1MIB :: ec_replication_config where
  "RS_3_2_1MIB = ec_rs 3 2 (1024 * 1024)"

definition RS_6_3_1MIB :: ec_replication_config where
  "RS_6_3_1MIB = ec_rs 6 3 (1024 * 1024)"

definition RS_10_4_1MIB :: ec_replication_config where
  "RS_10_4_1MIB = ec_rs 10 4 (1024 * 1024)"

definition ec_validate :: "ec_replication_config \<Rightarrow> (ec_config_error, unit) result" where
  "ec_validate cfg =
     (if ec_data cfg = 0 \<or> ec_data cfg > 32 then Err (EcData (ec_data cfg))
      else if ec_parity cfg = 0 \<or> ec_parity cfg > 32 then Err (EcParity (ec_parity cfg))
      else if ec_chunk_size cfg = 0 then Err EcChunkSize
      else Ok ())"

definition ec_new ::
    "u8 \<Rightarrow> u8 \<Rightarrow> u32 \<Rightarrow> ec_codec \<Rightarrow> (ec_config_error, ec_replication_config) result" where
  "ec_new d p c codec =
     (let cfg = \<lparr>ec_data = d, ec_parity = p, ec_chunk_size = c, ec_codec = codec\<rparr>
      in rbind (ec_validate cfg) (\<lambda>_. Ok cfg))"

definition ec_total :: "ec_replication_config \<Rightarrow> u16" where
  "ec_total cfg = ucast (ec_data cfg) + ucast (ec_parity cfg)"

definition ec_stripe_size :: "ec_replication_config \<Rightarrow> u64" where
  "ec_stripe_size cfg = ucast (ec_data cfg) * ucast (ec_chunk_size cfg)"

definition is_data :: "ec_replication_config \<Rightarrow> replica_index \<Rightarrow> bool" where
  "is_data cfg idx = (let s = ucast idx :: u16 in s \<ge> 1 \<and> s \<le> ucast (ec_data cfg))"

definition is_parity :: "ec_replication_config \<Rightarrow> replica_index \<Rightarrow> bool" where
  "is_parity cfg idx = (let s = ucast idx :: u16 in s > ucast (ec_data cfg) \<and> s \<le> ec_total cfg)"

definition ec_replica_index ::
    "ec_replication_config \<Rightarrow> u8 \<Rightarrow> (ec_config_error, replica_index) result" where
  "ec_replica_index cfg slot =
     (let s = ucast slot :: u16
      in if s \<ge> 1 \<and> s \<le> ec_total cfg then Ok slot else Err (EcReplicaSlot slot (ec_total cfg)))"

section \<open>Checksums, chunks and blocks (lib.rs, chunk.rs)\<close>

datatype checksum_type = ChecksumNone | Crc32 | Crc32c | Sha256 | Md5

record checksum_data =
  cd_type :: checksum_type
  cd_bytes_per_checksum :: u32
  cd_checksums :: "bytes list"

definition checksum_data_none :: checksum_data where
  "checksum_data_none = \<lparr>cd_type = ChecksumNone, cd_bytes_per_checksum = 0, cd_checksums = []\<rparr>"

record stripe_checksum =
  sc_per_stripe_checksums :: "bytes list"

record chunk_info =
  ci_chunk_name :: string
  ci_offset :: u64
  ci_len :: u64
  ci_checksum_data :: "checksum_data option"
  ci_stripe_checksum :: "stripe_checksum option"

definition BLOCK_GROUP_LEN_KEY :: string where
  "BLOCK_GROUP_LEN_KEY = ''blockGroupLen''"

record block_data =
  bd_block_id :: block_id
  bd_chunks :: "chunk_info list"
  bd_metadata :: "(string, string) btree_map"

definition block_data_new :: "block_id \<Rightarrow> block_data" where
  "block_data_new b = \<lparr>bd_block_id = b, bd_chunks = [], bd_metadata = []\<rparr>"

definition block_data_len :: "block_data \<Rightarrow> u64" where
  "block_data_len bd = sum_list (map ci_len (bd_chunks bd))"

definition block_data_is_empty :: "block_data \<Rightarrow> bool" where
  "block_data_is_empty bd \<longleftrightarrow> bd_chunks bd = []"

definition parse_u64 :: "string \<Rightarrow> u64 option" where
  "parse_u64 s = map_option of_nat (parse_unsigned 10 (2 ^ 64 - 1) s)"

definition block_group_len :: "block_data \<Rightarrow> u64 option" where
  "block_group_len bd = Option.bind (map_of (bd_metadata bd) BLOCK_GROUP_LEN_KEY) parse_u64"

definition set_block_group_len :: "block_data \<Rightarrow> u64 \<Rightarrow> block_data" where
  "set_block_group_len bd n =
     bd\<lparr>bd_metadata := btree_insert BLOCK_GROUP_LEN_KEY (u64_to_string n) (bd_metadata bd)\<rparr>"

section \<open>Containers (container.rs)\<close>

datatype container_state = Open | Closing | QuasiClosed | Closed | Unhealthy | Deleted

definition is_writable :: "container_state \<Rightarrow> bool" where
  "is_writable s = (case s of Open \<Rightarrow> True | _ \<Rightarrow> False)"

definition is_final :: "container_state \<Rightarrow> bool" where
  "is_final s = (case s of Closed \<Rightarrow> True | Deleted \<Rightarrow> True | _ \<Rightarrow> False)"

record container_info =
  cinfo_container_id :: container_id
  cinfo_state :: container_state
  cinfo_used_bytes :: u64
  cinfo_block_count :: u64
  cinfo_ec_config :: "ec_replication_config option"

definition container_info_new_open :: "container_id \<Rightarrow> ec_replication_config \<Rightarrow> container_info" where
  "container_info_new_open c ec =
     \<lparr>cinfo_container_id = c, cinfo_state = Open, cinfo_used_bytes = 0, cinfo_block_count = 0,
      cinfo_ec_config = Some ec\<rparr>"

section \<open>Lemmas\<close>

text \<open>The invariant \<open>lib.rs\<close> documents for every validated configuration.\<close>

definition ec_ok :: "ec_replication_config \<Rightarrow> bool" where
  "ec_ok cfg \<longleftrightarrow> 1 \<le> unat (ec_data cfg) \<and> unat (ec_data cfg) \<le> 32 \<and>
     1 \<le> unat (ec_parity cfg) \<and> unat (ec_parity cfg) \<le> 32 \<and> 0 < unat (ec_chunk_size cfg)"

lemma block_id_ec_simps [simp]:
  "bid_container (block_id_ec c l r) = c" "bid_local (block_id_ec c l r) = l"
  "bid_replica (block_id_ec c l r) = r"
  "block_id_ec (bid_container b) (bid_local b) (bid_replica b) = b"
  "block_id_ec c l r = block_id_ec c' l' r' \<longleftrightarrow> c = c' \<and> l = l' \<and> r = r'"
  by (simp_all add: block_id_ec_def)

lemma u8_range_iff: "(w = 0 \<or> w > 32) \<longleftrightarrow> \<not> (1 \<le> unat w \<and> unat w \<le> 32)" for w :: u8
proof -
  have "w > 32 \<longleftrightarrow> 32 < unat w"
    by (simp add: word_less_nat_alt)
  moreover have "w = 0 \<longleftrightarrow> \<not> 1 \<le> unat w"
    using unat_word_inject [of w 0] by (simp del: unat_word_inject) linarith
  ultimately show ?thesis by auto
qed

lemma ec_validate_Ok_iff: "ec_validate cfg = Ok () \<longleftrightarrow> ec_ok cfg"
  unfolding ec_validate_def u8_range_iff ec_ok_def
  by (auto simp: unat_gt_0)

lemma ec_new_eq_Ok:
  "ec_new d p c codec = Ok cfg \<longleftrightarrow>
     cfg = \<lparr>ec_data = d, ec_parity = p, ec_chunk_size = c, ec_codec = codec\<rparr> \<and> ec_ok cfg"
  by (auto simp: ec_new_def Let_def res_simps simp flip: ec_validate_Ok_iff)

lemma ec_validate_not_Panic [simp]: "ec_validate cfg \<noteq> Panic"
  by (simp add: ec_validate_def)

lemma unat_ec_total: "unat (ec_total cfg) = unat (ec_data cfg) + unat (ec_parity cfg)"
proof -
  have "unat (ec_data cfg) < 256" "unat (ec_parity cfg) < 256"
    using unsigned_less [of "ec_data cfg"] unsigned_less [of "ec_parity cfg"] by simp_all
  then show ?thesis
    by (simp add: ec_total_def unat_word_ariths unat_ucast_up)
qed

lemma unat_ec_stripe_size:
  "unat (ec_stripe_size cfg) = unat (ec_data cfg) * unat (ec_chunk_size cfg)"
proof -
  have "unat (ec_data cfg) < 2 ^ 8" "unat (ec_chunk_size cfg) < 2 ^ 32"
    using unsigned_less [of "ec_data cfg"] unsigned_less [of "ec_chunk_size cfg"] by simp_all
  then have "unat (ec_data cfg) * unat (ec_chunk_size cfg) < 2 ^ 8 * 2 ^ 32"
    by (rule mult_strict_mono') simp_all
  then show ?thesis
    by (simp add: ec_stripe_size_def unat_word_ariths unat_ucast_up)
qed

lemma is_data_iff: "is_data cfg idx \<longleftrightarrow> 1 \<le> unat idx \<and> unat idx \<le> unat (ec_data cfg)"
  by (simp add: is_data_def Let_def word_le_nat_alt unat_ucast_up)

lemma is_parity_iff:
  "is_parity cfg idx \<longleftrightarrow>
     unat (ec_data cfg) < unat idx \<and> unat idx \<le> unat (ec_data cfg) + unat (ec_parity cfg)"
  by (simp add: is_parity_def Let_def word_le_nat_alt word_less_nat_alt unat_ucast_up
      unat_ec_total)

lemma ec_replica_index_eq_Ok:
  "ec_replica_index cfg s = Ok r \<longleftrightarrow>
     r = s \<and> 1 \<le> unat s \<and> unat s \<le> unat (ec_data cfg) + unat (ec_parity cfg)"
  by (auto simp: ec_replica_index_def Let_def word_le_nat_alt unat_ucast_up unat_ec_total)

lemma zero_based_eq_Some: "zero_based r = Some i \<longleftrightarrow> unat r = Suc i"
proof (cases "r = 0")
  case False
  then have "unat (r - 1) = unat r - 1"
    by (simp add: unat_minus_one)
  moreover have "0 < unat r"
    using False by (simp add: unat_gt_0)
  ultimately show ?thesis
    using False by (auto simp: zero_based_def)
qed (simp add: zero_based_def)

lemma parse_u64_to_string [simp]: "parse_u64 (u64_to_string n) = Some n"
proof -
  have "unat n \<le> 2 ^ 64 - 1"
    using unsigned_less [of n, where 'a = nat] by simp
  then show ?thesis
    by (simp add: parse_u64_def u64_to_string_def parse_nat_to_dec)
qed

lemma block_group_len_set [simp]: "block_group_len (set_block_group_len bd n) = Some n"
  by (simp add: block_group_len_def set_block_group_len_def)

lemma bd_set_block_group_len [simp]:
  "bd_chunks (set_block_group_len bd n) = bd_chunks bd"
  "bd_block_id (set_block_group_len bd n) = bd_block_id bd"
  by (simp_all add: set_block_group_len_def)

lemma ec_codec_roundtrip [simp]: "ec_codec_from_str (ec_codec_to_string c) = Ok c"
proof (cases c)
  case Rs
  have "ec_codec_from_str (ec_codec_to_string Rs) = Ok Rs"
    by code_simp
  with Rs show ?thesis by simp
qed

lemma ec_codec_from_str_not_Panic [simp]: "ec_codec_from_str s \<noteq> Panic"
  by (simp add: ec_codec_from_str_def)

lemma nat_to_dec_inject: "nat_to_dec m = nat_to_dec n \<longleftrightarrow> m = n"
proof
  assume eq: "nat_to_dec m = nat_to_dec n"
  have "Some m = parse_unsigned 10 (max m n) (nat_to_dec m)"
    by (rule parse_nat_to_dec [symmetric]) simp
  also have "\<dots> = parse_unsigned 10 (max m n) (nat_to_dec n)"
    by (simp only: eq)
  also have "\<dots> = Some n"
    by (rule parse_nat_to_dec) simp
  finally show "m = n" by simp
qed simp

lemma u64_to_string_inject [simp]: "u64_to_string a = u64_to_string b \<longleftrightarrow> a = b"
  by (simp add: u64_to_string_def nat_to_dec_inject)

lemma u8_to_string_inject [simp]: "u8_to_string a = u8_to_string b \<longleftrightarrow> a = b"
  by (simp add: u8_to_string_def nat_to_dec_inject)

text \<open>Splitting at the first occurrence of a separator neither prefix contains is unambiguous.\<close>

lemma append_sep_inject:
  "x \<notin> set a \<Longrightarrow> x \<notin> set b \<Longrightarrow> a @ x # c = b @ x # d \<longleftrightarrow> a = b \<and> c = d"
proof (induction a arbitrary: b)
  case Nil
  then show ?case by (cases b) auto
next
  case (Cons y a)
  then show ?case by (cases b) auto
qed

lemma u64_to_string_notin:
  "of_char c < (48::nat) \<or> (57::nat) < of_char c \<Longrightarrow> c \<notin> set (u64_to_string w)"
  unfolding u64_to_string_def by (rule nat_to_dec_notin)

lemma u8_to_string_notin:
  "of_char c < (48::nat) \<or> (57::nat) < of_char c \<Longrightarrow> c \<notin> set (u8_to_string w)"
  unfolding u8_to_string_def by (rule nat_to_dec_notin)

lemma block_id_display_inject: "block_id_display a = block_id_display b \<longleftrightarrow> a = b"
proof
  assume eq: "block_id_display a = block_id_display b"
  have nin: "CHR ''/'' \<notin> set (u64_to_string w)" "CHR ''#'' \<notin> set (u64_to_string w)" for w
    by (simp_all add: u64_to_string_notin)
  have "bid_container a = bid_container b \<and> bid_local a = bid_local b \<and> bid_replica a = bid_replica b"
    using eq by (simp add: block_id_display_def append_sep_inject [OF nin(1) nin(1)]
        append_sep_inject [OF nin(2) nin(2)])
  then show "a = b" by simp
qed simp

end
