(* ===== verification/Checksum.thy ===== *)
theory Checksum
  imports Ozone_Types
begin

text \<open>
  \<open>crates/ozone-storage/src/error.rs\<close> and \<open>checksum.rs\<close>: the error types of the storage layer
  and the windowed chunk checksum. The CRC32C function is a third-party crate and is the
  argument \<open>crc\<close> of the operations. I/O errors and messages are strings.
\<close>

section \<open>Errors (error.rs)\<close>

datatype checksum_error =
    Mismatch nat
  | CountMismatch nat nat
  | Unsupported checksum_type

datatype storage_error =
    Io string
  | ChecksumErr checksum_error
  | ContainerNotFound container_id
  | ContainerExists container_id
  | ContainerNotOpen container_id container_state
  | BlockNotFound block_id
  | Meta string
  | Corrupt string

section \<open>Checksums (checksum.rs)\<close>

definition be_bytes32 :: "u32 \<Rightarrow> bytes" where
  "be_bytes32 w = map (\<lambda>i. ucast (drop_bit (8 * (3 - i)) w)) [0..<4]"

definition window_size :: "u32 \<Rightarrow> nat" where
  "window_size bytes_per_checksum = unat (max bytes_per_checksum 1)"

definition window_count :: "nat \<Rightarrow> u32 \<Rightarrow> nat" where
  "window_count len bytes_per_checksum = div_ceil len (window_size bytes_per_checksum)"

definition compute ::
    "(bytes \<Rightarrow> u32) \<Rightarrow> bytes \<Rightarrow> u32 \<Rightarrow> checksum_type \<Rightarrow> (checksum_error, checksum_data) result" where
  "compute crc data bytes_per_checksum checksum_type =
     (case checksum_type of
        ChecksumNone \<Rightarrow> Ok checksum_data_none
      | Crc32c \<Rightarrow>
          let bpc = window_size bytes_per_checksum;
              checksums = map (\<lambda>window. be_bytes32 (crc window)) (chunks bpc data)
          in Ok \<lparr>cd_type = checksum_type, cd_bytes_per_checksum = bytes_per_checksum,
                 cd_checksums = checksums\<rparr>
      | other \<Rightarrow> Err (Unsupported other))"

definition verify_window ::
    "(bytes \<Rightarrow> u32) \<Rightarrow> bytes list \<Rightarrow> nat \<times> bytes \<Rightarrow> unit \<Rightarrow> (checksum_error, unit) result" where
  "verify_window crc checksums wb _ =
     (case wb of (window, bytes) \<Rightarrow>
      rbind (index checksums window) (\<lambda>expected.
      if expected \<noteq> be_bytes32 (crc bytes) then Err (Mismatch window) else Ok ()))"

definition verify :: "(bytes \<Rightarrow> u32) \<Rightarrow> bytes \<Rightarrow> checksum_data \<Rightarrow> (checksum_error, unit) result" where
  "verify crc data cd =
     (case cd_type cd of
        ChecksumNone \<Rightarrow> Ok ()
      | Crc32c \<Rightarrow>
          let expected_windows = window_count (length data) (cd_bytes_per_checksum cd) in
          if length (cd_checksums cd) \<noteq> expected_windows
          then Err (CountMismatch expected_windows (length (cd_checksums cd)))
          else
            let bpc = window_size (cd_bytes_per_checksum cd)
            in rfold (verify_window crc (cd_checksums cd)) (enumerate 0 (chunks bpc data)) ()
      | other \<Rightarrow> Err (Unsupported other))"

section \<open>Lemmas\<close>

lemma be_bytes32_inject [simp]: "be_bytes32 a = be_bytes32 b \<longleftrightarrow> a = b"
proof
  assume "be_bytes32 a = be_bytes32 b"
  then have eq: "(ucast (drop_bit (8 * (3 - i)) a) :: u8) = ucast (drop_bit (8 * (3 - i)) b)" if "i < 4" for i
    using that by (simp add: be_bytes32_def)
  have "bit a n = bit b n" if "n < 32" for n
  proof -
    let ?i = "3 - n div 8"
    have "8 * (3 - ?i) + n mod 8 = n" using that by (simp add: div_less_iff_less_mult)
    moreover have "bit (ucast (drop_bit (8 * (3 - ?i)) a) :: u8) (n mod 8) = bit (ucast (drop_bit (8 * (3 - ?i)) b) :: u8) (n mod 8)"
      using eq [of ?i] by simp
    ultimately show ?thesis by (simp add: bit_ucast_iff bit_drop_bit_eq)
  qed
  then show "a = b" by (intro bit_word_eqI) simp
qed simp

lemma window_size_pos [simp]: "0 < window_size bpc"
proof -
  have "max bpc 1 \<noteq> 0" by (auto simp: max_def)
  then show ?thesis unfolding window_size_def by (simp add: unat_gt_0)
qed

lemma length_windows: "length (chunks (window_size bpc) data) = window_count (length data) bpc"
  by (simp add: window_count_def length_chunks)

text \<open>
  The verification loop stops at the first window whose digest differs, and never runs past
  the digests: \<open>find\<close> over the window numbers is its specification.
\<close>

lemma rfold_verify:
  assumes "length ws + a \<le> length cs"
  shows "rfold (verify_window crc cs) (enumerate a ws) () =
    (case find (\<lambda>(w, b). cs ! w \<noteq> be_bytes32 (crc b)) (enumerate a ws) of
       None \<Rightarrow> Ok () | Some (w, b) \<Rightarrow> Err (Mismatch w))"
  using assms
proof (induction ws arbitrary: a)
  case (Cons w ws)
  have "verify_window crc cs (a, w) () = (if cs ! a \<noteq> be_bytes32 (crc w) then Err (Mismatch a) else Ok ())"
    using Cons.prems by (simp add: verify_window_def index_def)
  with Cons show ?case by simp
qed simp

lemma verify_Crc32c:
  assumes "cd_type cd = Crc32c"
  shows "verify crc data cd =
    (if length (cd_checksums cd) \<noteq> window_count (length data) (cd_bytes_per_checksum cd)
     then Err (CountMismatch (window_count (length data) (cd_bytes_per_checksum cd)) (length (cd_checksums cd)))
     else case find (\<lambda>(w, b). cd_checksums cd ! w \<noteq> be_bytes32 (crc b))
                  (enumerate 0 (chunks (window_size (cd_bytes_per_checksum cd)) data)) of
            None \<Rightarrow> Ok () | Some (w, b) \<Rightarrow> Err (Mismatch w))"
  using assms
  by (simp add: verify_def Let_def rfold_verify length_windows split: option.splits)

lemma verify_not_Panic [simp]: "verify crc data cd \<noteq> Panic"
proof (cases "cd_type cd = Crc32c")
  case True
  then show ?thesis by (auto simp: verify_Crc32c split: option.splits)
next
  case False
  then show ?thesis by (cases "cd_type cd") (auto simp: verify_def)
qed

lemma compute_not_Panic [simp]: "compute crc data bpc ty \<noteq> Panic"
  by (cases ty) (simp_all add: compute_def Let_def)

lemma verify_computed_windows:
  assumes "compute crc d bpc Crc32c = Ok cd"
  shows "verify crc d' cd =
    (let n = window_count (length d) bpc; n' = window_count (length d') bpc;
         w = chunks (window_size bpc) d; w' = chunks (window_size bpc) d'
     in if n \<noteq> n' then Err (CountMismatch n' n)
        else case find (\<lambda>i. crc (w ! i) \<noteq> crc (w' ! i)) [0..<n] of
               None \<Rightarrow> Ok () | Some i \<Rightarrow> Err (Mismatch i))"
proof -
  let ?w = "chunks (window_size bpc) d" and ?w' = "chunks (window_size bpc) d'"
  let ?cs = "map (\<lambda>w. be_bytes32 (crc w)) ?w"
  have cd: "cd = \<lparr>cd_type = Crc32c, cd_bytes_per_checksum = bpc, cd_checksums = ?cs\<rparr>"
    using assms by (simp add: compute_def Let_def)
  have "find (\<lambda>(w, b). ?cs ! w \<noteq> be_bytes32 (crc b)) (enumerate 0 ?w') =
      map_option (\<lambda>i. (i, ?w' ! i)) (find (\<lambda>i. crc (?w ! i) \<noteq> crc (?w' ! i)) [0..<length ?w'])"
    if "length ?w = length ?w'"
  proof -
    have "find (\<lambda>i. ?cs ! i \<noteq> be_bytes32 (crc (?w' ! i))) [0..<length ?w'] =
        find (\<lambda>i. crc (?w ! i) \<noteq> crc (?w' ! i)) [0..<length ?w']"
      using that by (intro find_cong_set) simp
    then show ?thesis by (simp add: enumerate_eq_map find_map)
  qed
  then show ?thesis
    by (auto simp: verify_Crc32c cd length_windows Let_def split: option.splits)
qed

lemma verify_compute:
  assumes "compute crc data bpc ty = Ok cd"
  shows "verify crc data cd = Ok ()"
proof (cases ty)
  case Crc32c
  then have "compute crc data bpc Crc32c = Ok cd" using assms by simp
  moreover have "find (\<lambda>_. False) xs = None" for xs :: "nat list"
    by (simp add: find_None_iff)
  ultimately show ?thesis by (simp add: verify_computed_windows)
qed (use assms in \<open>auto simp: compute_def verify_def checksum_data_none_def\<close>)

section \<open>Correctness\<close>

text \<open>
  C5. The windowed checksum. Data that was checksummed verifies; for any bytes \<open>d'\<close> the
  outcome is decided by the windows alone: the number of windows if it differs, and otherwise
  the first window whose CRC differs from the original's. Verification never panics.
\<close>

theorem verify_computed:
  assumes "compute crc d bpc Crc32c = Ok cd"
  shows "verify crc d cd = Ok () \<and> verify crc d' cd =
    (let n = window_count (length d) bpc; n' = window_count (length d') bpc;
         w = chunks (window_size bpc) d; w' = chunks (window_size bpc) d'
     in if n \<noteq> n' then Err (CountMismatch n' n)
        else case find (\<lambda>i. crc (w ! i) \<noteq> crc (w' ! i)) [0..<n] of
               None \<Rightarrow> Ok () | Some i \<Rightarrow> Err (Mismatch i))"
  using verify_compute [OF assms] verify_computed_windows [OF assms] by blast

text \<open>A toy digest for concrete inputs: the sum of the bytes.\<close>

definition sum_digest :: "bytes \<Rightarrow> u32" where
  "sum_digest bs = foldl (\<lambda>acc b. acc + ucast b) 0 bs"

theorem verify_computed_witness:
  "\<exists>cd. compute sum_digest [1, 2, 3, 4, 5] 2 Crc32c = Ok cd \<and>
     verify sum_digest [1, 2, 3, 4, 5] cd = Ok () \<and>
     verify sum_digest [1, 2, 9, 4, 5] cd = Err (Mismatch 1)"
proof -
  obtain cd where cd: "compute sum_digest [1, 2, 3, 4, 5] 2 Crc32c = Ok cd"
    by (simp add: compute_def Let_def)
  have eq: "(let n = window_count (length [1, 2, 3, 4, 5 :: u8]) 2; n' = window_count (length [1, 2, 9, 4, 5 :: u8]) 2;
         w = chunks (window_size 2) [1, 2, 3, 4, 5]; w' = chunks (window_size 2) [1, 2, 9, 4, 5]
     in if n \<noteq> n' then Err (CountMismatch n' n)
        else case find (\<lambda>i. sum_digest (w ! i) \<noteq> sum_digest (w' ! i)) [0..<n] of
               None \<Rightarrow> Ok () | Some i \<Rightarrow> Err (Mismatch i)) = Err (Mismatch 1)"
    by code_simp
  note v = verify_computed [OF cd, of "[1, 2, 9, 4, 5]"]
  have "verify sum_digest [1, 2, 9, 4, 5] cd = Err (Mismatch 1)"
    by (rule trans [OF conjunct2 [OF v] eq])
  with cd conjunct1 [OF v] show ?thesis by blast
qed

end
