(* ===== verification/Wire_Conv.thy ===== *)
theory Wire_Conv
  imports Checksum "HOL-Library.Multiset"
begin

text \<open>
  \<open>crates/ozone-grpc-types/src/conv.rs\<close>: conversions between the datanode protocol's messages
  (\<open>proto/datanode_gateway_v1.proto\<close>) and the domain types. Encoding is total; decoding validates
  what came from the network. A protobuf enum field is an i32, a map field a hash map, whose
  entries come in no particular order.
\<close>

type_synonym i32 = "32 word"

section \<open>Messages\<close>

record wire_container_id =
  wc_id :: u64

record wire_block_id =
  wb_container_id :: u64
  wb_local_id :: u64
  wb_replica_index :: u32

datatype wire_checksum_type = WUnspecified | WCrc32 | WCrc32c | WSha256 | WMd5 | WNone

record wire_checksum_data =
  wcd_type :: i32
  wcd_bytes_per_checksum :: u32
  wcd_checksums :: "bytes list"

record wire_stripe_checksum =
  wsc_per_stripe_checksums :: "bytes list"

record wire_chunk_info =
  wci_chunk_name :: string
  wci_offset :: u64
  wci_len :: u64
  wci_checksum_data :: "wire_checksum_data option"
  wci_stripe_checksum :: "wire_stripe_checksum option"

record wire_block_data =
  wbd_block_id :: "wire_block_id option"
  wbd_chunks :: "wire_chunk_info list"
  wbd_metadata :: "(string \<times> string) list"

record wire_ec_config =
  we_data :: u32
  we_parity :: u32
  we_ec_chunk_size :: u32
  we_codec :: string

datatype wire_state = SUnspecified | SOpen | SClosing | SQuasiClosed | SClosed | SUnhealthy | SDeleted

definition wire_checksum_types :: "wire_checksum_type list" where
  "wire_checksum_types = [WUnspecified, WCrc32, WCrc32c, WSha256, WMd5, WNone]"

definition wire_states :: "wire_state list" where
  "wire_states = [SUnspecified, SOpen, SClosing, SQuasiClosed, SClosed, SUnhealthy, SDeleted]"

text \<open>\<open>as i32\<close> and \<open>TryFrom<i32>\<close> of a generated enum: positions in the proto's enumeration.\<close>

primrec checksum_type_code :: "wire_checksum_type \<Rightarrow> i32" where
  "checksum_type_code WUnspecified = 0"
| "checksum_type_code WCrc32 = 1"
| "checksum_type_code WCrc32c = 2"
| "checksum_type_code WSha256 = 3"
| "checksum_type_code WMd5 = 4"
| "checksum_type_code WNone = 5"

primrec wire_state_code :: "wire_state \<Rightarrow> i32" where
  "wire_state_code SUnspecified = 0"
| "wire_state_code SOpen = 1"
| "wire_state_code SClosing = 2"
| "wire_state_code SQuasiClosed = 3"
| "wire_state_code SClosed = 4"
| "wire_state_code SUnhealthy = 5"
| "wire_state_code SDeleted = 6"

definition checksum_type_of_code :: "i32 \<Rightarrow> wire_checksum_type option" where
  "checksum_type_of_code v = find (\<lambda>t. checksum_type_code t = v) wire_checksum_types"

definition wire_state_of_code :: "i32 \<Rightarrow> wire_state option" where
  "wire_state_of_code v = find (\<lambda>s. wire_state_code s = v) wire_states"

section \<open>Conversions\<close>

datatype conversion_error =
    MissingField string
  | BadEnum string i32
  | OutOfRange string u32
  | EcConfig ec_config_error
  | Codec string

definition container_id_to_wire :: "container_id \<Rightarrow> wire_container_id" where
  "container_id_to_wire d = \<lparr>wc_id = d\<rparr>"

definition container_id_from_wire :: "wire_container_id \<Rightarrow> container_id" where
  "container_id_from_wire w = wc_id w"

text \<open>\<open>u8::try_from(u32)\<close>.\<close>

definition u8_try_from :: "u32 \<Rightarrow> u8 option" where
  "u8_try_from w = (if unat w \<le> 255 then Some (ucast w) else None)"

definition block_id_to_wire :: "block_id \<Rightarrow> wire_block_id" where
  "block_id_to_wire d =
     \<lparr>wb_container_id = bid_container d, wb_local_id = bid_local d, wb_replica_index = ucast (bid_replica d)\<rparr>"

definition block_id_from_wire :: "wire_block_id \<Rightarrow> (conversion_error, block_id) result" where
  "block_id_from_wire w =
     rbind (ok_or (u8_try_from (wb_replica_index w)) (OutOfRange ''BlockId.replica_index'' (wb_replica_index w)))
       (\<lambda>replica. Ok \<lparr>bid_container = wb_container_id w, bid_local = wb_local_id w, bid_replica = replica\<rparr>)"

definition ec_to_wire :: "ec_replication_config \<Rightarrow> wire_ec_config" where
  "ec_to_wire d =
     \<lparr>we_data = ucast (ec_data d), we_parity = ucast (ec_parity d), we_ec_chunk_size = ec_chunk_size d,
      we_codec = ec_codec_to_string (ec_codec d)\<rparr>"

definition ec_from_wire :: "wire_ec_config \<Rightarrow> (conversion_error, ec_replication_config) result" where
  "ec_from_wire w =
     rbind (map_err (\<lambda>_. Codec (we_codec w)) (ec_codec_from_str (we_codec w))) (\<lambda>codec.
     rbind (ok_or (u8_try_from (we_data w)) (OutOfRange ''EcReplicationConfig.data'' (we_data w))) (\<lambda>data.
     rbind (ok_or (u8_try_from (we_parity w)) (OutOfRange ''EcReplicationConfig.parity'' (we_parity w))) (\<lambda>parity.
     map_err EcConfig (ec_new data parity (we_ec_chunk_size w) codec))))"

primrec checksum_type_to_wire :: "checksum_type \<Rightarrow> wire_checksum_type" where
  "checksum_type_to_wire ChecksumNone = WNone"
| "checksum_type_to_wire Crc32 = WCrc32"
| "checksum_type_to_wire Crc32c = WCrc32c"
| "checksum_type_to_wire Sha256 = WSha256"
| "checksum_type_to_wire Md5 = WMd5"

primrec checksum_type_from_wire :: "wire_checksum_type \<Rightarrow> (conversion_error, checksum_type) result" where
  "checksum_type_from_wire WNone = Ok ChecksumNone"
| "checksum_type_from_wire WCrc32 = Ok Crc32"
| "checksum_type_from_wire WCrc32c = Ok Crc32c"
| "checksum_type_from_wire WSha256 = Ok Sha256"
| "checksum_type_from_wire WMd5 = Ok Md5"
| "checksum_type_from_wire WUnspecified = Err (BadEnum ''ChecksumData.type'' (checksum_type_code WUnspecified))"

definition checksum_data_to_wire :: "checksum_data \<Rightarrow> wire_checksum_data" where
  "checksum_data_to_wire d =
     \<lparr>wcd_type = checksum_type_code (checksum_type_to_wire (cd_type d)),
      wcd_bytes_per_checksum = cd_bytes_per_checksum d, wcd_checksums = cd_checksums d\<rparr>"

definition checksum_data_from_wire :: "wire_checksum_data \<Rightarrow> (conversion_error, checksum_data) result" where
  "checksum_data_from_wire w =
     rbind (ok_or (checksum_type_of_code (wcd_type w)) (BadEnum ''ChecksumData.type'' (wcd_type w))) (\<lambda>wire_ty.
     rbind (checksum_type_from_wire wire_ty) (\<lambda>ty.
     Ok \<lparr>cd_type = ty, cd_bytes_per_checksum = wcd_bytes_per_checksum w, cd_checksums = wcd_checksums w\<rparr>))"

definition stripe_checksum_to_wire :: "stripe_checksum \<Rightarrow> wire_stripe_checksum" where
  "stripe_checksum_to_wire d = \<lparr>wsc_per_stripe_checksums = sc_per_stripe_checksums d\<rparr>"

definition stripe_checksum_from_wire :: "wire_stripe_checksum \<Rightarrow> stripe_checksum" where
  "stripe_checksum_from_wire w = \<lparr>sc_per_stripe_checksums = wsc_per_stripe_checksums w\<rparr>"

definition chunk_info_to_wire :: "chunk_info \<Rightarrow> wire_chunk_info" where
  "chunk_info_to_wire d =
     \<lparr>wci_chunk_name = ci_chunk_name d, wci_offset = ci_offset d, wci_len = ci_len d,
      wci_checksum_data = map_option checksum_data_to_wire (ci_checksum_data d),
      wci_stripe_checksum = map_option stripe_checksum_to_wire (ci_stripe_checksum d)\<rparr>"

text \<open>\<open>opt.map(TryInto::try_into).transpose()?\<close>.\<close>

definition ropt :: "('a \<Rightarrow> ('e, 'b) result) \<Rightarrow> 'a option \<Rightarrow> ('e, 'b option) result" where
  "ropt f x = (case x of None \<Rightarrow> Ok None | Some y \<Rightarrow> rbind (f y) (\<lambda>z. Ok (Some z)))"

definition chunk_info_from_wire :: "wire_chunk_info \<Rightarrow> (conversion_error, chunk_info) result" where
  "chunk_info_from_wire w =
     rbind (ropt checksum_data_from_wire (wci_checksum_data w)) (\<lambda>cd.
     Ok \<lparr>ci_chunk_name = wci_chunk_name w, ci_offset = wci_offset w, ci_len = wci_len w, ci_checksum_data = cd,
         ci_stripe_checksum = map_option stripe_checksum_from_wire (wci_stripe_checksum w)\<rparr>)"

definition block_data_to_wire :: "block_data \<Rightarrow> wire_block_data" where
  "block_data_to_wire d =
     \<lparr>wbd_block_id = Some (block_id_to_wire (bd_block_id d)),
      wbd_chunks = map chunk_info_to_wire (bd_chunks d), wbd_metadata = bd_metadata d\<rparr>"

text \<open>\<open>into_iter().collect::<BTreeMap<_, _>>()\<close>.\<close>

definition btree_collect :: "('k::linorder \<times> 'v) list \<Rightarrow> ('k, 'v) btree_map" where
  "btree_collect es = foldl (\<lambda>m (k, v). btree_insert k v m) [] es"

definition block_data_from_wire :: "wire_block_data \<Rightarrow> (conversion_error, block_data) result" where
  "block_data_from_wire w =
     rbind (ok_or (wbd_block_id w) (MissingField ''BlockData.block_id'')) (\<lambda>wid.
     rbind (block_id_from_wire wid) (\<lambda>block_id.
     rbind (rmap_list chunk_info_from_wire (wbd_chunks w)) (\<lambda>chunks.
     Ok \<lparr>bd_block_id = block_id, bd_chunks = chunks, bd_metadata = btree_collect (wbd_metadata w)\<rparr>)))"

primrec state_to_wire :: "container_state \<Rightarrow> wire_state" where
  "state_to_wire Open = SOpen"
| "state_to_wire Closing = SClosing"
| "state_to_wire QuasiClosed = SQuasiClosed"
| "state_to_wire Closed = SClosed"
| "state_to_wire Unhealthy = SUnhealthy"
| "state_to_wire Deleted = SDeleted"

primrec state_from_wire :: "wire_state \<Rightarrow> (conversion_error, container_state) result" where
  "state_from_wire SOpen = Ok Open"
| "state_from_wire SClosing = Ok Closing"
| "state_from_wire SQuasiClosed = Ok QuasiClosed"
| "state_from_wire SClosed = Ok Closed"
| "state_from_wire SUnhealthy = Ok Unhealthy"
| "state_from_wire SDeleted = Ok Deleted"
| "state_from_wire SUnspecified = Err (BadEnum ''ContainerState.state'' (wire_state_code SUnspecified))"

definition container_state_to_wire :: "container_state \<Rightarrow> i32" where
  "container_state_to_wire d = wire_state_code (state_to_wire d)"

definition container_state_from_wire :: "i32 \<Rightarrow> (conversion_error, container_state) result" where
  "container_state_from_wire v =
     rbind (ok_or (wire_state_of_code v) (BadEnum ''ContainerState.state'' v)) state_from_wire"

section \<open>Collecting map entries\<close>

lemma btree_wf_unique:
  assumes "btree_wf xs" "btree_wf ys" "map_of xs = map_of ys"
  shows "xs = ys"
proof -
  have d: "distinct (map fst xs)" "distinct (map fst ys)" "sorted (map fst xs)" "sorted (map fst ys)"
    using assms(1,2) by (simp_all add: btree_wf_def strict_sorted_iff)
  have "set xs = set ys"
    using d assms(3) by (metis map_of_inject_set)
  moreover have "inj_on fst (set xs \<union> set ys)"
    using d(1) calculation by (simp add: distinct_map)
  ultimately show ?thesis using d by (intro map_sorted_distinct_set_unique [of fst]) auto
qed

lemma foldl_btree_insert:
  "btree_wf m \<Longrightarrow> btree_wf (foldl (\<lambda>m (k, v). btree_insert k v m) m es)"
  "map_of (foldl (\<lambda>m (k, v). btree_insert k v m) m es) = map_of m ++ map_of (rev es)"
  by (induction es arbitrary: m) (auto simp: btree_wf_insert map_add_def fun_eq_iff split: option.splits)

lemma btree_collect_wf [simp]: "btree_wf (btree_collect es)"
  unfolding btree_collect_def by (rule foldl_btree_insert) (simp add: btree_wf_def)

lemma map_of_btree_collect: "distinct (map fst es) \<Longrightarrow> map_of (btree_collect es) = map_of es"
  unfolding btree_collect_def foldl_btree_insert(2)
  by (simp add: map_of_inject_set rev_map [symmetric])

text \<open>A sorted map comes back from its entries in whatever order the hash map yields them.\<close>

lemma btree_collect_perm:
  assumes "btree_wf m" "mset es = mset m"
  shows "btree_collect es = m"
proof (rule btree_wf_unique)
  have d: "distinct (map fst m)" using assms(1) by (simp add: btree_wf_def strict_sorted_iff)
  have "mset (map fst es) = mset (map fst m)" using assms(2) by simp
  then have d': "distinct (map fst es)" using d mset_eq_imp_distinct_iff by blast
  moreover have "set es = set m" using assms(2) by (rule mset_eq_setD)
  ultimately have "map_of es = map_of m" using d by (simp add: map_of_inject_set)
  with d' show "map_of (btree_collect es) = map_of m" by (simp add: map_of_btree_collect)
qed (use assms in simp_all)

section \<open>Round trips\<close>

lemma u8_try_from_ucast [simp]: "u8_try_from (ucast (w :: u8)) = Some w"
proof -
  have "unat (ucast w :: u32) = unat w" by (simp add: unat_ucast_up)
  moreover have "(ucast (ucast w :: u32) :: u8) = w" by (rule bit_word_eqI) (simp add: bit_simps)
  ultimately show ?thesis using unat_u8_less [of w] by (simp add: u8_try_from_def)
qed

lemma u8_try_from_eq_Some: "u8_try_from w = Some b \<longleftrightarrow> w = ucast b"
proof
  assume "u8_try_from w = Some b"
  then have "unat w \<le> 255" "b = ucast w" by (auto simp: u8_try_from_def split: if_splits)
  then have "unat b = unat w"
    by (simp add: unsigned_ucast_eq unsigned_take_bit_eq take_bit_nat_eq_self)
  then have "unat (ucast b :: u32) = unat w" using unat_ucast_up [of b, where 'b = 32] by simp
  then show "w = ucast b" by simp
qed simp

lemma checksum_type_code_roundtrip [simp]: "checksum_type_of_code (checksum_type_code t) = Some t"
  by (cases t) (simp_all add: checksum_type_of_code_def wire_checksum_types_def)

lemma wire_state_code_roundtrip [simp]: "wire_state_of_code (wire_state_code s) = Some s"
  by (cases s) (simp_all add: wire_state_of_code_def wire_states_def)

lemma checksum_type_of_code_Some: "checksum_type_of_code v = Some t \<longleftrightarrow> checksum_type_code t = v"
  by (auto simp: checksum_type_of_code_def find_Some_iff) (metis checksum_type_code_roundtrip checksum_type_of_code_def find_Some_iff)

lemma wire_state_of_code_Some: "wire_state_of_code v = Some s \<longleftrightarrow> wire_state_code s = v"
  by (auto simp: wire_state_of_code_def find_Some_iff) (metis wire_state_code_roundtrip wire_state_of_code_def find_Some_iff)

lemma checksum_type_from_wire_eq_Ok: "checksum_type_from_wire w = Ok t \<longleftrightarrow> w = checksum_type_to_wire t"
  by (cases w; cases t) simp_all

lemma state_from_wire_eq_Ok: "state_from_wire w = Ok s \<longleftrightarrow> w = state_to_wire s"
  by (cases w; cases s) simp_all

lemma block_id_from_wire_eq_Ok: "block_id_from_wire w = Ok b \<longleftrightarrow> w = block_id_to_wire b"
  by (cases w; cases b) (auto simp: block_id_from_wire_def block_id_to_wire_def res_simps u8_try_from_eq_Some)

lemma checksum_data_from_wire_eq_Ok: "checksum_data_from_wire w = Ok d \<longleftrightarrow> w = checksum_data_to_wire d"
  by (cases w; cases d)
    (auto simp: checksum_data_from_wire_def checksum_data_to_wire_def res_simps
      checksum_type_of_code_Some checksum_type_from_wire_eq_Ok)

lemma stripe_checksum_inverse [simp]:
  "stripe_checksum_from_wire (stripe_checksum_to_wire d) = d"
  "stripe_checksum_to_wire (stripe_checksum_from_wire w) = w"
  by (simp_all add: stripe_checksum_from_wire_def stripe_checksum_to_wire_def)

text \<open>Decoding whose successes are the encodings, lifted to options and lists.\<close>

lemma ropt_inverse:
  assumes "\<And>a b. f a = Ok b \<longleftrightarrow> a = g b"
  shows "ropt f x = Ok y \<longleftrightarrow> x = map_option g y"
  by (cases x; cases y) (auto simp: ropt_def res_simps assms)

lemma rmap_list_inverse:
  assumes "\<And>a b. f a = Ok b \<longleftrightarrow> a = g b"
  shows "rmap_list f xs = Ok ys \<longleftrightarrow> xs = map g ys"
  by (induction xs arbitrary: ys) (auto simp: res_simps assms Cons_eq_map_conv)

lemma chunk_info_from_wire_eq_Ok: "chunk_info_from_wire w = Ok d \<longleftrightarrow> w = chunk_info_to_wire d"
  by (cases w; cases d)
    (auto simp: chunk_info_from_wire_def chunk_info_to_wire_def res_simps
      ropt_inverse [OF checksum_data_from_wire_eq_Ok] option.map_comp o_def option.map_ident)

lemma block_data_from_wire_eq_Ok:
  "block_data_from_wire w = Ok d \<longleftrightarrow>
   (\<exists>es. w = (block_data_to_wire d)\<lparr>wbd_metadata := es\<rparr> \<and> bd_metadata d = btree_collect es)"
  by (cases w; cases d)
    (auto simp: block_data_from_wire_def block_data_to_wire_def res_simps block_id_from_wire_eq_Ok
      rmap_list_inverse [OF chunk_info_from_wire_eq_Ok])

lemma ec_from_wire_eq_Ok:
  "ec_from_wire w = Ok d \<longleftrightarrow>
   ec_ok d \<and> eq_ignore_ascii_case (we_codec w) ''rs'' \<and> w = (ec_to_wire d)\<lparr>we_codec := we_codec w\<rparr>"
proof (cases w; cases d)
  fix wd wp wc wcodec dd p c codec
  assume "w = \<lparr>we_data = wd, we_parity = wp, we_ec_chunk_size = wc, we_codec = wcodec\<rparr>"
    "d = \<lparr>ec_data = dd, ec_parity = p, ec_chunk_size = c, ec_codec = codec\<rparr>"
  then show ?thesis
    by (cases codec) (auto simp: ec_from_wire_def ec_to_wire_def res_simps u8_try_from_eq_Some ec_new_def ec_validate_Ok_iff
      ec_codec_from_str_def Let_def split: if_splits)
qed

lemma container_state_from_wire_eq_Ok: "container_state_from_wire v = Ok s \<longleftrightarrow> v = container_state_to_wire s"
  by (auto simp: container_state_from_wire_def container_state_to_wire_def res_simps
      wire_state_of_code_Some state_from_wire_eq_Ok)

section \<open>Decoding does not panic\<close>

lemma from_wire_not_Panic [simp]:
  "block_id_from_wire wb \<noteq> Panic" "checksum_data_from_wire wcd \<noteq> Panic" "chunk_info_from_wire wci \<noteq> Panic"
  "ec_from_wire we \<noteq> Panic" "container_state_from_wire v \<noteq> Panic"
proof -
  have ty: "checksum_type_from_wire t \<noteq> Panic" for t by (cases t) simp_all
  show cd: "checksum_data_from_wire wcd \<noteq> Panic" for wcd by (simp add: checksum_data_from_wire_def res_simps ty)
  show "chunk_info_from_wire wci \<noteq> Panic"
    by (auto simp: chunk_info_from_wire_def ropt_def res_simps cd split: option.splits)
  show "block_id_from_wire wb \<noteq> Panic" by (simp add: block_id_from_wire_def res_simps)
  show "ec_from_wire we \<noteq> Panic" by (simp add: ec_from_wire_def ec_new_def res_simps Let_def)
  have "state_from_wire t \<noteq> Panic" for t by (cases t) simp_all
  then show "container_state_from_wire v \<noteq> Panic" by (simp add: container_state_from_wire_def res_simps)
qed

lemma block_data_from_wire_not_Panic [simp]: "block_data_from_wire w \<noteq> Panic"
  by (simp add: block_data_from_wire_def res_simps rmap_list_not_Panic)

section \<open>Correctness\<close>

text \<open>
  C11: what a peer encodes decodes to the same value. Block identifiers, chunk descriptions and
  container states come back from their messages; so does a valid erasure-coding configuration, and
  a block whose metadata entries the hash map yields in any order.
\<close>

theorem wire_roundtrip:
  assumes "ec_ok cfg" "btree_wf (bd_metadata d)" "mset es = mset (bd_metadata d)"
  shows "block_id_from_wire (block_id_to_wire b) = Ok b \<and>
    chunk_info_from_wire (chunk_info_to_wire ci) = Ok ci \<and>
    container_state_from_wire (container_state_to_wire s) = Ok s \<and>
    ec_from_wire (ec_to_wire cfg) = Ok cfg \<and>
    block_data_from_wire ((block_data_to_wire d)\<lparr>wbd_metadata := es\<rparr>) = Ok d"
proof -
  have "eq_ignore_ascii_case (we_codec (ec_to_wire cfg)) ''rs''"
    using ec_codec_roundtrip [of "ec_codec cfg"]
    by (simp add: ec_to_wire_def ec_codec_from_str_def split: if_splits)
  then have "ec_from_wire (ec_to_wire cfg) = Ok cfg" using assms(1) by (simp add: ec_from_wire_eq_Ok)
  moreover have "block_data_from_wire ((block_data_to_wire d)\<lparr>wbd_metadata := es\<rparr>) = Ok d"
    unfolding block_data_from_wire_eq_Ok using btree_collect_perm [OF assms(2,3)] by auto
  ultimately show ?thesis
    by (simp add: block_id_from_wire_eq_Ok chunk_info_from_wire_eq_Ok container_state_from_wire_eq_Ok)
qed

theorem wire_roundtrip_witness:
  "let d = \<lparr>bd_block_id = block_id_ec 1 2 3, bd_chunks = [], bd_metadata = [(''a'', ''1''), (''b'', ''2'')]\<rparr>
   in block_data_from_wire ((block_data_to_wire d)\<lparr>wbd_metadata := [(''b'', ''2''), (''a'', ''1'')]\<rparr>) = Ok d \<and>
      ec_from_wire (ec_to_wire RS_6_3_1MIB) = Ok RS_6_3_1MIB"
proof -
  let ?d = "\<lparr>bd_block_id = block_id_ec 1 2 3, bd_chunks = [], bd_metadata = [(''a'', ''1''), (''b'', ''2'')]\<rparr> :: block_data"
  have "ec_ok RS_6_3_1MIB" by (simp add: RS_6_3_1MIB_def ec_rs_def ec_ok_def)
  moreover have "btree_wf (bd_metadata ?d)" by (simp add: btree_wf_def less_char_def)
  moreover have "mset [(''b'', ''2''), (''a'', ''1'')] = mset (bd_metadata ?d)" by simp
  ultimately show ?thesis using wire_roundtrip [of RS_6_3_1MIB ?d] by (simp only: Let_def)
qed

text \<open>
  C12: decoding is safe on anything that arrives. It never panics; an accepted configuration passes
  \<open>EcReplicationConfig::validate\<close>; an accepted block has its metadata sorted by key without
  duplicates, and re-encoding it gives back the message, its metadata entries apart; and whatever is
  not accepted is reported as an error.
\<close>

theorem decoded_valid:
  "(case ec_from_wire w of Ok cfg \<Rightarrow> ec_validate cfg = Ok () | Err _ \<Rightarrow> True | Panic \<Rightarrow> False) \<and>
   (case block_data_from_wire wb of
      Ok d \<Rightarrow> btree_wf (bd_metadata d) \<and>
        (block_data_to_wire d)\<lparr>wbd_metadata := wbd_metadata wb\<rparr> = wb \<and>
        map_of (bd_metadata d) = map_of (rev (wbd_metadata wb))
    | Err _ \<Rightarrow> True | Panic \<Rightarrow> False)"
proof -
  have "ec_validate cfg = Ok ()" if "ec_from_wire w = Ok cfg" for cfg
    using that by (simp add: ec_from_wire_eq_Ok ec_validate_Ok_iff)
  moreover have "btree_wf (bd_metadata d) \<and> (block_data_to_wire d)\<lparr>wbd_metadata := wbd_metadata wb\<rparr> = wb \<and>
      map_of (bd_metadata d) = map_of (rev (wbd_metadata wb))" if "block_data_from_wire wb = Ok d" for d
    using that foldl_btree_insert(2) [of "[]"] by (auto simp: block_data_from_wire_eq_Ok btree_collect_def [symmetric])
  ultimately show ?thesis by (auto split: result.split)
qed

end
