(* ===== verification/Storage_Traits.thy ===== *)
theory Storage_Traits
  imports Checksum "HOL-Library.Product_Lexorder"
begin

text \<open>
  The two storage interfaces of \<open>crates/ozone-storage\<close>: the traits \<open>ChunkStore\<close>
  (\<open>chunk_store.rs\<close>) and \<open>MetaStore\<close> (\<open>meta.rs\<close>). The datanode holds them as trait objects, so a
  store is a record of its methods over an abstract state; what the trait documentation promises
  is a locale per trait, and the stores of \<open>Chunk_Store\<close> and \<open>Fjall_Store\<close> interpret them.
\<close>

section \<open>Chunk bytes (chunk_store.rs)\<close>

record 'c chunk_ops =
  co_write :: "'c \<Rightarrow> block_id \<Rightarrow> chunk_info \<Rightarrow> bytes \<Rightarrow> 'c \<times> (storage_error, unit) result"
  co_read :: "'c \<Rightarrow> block_id \<Rightarrow> chunk_info \<Rightarrow> (storage_error, bytes) result"
  co_delete :: "'c \<Rightarrow> block_id \<Rightarrow> chunk_info \<Rightarrow> 'c \<times> (storage_error, unit) result"
  co_delete_container :: "'c \<Rightarrow> container_id \<Rightarrow> 'c \<times> (storage_error, unit) result"

type_synonym chunk_view = "block_id \<times> string \<Rightarrow> bytes option"

text \<open>
  \<open>view\<close> gives the bytes stored for a block's chunk name. Names that satisfy \<open>ok_name\<close> are those
  the store can tell apart. A write replaces the chunk whole or leaves everything as it was.
\<close>

locale chunk_store_laws =
  fixes ops :: "'c chunk_ops" and view :: "'c \<Rightarrow> chunk_view" and ok_name :: "string \<Rightarrow> bool"
  assumes write_Ok: "co_write ops s b ci d = (s', Ok u) \<Longrightarrow> ok_name (ci_chunk_name ci) \<Longrightarrow>
      view s' = (view s)((b, ci_chunk_name ci) \<mapsto> d)"
    and write_Err: "co_write ops s b ci d = (s', Err e) \<Longrightarrow> view s' = view s"
    and write_total: "snd (co_write ops s b ci d) \<noteq> Panic"
    and read_Ok: "co_read ops s b ci = Ok d \<Longrightarrow> ok_name (ci_chunk_name ci) \<Longrightarrow>
      view s (b, ci_chunk_name ci) = Some d"
    and read_total: "co_read ops s b ci \<noteq> Panic"
    and delete_Ok: "co_delete ops s b ci = (s', Ok u) \<Longrightarrow> ok_name (ci_chunk_name ci) \<Longrightarrow>
      view s' = (view s)((b, ci_chunk_name ci) := None)"
    and delete_Err: "co_delete ops s b ci = (s', Err e) \<Longrightarrow> view s' = view s"
    and delete_total: "snd (co_delete ops s b ci) \<noteq> Panic"
    and delete_container_Ok: "co_delete_container ops s c = (s', Ok u) \<Longrightarrow>
      view s' = (\<lambda>(b, n). if bid_container b = c then None else view s (b, n))"
    and delete_container_other: "co_delete_container ops s c = (s', r) \<Longrightarrow> bid_container b \<noteq> c \<Longrightarrow>
      view s' (b, n) = view s (b, n)"
    and delete_container_total: "snd (co_delete_container ops s c) \<noteq> Panic"

text \<open>A store whose device does not fail.\<close>

locale reliable_chunk_store = chunk_store_laws +
  assumes write_succeeds: "snd (co_write ops s b ci d) = Ok ()"
    and read_succeeds: "view s (b, ci_chunk_name ci) = Some d \<Longrightarrow> co_read ops s b ci = Ok d"
    and read_missing: "view s (b, ci_chunk_name ci) = None \<Longrightarrow> ok_name (ci_chunk_name ci) \<Longrightarrow>
      co_read ops s b ci = Err (BlockNotFound b)"
    and delete_succeeds: "snd (co_delete ops s b ci) = Ok ()"
    and delete_container_succeeds: "snd (co_delete_container ops s c) = Ok ()"

section \<open>Metadata (meta.rs)\<close>

record block_page =
  bp_blocks :: "block_data list"
  bp_next_local_id :: "u64 option"

record 'm meta_ops =
  mo_create_container :: "'m \<Rightarrow> container_info \<Rightarrow> 'm \<times> (storage_error, unit) result"
  mo_get_container :: "'m \<Rightarrow> container_id \<Rightarrow> (storage_error, container_info option) result"
  mo_set_container_state :: "'m \<Rightarrow> container_id \<Rightarrow> container_state \<Rightarrow> 'm \<times> (storage_error, unit) result"
  mo_list_containers :: "'m \<Rightarrow> (storage_error, container_info list) result"
  mo_delete_container :: "'m \<Rightarrow> container_id \<Rightarrow> 'm \<times> (storage_error, unit) result"
  mo_put_block :: "'m \<Rightarrow> block_data \<Rightarrow> 'm \<times> (storage_error, u64) result"
  mo_get_block :: "'m \<Rightarrow> block_id \<Rightarrow> (storage_error, block_data option) result"
  mo_delete_block :: "'m \<Rightarrow> block_id \<Rightarrow> 'm \<times> (storage_error, unit) result"
  mo_list_blocks :: "'m \<Rightarrow> container_id \<Rightarrow> u64 \<Rightarrow> nat \<Rightarrow> (storage_error, block_page) result"

text \<open>
  What the trait's documentation fixes, as functions on the committed contents: containers with
  their commit sequence id, and blocks. A mutation either takes the specified step or reports
  the specified error; a failing backend (\<open>Meta\<close>, \<open>Corrupt\<close>) changes nothing.
\<close>

record meta_view =
  mv_containers :: "container_id \<rightharpoonup> container_info \<times> u64"
  mv_blocks :: "block_id \<rightharpoonup> block_data"

definition spec_create_container :: "meta_view \<Rightarrow> container_info \<Rightarrow> (storage_error, meta_view \<times> unit) result" where
  "spec_create_container v info =
     (if mv_containers v (cinfo_container_id info) \<noteq> None then Err (ContainerExists (cinfo_container_id info))
      else Ok (v\<lparr>mv_containers := (mv_containers v)(cinfo_container_id info \<mapsto> (info, 0))\<rparr>, ()))"

definition spec_set_container_state ::
    "meta_view \<Rightarrow> container_id \<Rightarrow> container_state \<Rightarrow> (storage_error, meta_view \<times> unit) result" where
  "spec_set_container_state v c st =
     (case mv_containers v c of
        None \<Rightarrow> Err (ContainerNotFound c)
      | Some (info, bcsi) \<Rightarrow>
          Ok (v\<lparr>mv_containers := (mv_containers v)(c \<mapsto> (info\<lparr>cinfo_state := st\<rparr>, bcsi))\<rparr>, ()))"

definition spec_delete_container :: "meta_view \<Rightarrow> container_id \<Rightarrow> (storage_error, meta_view \<times> unit) result" where
  "spec_delete_container v c =
     Ok (v\<lparr>mv_containers := (mv_containers v)(c := None),
           mv_blocks := (\<lambda>b. if bid_container b = c then None else mv_blocks v b)\<rparr>, ())"

definition saturating_sub :: "u64 \<Rightarrow> u64 \<Rightarrow> u64" where
  "saturating_sub a b = (if b \<le> a then a - b else 0)"

definition spec_put_block :: "meta_view \<Rightarrow> block_data \<Rightarrow> (storage_error, meta_view \<times> u64) result" where
  "spec_put_block v bd =
     (let c = bid_container (bd_block_id bd) in
      case mv_containers v c of
        None \<Rightarrow> Err (ContainerNotFound c)
      | Some (info, bcsi) \<Rightarrow>
          if \<not> is_writable (cinfo_state info) then Err (ContainerNotOpen c (cinfo_state info))
          else
            let info' = (case mv_blocks v (bd_block_id bd) of
                  Some prev \<Rightarrow> info\<lparr>cinfo_used_bytes :=
                    saturating_sub (cinfo_used_bytes info) (block_data_len prev) + block_data_len bd\<rparr>
                | None \<Rightarrow> info\<lparr>cinfo_block_count := cinfo_block_count info + 1,
                    cinfo_used_bytes := cinfo_used_bytes info + block_data_len bd\<rparr>)
            in Ok (v\<lparr>mv_containers := (mv_containers v)(c \<mapsto> (info', bcsi + 1)),
                     mv_blocks := (mv_blocks v)(bd_block_id bd \<mapsto> bd)\<rparr>, bcsi + 1))"

definition spec_delete_block :: "meta_view \<Rightarrow> block_id \<Rightarrow> (storage_error, meta_view \<times> unit) result" where
  "spec_delete_block v b =
     (case mv_blocks v b of
        None \<Rightarrow> Ok (v, ())
      | Some bd \<Rightarrow>
          Ok (v\<lparr>mv_blocks := (mv_blocks v)(b := None),
                mv_containers := (case mv_containers v (bid_container b) of
                    None \<Rightarrow> mv_containers v
                  | Some (info, bcsi) \<Rightarrow> (mv_containers v)(bid_container b \<mapsto>
                      (info\<lparr>cinfo_block_count := saturating_sub (cinfo_block_count info) 1,
                            cinfo_used_bytes := saturating_sub (cinfo_used_bytes info) (block_data_len bd)\<rparr>,
                       bcsi)))\<rparr>, ()))"

text \<open>The blocks of a container in ascending order of local id and replica slot.\<close>

definition slots_of :: "meta_view \<Rightarrow> container_id \<Rightarrow> (u64 \<times> u8) list" where
  "slots_of v c = sorted_list_of_set {(l, r). mv_blocks v (block_id_ec c l r) \<noteq> None}"

definition blocks_of :: "meta_view \<Rightarrow> container_id \<Rightarrow> block_data list" where
  "blocks_of v c = map (\<lambda>(l, r). the (mv_blocks v (block_id_ec c l r))) (slots_of v c)"

definition page_of :: "block_data list \<Rightarrow> u64 \<Rightarrow> nat \<Rightarrow> block_page" where
  "page_of bs start limit =
     (let rest = filter (\<lambda>bd. start \<le> bid_local (bd_block_id bd)) bs
      in \<lparr>bp_blocks = take limit rest,
          bp_next_local_id = (if limit < length rest then Some (bid_local (bd_block_id (rest ! limit))) else None)\<rparr>)"

definition backend_error :: "storage_error \<Rightarrow> bool" where
  "backend_error e = (case e of Meta _ \<Rightarrow> True | Corrupt _ \<Rightarrow> True | _ \<Rightarrow> False)"

definition refines_step ::
    "(storage_error, 'v \<times> 'r) result \<Rightarrow> 'v \<Rightarrow> 'v \<Rightarrow> (storage_error, 'r) result \<Rightarrow> bool" where
  "refines_step spec v v' r =
     (case r of
        Ok x \<Rightarrow> spec = Ok (v', x)
      | Err e \<Rightarrow> v' = v \<and> (spec = Err e \<or> backend_error e)
      | Panic \<Rightarrow> False)"

definition refines_read :: "'r \<Rightarrow> (storage_error, 'r) result \<Rightarrow> bool" where
  "refines_read x r = (case r of Ok y \<Rightarrow> y = x | Err e \<Rightarrow> backend_error e | Panic \<Rightarrow> False)"

locale meta_store_laws =
  fixes ops :: "'m meta_ops" and abs :: "'m \<Rightarrow> meta_view" and wf :: "'m \<Rightarrow> bool"
  assumes create_container: "wf m \<Longrightarrow> mo_create_container ops m info = (m', r) \<Longrightarrow>
      wf m' \<and> refines_step (spec_create_container (abs m) info) (abs m) (abs m') r"
    and get_container: "wf m \<Longrightarrow>
      refines_read (map_option fst (mv_containers (abs m) c)) (mo_get_container ops m c)"
    and set_container_state: "wf m \<Longrightarrow> mo_set_container_state ops m c st = (m', r1) \<Longrightarrow>
      wf m' \<and> refines_step (spec_set_container_state (abs m) c st) (abs m) (abs m') r1"
    and list_containers: "wf m \<Longrightarrow>
      (case mo_list_containers ops m of
         Ok xs \<Rightarrow> distinct (map cinfo_container_id xs) \<and> set xs = fst ` ran (mv_containers (abs m))
       | Err e \<Rightarrow> backend_error e | Panic \<Rightarrow> False)"
    and delete_container: "wf m \<Longrightarrow> mo_delete_container ops m c = (m', r2) \<Longrightarrow>
      wf m' \<and> refines_step (spec_delete_container (abs m) c) (abs m) (abs m') r2"
    and put_block: "wf m \<Longrightarrow> mo_put_block ops m bd = (m', r3) \<Longrightarrow>
      wf m' \<and> refines_step (spec_put_block (abs m) bd) (abs m) (abs m') r3"
    and get_block: "wf m \<Longrightarrow> refines_read (mv_blocks (abs m) b) (mo_get_block ops m b)"
    and delete_block: "wf m \<Longrightarrow> mo_delete_block ops m b = (m', r4) \<Longrightarrow>
      wf m' \<and> refines_step (spec_delete_block (abs m) b) (abs m) (abs m') r4"
    and list_blocks: "wf m \<Longrightarrow>
      refines_read (page_of (blocks_of (abs m) c) start limit) (mo_list_blocks ops m c start limit)"
    and finite_blocks: "wf m \<Longrightarrow> finite (dom (mv_blocks (abs m)))"
    and block_ids: "wf m \<Longrightarrow> mv_blocks (abs m) b = Some bd \<Longrightarrow> bd_block_id bd = b"
    and container_ids: "wf m \<Longrightarrow> mv_containers (abs m) c = Some (info, n) \<Longrightarrow> cinfo_container_id info = c"

end
