(* ===== verification/Dn_Server.thy ===== *)
theory Dn_Server
  imports Wire_Conv Storage_Traits
begin

text \<open>
  \<open>crates/ozone-dn-server/src/lib.rs\<close>: the datanode's gRPC service over the two storage traits. A
  handler takes the service, the state of its two stores and the request, and gives the new state
  with the response or the gRPC status. A status keeps the error it is rendered from in place of
  the rendered text. A streamed request is the list of messages received, a streamed response the
  list of messages sent.
\<close>

section \<open>Statuses\<close>

datatype status_code =
    Cancelled | Unknown | InvalidArgument | DeadlineExceeded | NotFound | AlreadyExists | PermissionDenied
  | ResourceExhausted | FailedPrecondition | Aborted | Code_OutOfRange | Unimplemented | Internal
  | Unavailable | DataLoss | Unauthenticated

datatype status_text =
    Text string
  | StorageText storage_error
  | ConversionText conversion_error
  | ChecksumText checksum_error

record status =
  status_code :: status_code
  status_text :: status_text

definition storage_status :: "storage_error \<Rightarrow> status" where
  "storage_status e =
     \<lparr>status_code = (case e of
          ContainerNotFound _ \<Rightarrow> NotFound
        | BlockNotFound _ \<Rightarrow> NotFound
        | ContainerExists _ \<Rightarrow> AlreadyExists
        | ContainerNotOpen _ _ \<Rightarrow> FailedPrecondition
        | ChecksumErr _ \<Rightarrow> DataLoss
        | Io _ \<Rightarrow> Internal
        | Meta _ \<Rightarrow> Internal
        | Corrupt _ \<Rightarrow> Internal),
      status_text = StorageText e\<rparr>"

definition conv_status :: "conversion_error \<Rightarrow> status" where
  "conv_status e = \<lparr>status_code = InvalidArgument, status_text = ConversionText e\<rparr>"

definition missing :: "string \<Rightarrow> status" where
  "missing field = \<lparr>status_code = InvalidArgument, status_text = Text (''missing required field: '' @ field)\<rparr>"

definition data_loss :: "checksum_error \<Rightarrow> status" where
  "data_loss e = \<lparr>status_code = DataLoss, status_text = ChecksumText e\<rparr>"

section \<open>Requests and responses\<close>

record wire_container_state =
  wcs_state :: i32

record version_response =
  vr_server_major :: u32
  vr_server_minor :: u32
  vr_server_build :: string

record create_container_request =
  ccq_container_id :: "wire_container_id option"
  ccq_ec_config :: "wire_ec_config option"
  ccq_lease_id :: string
  ccq_request_id :: string

record create_container_response =
  ccr_state :: "wire_container_state option"

record close_container_request =
  clq_container_id :: "wire_container_id option"
  clq_request_id :: string

record close_container_response =
  clr_state :: "wire_container_state option"
  clr_used_bytes :: u64
  clr_block_count :: u64

record delete_container_request =
  dcq_container_id :: "wire_container_id option"
  dcq_force :: bool
  dcq_request_id :: string

record container_info_request =
  ciq_container_id :: "wire_container_id option"

record container_info_response =
  cir_container_id :: "wire_container_id option"
  cir_state :: "wire_container_state option"
  cir_used_bytes :: u64
  cir_block_count :: u64
  cir_ec_config :: "wire_ec_config option"

record put_block_request =
  pbq_block_data :: "wire_block_data option"
  pbq_eof :: bool
  pbq_request_id :: string

record get_block_request =
  gbq_block_id :: "wire_block_id option"

record delete_block_request =
  dbq_block_id :: "wire_block_id option"
  dbq_request_id :: string

record list_blocks_request =
  lbq_container_id :: "wire_container_id option"
  lbq_start_local_id :: u64
  lbq_page_size :: u32

record list_blocks_response =
  lbr_blocks :: "wire_block_data list"
  lbr_next_local_id :: u64

record write_chunk_header =
  wch_block_id :: "wire_block_id option"
  wch_chunk_info :: "wire_chunk_info option"
  wch_request_id :: string

record write_chunk_request =
  wcq_header :: "write_chunk_header option"
  wcq_payload :: bytes
  wcq_last :: bool

record read_chunk_request =
  rcq_block_id :: "wire_block_id option"
  rcq_chunk_info :: "wire_chunk_info option"
  rcq_verify :: bool

record read_chunk_response =
  rcr_payload :: bytes
  rcr_last :: bool

section \<open>The service\<close>

record ('m, 'c) datanode_service =
  svc_meta :: "'m meta_ops"
  svc_chunks :: "'c chunk_ops"
  svc_server_major :: u32
  svc_server_minor :: u32
  svc_server_build :: string

record ('m, 'c) dn_state =
  dn_meta :: 'm
  dn_chunks :: 'c

definition datanode_service_new :: "'m meta_ops \<Rightarrow> 'c chunk_ops \<Rightarrow> string \<Rightarrow> ('m, 'c) datanode_service" where
  "datanode_service_new meta chunk_store build =
     \<lparr>svc_meta = meta, svc_chunks = chunk_store, svc_server_major = 1, svc_server_minor = 0, svc_server_build = build\<rparr>"

text \<open>A call of a store's operation, its error mapped to a status.\<close>

definition on_meta :: "('m, 'c) dn_state \<Rightarrow> 'm \<times> (storage_error, 'a) result \<Rightarrow> ('m, 'c) dn_state \<times> (status, 'a) result" where
  "on_meta st mr = (st\<lparr>dn_meta := fst mr\<rparr>, map_err storage_status (snd mr))"

definition on_chunks :: "('m, 'c) dn_state \<Rightarrow> 'c \<times> (storage_error, 'a) result \<Rightarrow> ('m, 'c) dn_state \<times> (status, 'a) result" where
  "on_chunks st cr = (st\<lparr>dn_chunks := fst cr\<rparr>, map_err storage_status (snd cr))"

definition wire_state_msg :: "container_state \<Rightarrow> wire_container_state" where
  "wire_state_msg s = \<lparr>wcs_state = container_state_to_wire s\<rparr>"

definition READ_FRAME_BYTES :: nat where
  "READ_FRAME_BYTES = 64 * 1024"

definition DEFAULT_LIST_PAGE :: nat where
  "DEFAULT_LIST_PAGE = 1000"

function frame_loop :: "bytes \<Rightarrow> nat \<Rightarrow> bytes list" where
  "frame_loop data off =
     (if off < length data then
        let stop = min (off + READ_FRAME_BYTES) (length data)
        in take (stop - off) (drop off data) # frame_loop data stop
      else [])"
  by auto
termination by (relation "measure (\<lambda>(data, off). length data - off)") (auto simp: READ_FRAME_BYTES_def)

declare frame_loop.simps [simp del]

definition frame :: "bytes \<Rightarrow> bytes list" where
  "frame data = (if data = [] then [[]] else frame_loop data 0)"

definition get_version :: "('m, 'c) datanode_service \<Rightarrow> version_response" where
  "get_version svc =
     \<lparr>vr_server_major = svc_server_major svc, vr_server_minor = svc_server_minor svc,
      vr_server_build = svc_server_build svc\<rparr>"

definition dn_create_container ::
    "('m, 'c) datanode_service \<Rightarrow> ('m, 'c) dn_state \<Rightarrow> create_container_request
       \<Rightarrow> ('m, 'c) dn_state \<times> (status, create_container_response) result" where
  "dn_create_container svc st req =
     try_st st (ok_or (ccq_container_id req) (missing ''container_id'')) (\<lambda>wcid.
     let cid = container_id_from_wire wcid in
     try_st st (ok_or (ccq_ec_config req) (missing ''ec_config'')) (\<lambda>wec.
     try_st st (map_err conv_status (ec_from_wire wec)) (\<lambda>ec.
     try_upd (on_meta st (mo_create_container (svc_meta svc) (dn_meta st) (container_info_new_open cid ec))) (\<lambda>st' _.
     (st', Ok \<lparr>ccr_state = Some (wire_state_msg Open)\<rparr>)))))"

definition dn_close_container ::
    "('m, 'c) datanode_service \<Rightarrow> ('m, 'c) dn_state \<Rightarrow> close_container_request
       \<Rightarrow> ('m, 'c) dn_state \<times> (status, close_container_response) result" where
  "dn_close_container svc st req =
     try_st st (ok_or (clq_container_id req) (missing ''container_id'')) (\<lambda>wcid.
     let cid = container_id_from_wire wcid in
     try_upd (on_meta st (mo_set_container_state (svc_meta svc) (dn_meta st) cid Closed)) (\<lambda>st' _.
     try_st st' (map_err storage_status (mo_get_container (svc_meta svc) (dn_meta st') cid)) (\<lambda>found.
     try_st st' (ok_or found \<lparr>status_code = NotFound,
         status_text = Text (''container '' @ u64_to_string cid @ '' vanished during close'')\<rparr>) (\<lambda>info.
     (st', Ok \<lparr>clr_state = Some (wire_state_msg (cinfo_state info)), clr_used_bytes = cinfo_used_bytes info,
               clr_block_count = cinfo_block_count info\<rparr>)))))"

definition dn_delete_container ::
    "('m, 'c) datanode_service \<Rightarrow> ('m, 'c) dn_state \<Rightarrow> delete_container_request
       \<Rightarrow> ('m, 'c) dn_state \<times> (status, unit) result" where
  "dn_delete_container svc st req =
     try_st st (ok_or (dcq_container_id req) (missing ''container_id'')) (\<lambda>wcid.
     let cid = container_id_from_wire wcid in
     try_upd (on_meta st (mo_delete_container (svc_meta svc) (dn_meta st) cid)) (\<lambda>st' _.
     on_chunks st' (co_delete_container (svc_chunks svc) (dn_chunks st') cid)))"

definition get_container_info ::
    "('m, 'c) datanode_service \<Rightarrow> ('m, 'c) dn_state \<Rightarrow> container_info_request
       \<Rightarrow> (status, container_info_response) result" where
  "get_container_info svc st req =
     rbind (ok_or (ciq_container_id req) (missing ''container_id'')) (\<lambda>wcid.
     let cid = container_id_from_wire wcid in
     rbind (map_err storage_status (mo_get_container (svc_meta svc) (dn_meta st) cid)) (\<lambda>found.
     rbind (ok_or found \<lparr>status_code = NotFound,
         status_text = Text (''container '' @ u64_to_string cid @ '' not found'')\<rparr>) (\<lambda>info.
     Ok \<lparr>cir_container_id = Some (container_id_to_wire cid), cir_state = Some (wire_state_msg (cinfo_state info)),
         cir_used_bytes = cinfo_used_bytes info, cir_block_count = cinfo_block_count info,
         cir_ec_config = map_option ec_to_wire (cinfo_ec_config info)\<rparr>)))"

definition dn_put_block ::
    "('m, 'c) datanode_service \<Rightarrow> ('m, 'c) dn_state \<Rightarrow> put_block_request
       \<Rightarrow> ('m, 'c) dn_state \<times> (status, u64) result" where
  "dn_put_block svc st req =
     try_st st (ok_or (pbq_block_data req) (missing ''block_data'')) (\<lambda>w.
     try_st st (map_err conv_status (block_data_from_wire w)) (\<lambda>block.
     on_meta st (mo_put_block (svc_meta svc) (dn_meta st) block)))"

definition dn_get_block ::
    "('m, 'c) datanode_service \<Rightarrow> ('m, 'c) dn_state \<Rightarrow> get_block_request \<Rightarrow> (status, wire_block_data) result" where
  "dn_get_block svc st req =
     rbind (ok_or (gbq_block_id req) (missing ''block_id'')) (\<lambda>w.
     rbind (map_err conv_status (block_id_from_wire w)) (\<lambda>bid.
     rbind (map_err storage_status (mo_get_block (svc_meta svc) (dn_meta st) bid)) (\<lambda>found.
     case found of
       Some bd \<Rightarrow> Ok (block_data_to_wire bd)
     | None \<Rightarrow> Err \<lparr>status_code = NotFound,
         status_text = Text (''block '' @ block_id_display bid @ '' not found'')\<rparr>)))"

fun delete_chunks ::
    "('m, 'c) datanode_service \<Rightarrow> ('m, 'c) dn_state \<Rightarrow> block_id \<Rightarrow> chunk_info list
       \<Rightarrow> ('m, 'c) dn_state \<times> (status, unit) result" where
  "delete_chunks svc st bid [] = (st, Ok ())"
| "delete_chunks svc st bid (ci # cis) =
     try_upd (on_chunks st (co_delete (svc_chunks svc) (dn_chunks st) bid ci)) (\<lambda>st' _. delete_chunks svc st' bid cis)"

definition dn_delete_block ::
    "('m, 'c) datanode_service \<Rightarrow> ('m, 'c) dn_state \<Rightarrow> delete_block_request
       \<Rightarrow> ('m, 'c) dn_state \<times> (status, unit) result" where
  "dn_delete_block svc st req =
     try_st st (ok_or (dbq_block_id req) (missing ''block_id'')) (\<lambda>w.
     try_st st (map_err conv_status (block_id_from_wire w)) (\<lambda>bid.
     try_st st (map_err storage_status (mo_get_block (svc_meta svc) (dn_meta st) bid)) (\<lambda>found.
     try_upd (case found of Some bd \<Rightarrow> delete_chunks svc st bid (bd_chunks bd) | None \<Rightarrow> (st, Ok ())) (\<lambda>st' _.
     on_meta st' (mo_delete_block (svc_meta svc) (dn_meta st') bid)))))"

text \<open>
  The spawned task of \<open>list_blocks\<close>. The last argument counts the messages the receiver still takes
  before it drops the stream; the send after that fails and ends the task.
\<close>

primrec list_blocks_task ::
    "'m meta_ops \<Rightarrow> 'm \<Rightarrow> container_id \<Rightarrow> nat \<Rightarrow> nat \<Rightarrow> u64 \<Rightarrow> (status, list_blocks_response) result list" where
  "list_blocks_task meta m cid page_size 0 start = []"
| "list_blocks_task meta m cid page_size (Suc n) start =
     (case mo_list_blocks meta m cid start page_size of
        Ok page \<Rightarrow>
          let next = bp_next_local_id page
          in Ok \<lparr>lbr_blocks = map block_data_to_wire (bp_blocks page),
                 lbr_next_local_id = (case next of Some l \<Rightarrow> l | None \<Rightarrow> 0)\<rparr>
             # (case next of Some l \<Rightarrow> list_blocks_task meta m cid page_size n l | None \<Rightarrow> [])
      | Err e \<Rightarrow> [Err (storage_status e)]
      | Panic \<Rightarrow> [])"

definition dn_list_blocks ::
    "('m, 'c) datanode_service \<Rightarrow> ('m, 'c) dn_state \<Rightarrow> list_blocks_request \<Rightarrow> nat
       \<Rightarrow> (status, (status, list_blocks_response) result list) result" where
  "dn_list_blocks svc st req n =
     rbind (ok_or (lbq_container_id req) (missing ''container_id'')) (\<lambda>wcid.
     let page_size = (if lbq_page_size req = 0 then DEFAULT_LIST_PAGE else unat (lbq_page_size req))
     in Ok (list_blocks_task (svc_meta svc) (dn_meta st) (container_id_from_wire wcid) page_size n
              (lbq_start_local_id req)))"

text \<open>The receive loop of \<open>write_chunk\<close>: the first header wins, \<open>last\<close> ends the stream.\<close>

fun receive_chunk ::
    "(status, write_chunk_request) result list \<Rightarrow> write_chunk_header option \<Rightarrow> bytes
       \<Rightarrow> (status, write_chunk_header option \<times> bytes) result" where
  "receive_chunk [] header buf = Ok (header, buf)"
| "receive_chunk (m # ms) header buf =
     rbind m (\<lambda>msg.
     let header' = (if header = None then wcq_header msg else header);
         buf' = buf @ wcq_payload msg
     in if wcq_last msg then Ok (header', buf') else receive_chunk ms header' buf')"

definition dn_write_chunk ::
    "(bytes \<Rightarrow> u32) \<Rightarrow> ('m, 'c) datanode_service \<Rightarrow> ('m, 'c) dn_state \<Rightarrow> (status, write_chunk_request) result list
       \<Rightarrow> ('m, 'c) dn_state \<times> (status, u64) result" where
  "dn_write_chunk crc svc st ms =
     try_st st (receive_chunk ms None []) (\<lambda>(hopt, data).
     try_st st (ok_or hopt (missing ''WriteChunkHeader'')) (\<lambda>header.
     try_st st (ok_or (wch_block_id header) (missing ''WriteChunkHeader.block_id'')) (\<lambda>wid.
     try_st st (map_err conv_status (block_id_from_wire wid)) (\<lambda>block.
     try_st st (ok_or (wch_chunk_info header) (missing ''WriteChunkHeader.chunk_info'')) (\<lambda>wci.
     try_st st (map_err conv_status (chunk_info_from_wire wci)) (\<lambda>chunk.
     let bytes_written = of_nat (length data) in
     try_st st (case ci_checksum_data chunk of
         Some cd \<Rightarrow> map_err data_loss (verify crc data cd)
       | None \<Rightarrow> Ok ()) (\<lambda>_.
     try_upd (on_chunks st (co_write (svc_chunks svc) (dn_chunks st) block chunk data)) (\<lambda>st' _.
     (st', Ok bytes_written)))))))))"

definition expected_checksum ::
    "('m, 'c) datanode_service \<Rightarrow> ('m, 'c) dn_state \<Rightarrow> block_id \<Rightarrow> chunk_info \<Rightarrow> (status, checksum_data option) result" where
  "expected_checksum svc st block chunk =
     (case ci_checksum_data chunk of
        Some cd \<Rightarrow> Ok (Some cd)
      | None \<Rightarrow>
          rbind (map_err storage_status (mo_get_block (svc_meta svc) (dn_meta st) block)) (\<lambda>found.
          Ok (Option.bind found (\<lambda>bd.
              Option.bind (find (\<lambda>c. ci_chunk_name c = ci_chunk_name chunk) (bd_chunks bd)) ci_checksum_data))))"

definition frames_of :: "bytes \<Rightarrow> read_chunk_response list" where
  "frames_of data =
     (let frames = frame data; last_idx = length frames - 1
      in map (\<lambda>(i, f). \<lparr>rcr_payload = f, rcr_last = (i = last_idx)\<rparr>) (enumerate 0 frames))"

definition dn_read_chunk ::
    "(bytes \<Rightarrow> u32) \<Rightarrow> ('m, 'c) datanode_service \<Rightarrow> ('m, 'c) dn_state \<Rightarrow> read_chunk_request
       \<Rightarrow> (status, read_chunk_response list) result" where
  "dn_read_chunk crc svc st req =
     rbind (ok_or (rcq_block_id req) (missing ''block_id'')) (\<lambda>wid.
     rbind (map_err conv_status (block_id_from_wire wid)) (\<lambda>block.
     rbind (ok_or (rcq_chunk_info req) (missing ''chunk_info'')) (\<lambda>wci.
     rbind (map_err conv_status (chunk_info_from_wire wci)) (\<lambda>chunk.
     rbind (map_err storage_status (co_read (svc_chunks svc) (dn_chunks st) block chunk)) (\<lambda>data.
     rbind (if rcq_verify req then
              rbind (expected_checksum svc st block chunk) (\<lambda>expected.
              case expected of
                Some cd \<Rightarrow> map_err data_loss (verify crc data cd)
              | None \<Rightarrow> Ok ())
            else Ok ()) (\<lambda>_.
     Ok (frames_of data)))))))"

definition put_ec_stripe :: "(status, unit) result" where
  "put_ec_stripe = Err \<lparr>status_code = Unimplemented, status_text =
     Text ''PutECStripe is not served; EC shards are written via WriteChunk per replica slot''\<rparr>"

definition read_ec_stripe :: "(status, unit) result" where
  "read_ec_stripe = Err \<lparr>status_code = Unimplemented, status_text =
     Text ''ReadECStripe is not served; EC shards are read via ReadChunk per replica slot''\<rparr>"

section \<open>Framing\<close>

lemma frame_loop_chunks: "off \<le> length data \<Longrightarrow> frame_loop data off = chunks READ_FRAME_BYTES (drop off data)"
proof (induction data off rule: frame_loop.induct)
  case (1 data off)
  show ?case
  proof (cases "off < length data")
    case True
    let ?e = "min (off + READ_FRAME_BYTES) (length data)"
    have pos: "0 < READ_FRAME_BYTES" by (simp add: READ_FRAME_BYTES_def)
    have "drop off data \<noteq> []" using True by simp
    then have "chunks READ_FRAME_BYTES (drop off data) =
        take READ_FRAME_BYTES (drop off data) # chunks READ_FRAME_BYTES (drop READ_FRAME_BYTES (drop off data))"
      using pos by (subst chunks.simps) simp
    moreover have "take READ_FRAME_BYTES (drop off data) = take (?e - off) (drop off data)"
      by (simp add: min_def)
    moreover have "drop READ_FRAME_BYTES (drop off data) = drop ?e data"
      by (simp add: min_def add.commute)
    moreover have "frame_loop data ?e = chunks READ_FRAME_BYTES (drop ?e data)"
      using 1 True by simp
    ultimately show ?thesis using True by (subst frame_loop.simps) (simp add: Let_def)
  next
    case False
    then show ?thesis by (subst frame_loop.simps) simp
  qed
qed

end
