(* ===== verification/Dn_Client.thy ===== *)
theory Dn_Client
  imports Dn_Server
begin

text \<open>
  \<open>crates/ozone-dn-client/src/lib.rs\<close>: the gateway's client of the datanode service. The gRPC
  channel is a record of the remote procedures over the remote state \<open>'s\<close>; \<open>local_rpc\<close> is the channel
  that delivers every message to the handlers of \<open>Dn_Server\<close>. A server stream is read through its
  first \<open>n\<close> messages: a stream that is longer leaves the client waiting, the value None.
\<close>

datatype dn_client_error =
    Connect string
  | Rpc status
  | Conversion conversion_error
  | MissingResponseField string

record 's dn_rpc =
  rpc_get_version :: "'s \<Rightarrow> (status, version_response) result"
  rpc_create_container :: "'s \<Rightarrow> create_container_request \<Rightarrow> 's \<times> (status, create_container_response) result"
  rpc_close_container :: "'s \<Rightarrow> close_container_request \<Rightarrow> 's \<times> (status, close_container_response) result"
  rpc_delete_container :: "'s \<Rightarrow> delete_container_request \<Rightarrow> 's \<times> (status, unit) result"
  rpc_get_container_info :: "'s \<Rightarrow> container_info_request \<Rightarrow> (status, container_info_response) result"
  rpc_put_block :: "'s \<Rightarrow> put_block_request \<Rightarrow> 's \<times> (status, u64) result"
  rpc_get_block :: "'s \<Rightarrow> get_block_request \<Rightarrow> (status, wire_block_data option) result"
  rpc_delete_block :: "'s \<Rightarrow> delete_block_request \<Rightarrow> 's \<times> (status, unit) result"
  rpc_list_blocks :: "'s \<Rightarrow> list_blocks_request \<Rightarrow> nat \<Rightarrow> (status, (status, list_blocks_response) result list) result"
  rpc_write_chunk :: "'s \<Rightarrow> write_chunk_request list \<Rightarrow> 's \<times> (status, u64) result"
  rpc_read_chunk :: "'s \<Rightarrow> read_chunk_request \<Rightarrow> (status, (status, read_chunk_response) result list) result"

definition local_rpc :: "(bytes \<Rightarrow> u32) \<Rightarrow> ('m, 'c) datanode_service \<Rightarrow> ('m, 'c) dn_state dn_rpc" where
  "local_rpc crc svc =
     \<lparr>rpc_get_version = (\<lambda>_. Ok (get_version svc)),
      rpc_create_container = dn_create_container svc,
      rpc_close_container = dn_close_container svc,
      rpc_delete_container = dn_delete_container svc,
      rpc_get_container_info = get_container_info svc,
      rpc_put_block = dn_put_block svc,
      rpc_get_block = (\<lambda>st req. rbind (dn_get_block svc st req) (\<lambda>bd. Ok (Some bd))),
      rpc_delete_block = dn_delete_block svc,
      rpc_list_blocks = dn_list_blocks svc,
      rpc_write_chunk = (\<lambda>st ms. dn_write_chunk crc svc st (map Ok ms)),
      rpc_read_chunk = (\<lambda>st req. rbind (dn_read_chunk crc svc st req) (\<lambda>fs. Ok (map Ok fs)))\<rparr>"

definition WRITE_FRAME_BYTES :: nat where
  "WRITE_FRAME_BYTES = 256 * 1024"

text \<open>The \<open>?\<close> on an RPC, in the two forms of \<open>Ozone_Prelude\<close>.\<close>

definition rpc_upd :: "'s \<times> (status, 'a) result \<Rightarrow> 's \<times> (dn_client_error, 'a) result" where
  "rpc_upd m = (fst m, map_err Rpc (snd m))"

definition client_get_version :: "'s dn_rpc \<Rightarrow> 's \<Rightarrow> (dn_client_error, u32 \<times> u32 \<times> string) result" where
  "client_get_version rpc s =
     rbind (map_err Rpc (rpc_get_version rpc s)) (\<lambda>r.
     Ok (vr_server_major r, vr_server_minor r, vr_server_build r))"

definition client_create_container ::
    "'s dn_rpc \<Rightarrow> 's \<Rightarrow> container_id \<Rightarrow> ec_replication_config \<Rightarrow> 's \<times> (dn_client_error, container_state) result" where
  "client_create_container rpc s c ec =
     try_upd (rpc_upd (rpc_create_container rpc s
        \<lparr>ccq_container_id = Some (container_id_to_wire c), ccq_ec_config = Some (ec_to_wire ec),
         ccq_lease_id = '''', ccq_request_id = ''''\<rparr>)) (\<lambda>s' r.
     try_st s' (ok_or (ccr_state r) (MissingResponseField ''state'')) (\<lambda>state.
     (s', map_err Conversion (container_state_from_wire (wcs_state state)))))"

definition client_close_container ::
    "'s dn_rpc \<Rightarrow> 's \<Rightarrow> container_id \<Rightarrow> 's \<times> (dn_client_error, container_state \<times> u64 \<times> u64) result" where
  "client_close_container rpc s c =
     try_upd (rpc_upd (rpc_close_container rpc s
        \<lparr>clq_container_id = Some (container_id_to_wire c), clq_request_id = ''''\<rparr>)) (\<lambda>s' r.
     try_st s' (ok_or (clr_state r) (MissingResponseField ''state'')) (\<lambda>state.
     try_st s' (map_err Conversion (container_state_from_wire (wcs_state state))) (\<lambda>cs.
     (s', Ok (cs, clr_used_bytes r, clr_block_count r)))))"

definition client_delete_container :: "'s dn_rpc \<Rightarrow> 's \<Rightarrow> container_id \<Rightarrow> 's \<times> (dn_client_error, unit) result" where
  "client_delete_container rpc s c =
     rpc_upd (rpc_delete_container rpc s
       \<lparr>dcq_container_id = Some (container_id_to_wire c), dcq_force = False, dcq_request_id = ''''\<rparr>)"

definition client_get_container_info ::
    "'s dn_rpc \<Rightarrow> 's \<Rightarrow> container_id \<Rightarrow> (dn_client_error, container_info option) result" where
  "client_get_container_info rpc s c =
     (case rpc_get_container_info rpc s \<lparr>ciq_container_id = Some (container_id_to_wire c)\<rparr> of
        Ok r \<Rightarrow>
          rbind (ok_or (cir_state r) (MissingResponseField ''state'')) (\<lambda>state.
          rbind (map_err Conversion (container_state_from_wire (wcs_state state))) (\<lambda>cs.
          rbind (map_err Conversion (ropt ec_from_wire (cir_ec_config r))) (\<lambda>ec.
          Ok (Some \<lparr>cinfo_container_id = c, cinfo_state = cs, cinfo_used_bytes = cir_used_bytes r,
                    cinfo_block_count = cir_block_count r, cinfo_ec_config = ec\<rparr>))))
      | Err st \<Rightarrow> if status_code st = NotFound then Ok None else Err (Rpc st)
      | Panic \<Rightarrow> Panic)"

definition client_put_block ::
    "'s dn_rpc \<Rightarrow> 's \<Rightarrow> block_data \<Rightarrow> bool \<Rightarrow> 's \<times> (dn_client_error, u64) result" where
  "client_put_block rpc s block eof =
     rpc_upd (rpc_put_block rpc s
       \<lparr>pbq_block_data = Some (block_data_to_wire block), pbq_eof = eof, pbq_request_id = ''''\<rparr>)"

definition client_get_block :: "'s dn_rpc \<Rightarrow> 's \<Rightarrow> block_id \<Rightarrow> (dn_client_error, block_data option) result" where
  "client_get_block rpc s b =
     (case rpc_get_block rpc s \<lparr>gbq_block_id = Some (block_id_to_wire b)\<rparr> of
        Ok r \<Rightarrow>
          rbind (ok_or r (MissingResponseField ''block_data'')) (\<lambda>w.
          rbind (map_err Conversion (block_data_from_wire w)) (\<lambda>bd. Ok (Some bd)))
      | Err st \<Rightarrow> if status_code st = NotFound then Ok None else Err (Rpc st)
      | Panic \<Rightarrow> Panic)"

definition client_delete_block :: "'s dn_rpc \<Rightarrow> 's \<Rightarrow> block_id \<Rightarrow> 's \<times> (dn_client_error, unit) result" where
  "client_delete_block rpc s b =
     rpc_upd (rpc_delete_block rpc s \<lparr>dbq_block_id = Some (block_id_to_wire b), dbq_request_id = ''''\<rparr>)"

text \<open>Reading the pages of \<open>list_blocks\<close>; the flag says that the stream ends with the list.\<close>

fun drain_pages ::
    "bool \<Rightarrow> (status, list_blocks_response) result list \<Rightarrow> block_data list
       \<Rightarrow> (dn_client_error, block_data list) result option" where
  "drain_pages ended [] out = (if ended then Some (Ok out) else None)"
| "drain_pages ended (m # ms) out =
     (case m of
        Ok page \<Rightarrow>
          (case rmap_list block_data_from_wire (lbr_blocks page) of
             Ok bds \<Rightarrow> drain_pages ended ms (out @ bds)
           | Err e \<Rightarrow> Some (Err (Conversion e))
           | Panic \<Rightarrow> Some Panic)
      | Err st \<Rightarrow> Some (Err (Rpc st))
      | Panic \<Rightarrow> Some Panic)"

definition client_list_blocks ::
    "'s dn_rpc \<Rightarrow> 's \<Rightarrow> container_id \<Rightarrow> u64 \<Rightarrow> u32 \<Rightarrow> nat \<Rightarrow> (dn_client_error, block_data list) result option" where
  "client_list_blocks rpc s c start page_size n =
     (case rpc_list_blocks rpc s \<lparr>lbq_container_id = Some (container_id_to_wire c), lbq_start_local_id = start,
         lbq_page_size = page_size\<rparr> n of
        Ok ms \<Rightarrow> drain_pages (length ms < n) ms []
      | Err st \<Rightarrow> Some (Err (Rpc st))
      | Panic \<Rightarrow> Some Panic)"

text \<open>The frames of a chunk: the header on the first, \<open>last\<close> on the one that reaches the end.\<close>

function write_frames :: "write_chunk_header \<Rightarrow> bytes \<Rightarrow> nat \<Rightarrow> bool \<Rightarrow> write_chunk_request list" where
  "write_frames header data off first =
     (if off < length data then
        let stop = min (off + WRITE_FRAME_BYTES) (length data)
        in \<lparr>wcq_header = (if first then Some header else None),
            wcq_payload = take (stop - off) (drop off data), wcq_last = (stop = length data)\<rparr>
           # write_frames header data stop False
      else [])"
  by auto
termination by (relation "measure (\<lambda>(_, data, off, _). length data - off)") (auto simp: WRITE_FRAME_BYTES_def)

declare write_frames.simps [simp del]

definition client_write_chunk ::
    "'s dn_rpc \<Rightarrow> 's \<Rightarrow> block_id \<Rightarrow> chunk_info \<Rightarrow> bytes \<Rightarrow> 's \<times> (dn_client_error, u64) result" where
  "client_write_chunk rpc s block chunk data =
     (let header = \<lparr>wch_block_id = Some (block_id_to_wire block),
            wch_chunk_info = Some (chunk_info_to_wire chunk), wch_request_id = ''''\<rparr>;
          msgs = (if data = [] then [\<lparr>wcq_header = Some header, wcq_payload = [], wcq_last = True\<rparr>]
                  else write_frames header data 0 True)
      in rpc_upd (rpc_write_chunk rpc s msgs))"

fun collect_frames :: "(status, read_chunk_response) result list \<Rightarrow> bytes \<Rightarrow> (dn_client_error, bytes) result" where
  "collect_frames [] buf = Ok buf"
| "collect_frames (m # ms) buf =
     rbind (map_err Rpc m) (\<lambda>msg.
     let buf' = buf @ rcr_payload msg
     in if rcr_last msg then Ok buf' else collect_frames ms buf')"

definition client_read_chunk ::
    "'s dn_rpc \<Rightarrow> 's \<Rightarrow> block_id \<Rightarrow> chunk_info \<Rightarrow> bool \<Rightarrow> (dn_client_error, bytes) result" where
  "client_read_chunk rpc s block chunk check =
     rbind (map_err Rpc (rpc_read_chunk rpc s
       \<lparr>rcq_block_id = Some (block_id_to_wire block), rcq_chunk_info = Some (chunk_info_to_wire chunk),
        rcq_verify = check\<rparr>)) (\<lambda>ms. collect_frames ms [])"

section \<open>Frames\<close>

text \<open>What the client sends the server receives, whatever the size.\<close>

lemma receive_write_frames:
  assumes "off < length data" "first \<longleftrightarrow> h = None" "first \<or> h = Some header"
  shows "receive_chunk (map Ok (write_frames header data off first)) h buf = Ok (Some header, buf @ drop off data)"
  using assms
proof (induction header data off first arbitrary: h buf rule: write_frames.induct)
  case (1 header data off first)
  let ?s = "min (off + WRITE_FRAME_BYTES) (length data)"
  have pos: "off < ?s" using "1.prems" by (simp add: WRITE_FRAME_BYTES_def)
  have split: "take (?s - off) (drop off data) @ drop ?s data = drop off data"
    using pos by (metis append_take_drop_id drop_drop le_add_diff_inverse2 less_imp_le)
  show ?case
  proof (cases "?s = length data")
    case True
    then have "take (?s - off) (drop off data) = drop off data" by simp
    with True "1.prems" show ?thesis by (subst write_frames.simps) (auto simp: Let_def)
  next
    case False
    then have "?s < length data" by linarith
    with "1.IH" [OF _ refl, of "Some header" "buf @ take (?s - off) (drop off data)"] "1.prems" False
    have "receive_chunk (map Ok (write_frames header data ?s False)) (Some header)
        (buf @ take (?s - off) (drop off data)) = Ok (Some header, buf @ take (?s - off) (drop off data) @ drop ?s data)"
      by simp
    with split False "1.prems" show ?thesis by (subst write_frames.simps) (auto simp: Let_def)
  qed
qed

lemma collect_frames_of:
  "collect_frames (map Ok (map (\<lambda>(i, f). \<lparr>rcr_payload = f, rcr_last = (i = n + length fs)\<rparr>) (enumerate (Suc n) (fs :: bytes list)))) buf =
   Ok (buf @ concat fs)"
proof (induction fs arbitrary: n buf)
  case (Cons f fs)
  then show ?case using Cons [of "Suc n" "buf @ f"] by (cases fs) simp_all
qed simp

end
