(* ===== verification/Fjall_Store.thy ===== *)
theory Fjall_Store
  imports Storage_Traits "HOL-Library.Sublist"
begin

text \<open>
  \<open>crates/ozone-fjall-store/src/lib.rs\<close>: container and block metadata in two partitions of a
  fjall keyspace, values encoded with postcard. Both crates are third-party: the keyspace's
  operations are the record \<open>fjall\<close>, the codec the record \<open>postcard\<close> (over any type \<open>'v\<close> of encoded
  values), and the locale \<open>fjall_contract\<close> states their documented behaviour, failures included.
  The write lock makes every mutation one step, so an operation takes the keyspace and gives
  the new one.
\<close>

section \<open>The third-party interfaces\<close>

datatype partition = Containers | Blocks

datatype 'v batch_op = Insert partition bytes 'v | Remove partition bytes

record ('st, 'v) fjall =
  fj_contains_key :: "'st \<Rightarrow> partition \<Rightarrow> bytes \<Rightarrow> (string, bool) result"
  fj_get :: "'st \<Rightarrow> partition \<Rightarrow> bytes \<Rightarrow> (string, 'v option) result"
  fj_insert :: "'st \<Rightarrow> partition \<Rightarrow> bytes \<Rightarrow> 'v \<Rightarrow> 'st \<times> (string, unit) result"
  fj_prefix :: "'st \<Rightarrow> partition \<Rightarrow> bytes \<Rightarrow> (string, bytes \<times> 'v) result list"
  fj_commit :: "'st \<Rightarrow> 'v batch_op list \<Rightarrow> 'st \<times> (string, unit) result"

section \<open>Records and keys\<close>

record stored_container =
  st_info :: container_info
  st_bcsi :: u64

record 'v postcard =
  pc_enc_container :: "stored_container \<Rightarrow> (string, 'v) result"
  pc_dec_container :: "'v \<Rightarrow> (string, stored_container) result"
  pc_enc_block :: "block_data \<Rightarrow> (string, 'v) result"
  pc_dec_block :: "'v \<Rightarrow> (string, block_data) result"

definition container_key :: "container_id \<Rightarrow> bytes" where
  "container_key c = be_bytes c"

definition block_key :: "block_id \<Rightarrow> bytes" where
  "block_key b = be_bytes (bid_container b) @ be_bytes (bid_local b) @ [bid_replica b]"

definition fj :: "(string, 'a) result \<Rightarrow> (storage_error, 'a) result" where
  "fj r = map_err Meta r"

definition fj_encode :: "(string, 'v) result \<Rightarrow> (storage_error, 'v) result" where
  "fj_encode r = map_err (\<lambda>e. Corrupt (''encode: '' @ e)) r"

definition fj_decode :: "(string, 'a) result \<Rightarrow> (storage_error, 'a) result" where
  "fj_decode r = map_err (\<lambda>e. Corrupt (''decode: '' @ e)) r"

definition fj_upd :: "'st \<times> (string, unit) result \<Rightarrow> 'st \<times> (storage_error, unit) result" where
  "fj_upd m = (fst m, fj (snd m))"

section \<open>Operations\<close>

definition fjall_create_container ::
    "('st, 'v) fjall \<Rightarrow> 'v postcard \<Rightarrow> 'st \<Rightarrow> container_info \<Rightarrow> 'st \<times> (storage_error, unit) result" where
  "fjall_create_container F P st info =
     (let key = container_key (cinfo_container_id info) in
      try_st st (fj (fj_contains_key F st Containers key)) (\<lambda>present.
      if present then (st, Err (ContainerExists (cinfo_container_id info)))
      else
        let record = \<lparr>st_info = info, st_bcsi = 0\<rparr> in
        try_st st (fj_encode (pc_enc_container P record)) (\<lambda>v.
        fj_upd (fj_insert F st Containers key v))))"

definition fjall_get_container ::
    "('st, 'v) fjall \<Rightarrow> 'v postcard \<Rightarrow> 'st \<Rightarrow> container_id \<Rightarrow> (storage_error, container_info option) result" where
  "fjall_get_container F P st c =
     rbind (fj (fj_get F st Containers (container_key c))) (\<lambda>found.
     case found of
       Some v \<Rightarrow> rbind (fj_decode (pc_dec_container P v)) (\<lambda>r. Ok (Some (st_info r)))
     | None \<Rightarrow> Ok None)"

definition fjall_set_container_state ::
    "('st, 'v) fjall \<Rightarrow> 'v postcard \<Rightarrow> 'st \<Rightarrow> container_id \<Rightarrow> container_state
       \<Rightarrow> 'st \<times> (storage_error, unit) result" where
  "fjall_set_container_state F P st c state =
     (let key = container_key c in
      try_st st (fj (fj_get F st Containers key)) (\<lambda>found.
      case found of
        None \<Rightarrow> (st, Err (ContainerNotFound c))
      | Some v \<Rightarrow>
          try_st st (fj_decode (pc_dec_container P v)) (\<lambda>record.
          let record' = record\<lparr>st_info := (st_info record)\<lparr>cinfo_state := state\<rparr>\<rparr> in
          try_st st (fj_encode (pc_enc_container P record')) (\<lambda>v'.
          fj_upd (fj_insert F st Containers key v')))))"

definition fjall_list_containers ::
    "('st, 'v) fjall \<Rightarrow> 'v postcard \<Rightarrow> 'st \<Rightarrow> (storage_error, container_info list) result" where
  "fjall_list_containers F P st =
     rmap_list (\<lambda>kv. rbind (fj kv) (\<lambda>(_, v). rbind (fj_decode (pc_dec_container P v)) (\<lambda>r. Ok (st_info r))))
       (fj_prefix F st Containers [])"

definition fjall_delete_container ::
    "('st, 'v) fjall \<Rightarrow> 'v postcard \<Rightarrow> 'st \<Rightarrow> container_id \<Rightarrow> 'st \<times> (storage_error, unit) result" where
  "fjall_delete_container F P st c =
     (let ckey = container_key c in
      try_st st (rmap_list (\<lambda>kv. rbind (fj kv) (\<lambda>(k, _). Ok (Remove Blocks k))) (fj_prefix F st Blocks ckey)) (\<lambda>batch.
      fj_upd (fj_commit F st (batch @ [Remove Containers ckey]))))"

definition fjall_put_block ::
    "('st, 'v) fjall \<Rightarrow> 'v postcard \<Rightarrow> 'st \<Rightarrow> block_data \<Rightarrow> 'st \<times> (storage_error, u64) result" where
  "fjall_put_block F P st block =
     (let cid = bid_container (bd_block_id block); ckey = container_key cid in
      try_st st (fj (fj_get F st Containers ckey)) (\<lambda>found.
      case found of
        None \<Rightarrow> (st, Err (ContainerNotFound cid))
      | Some v \<Rightarrow>
          try_st st (fj_decode (pc_dec_container P v)) (\<lambda>record.
          if \<not> is_writable (cinfo_state (st_info record))
          then (st, Err (ContainerNotOpen cid (cinfo_state (st_info record))))
          else
            let bkey = block_key (bd_block_id block); new_len = block_data_len block; info = st_info record in
            try_st st (fj (fj_get F st Blocks bkey)) (\<lambda>prev.
            try_st st (case prev of
                Some pv \<Rightarrow> rbind (fj_decode (pc_dec_block P pv)) (\<lambda>p.
                  Ok (info\<lparr>cinfo_used_bytes :=
                        saturating_sub (cinfo_used_bytes info) (block_data_len p) + new_len\<rparr>))
              | None \<Rightarrow> Ok (info\<lparr>cinfo_block_count := cinfo_block_count info + 1,
                               cinfo_used_bytes := cinfo_used_bytes info + new_len\<rparr>)) (\<lambda>info'.
            let record' = \<lparr>st_info = info', st_bcsi = st_bcsi record + 1\<rparr>; new_bcsi = st_bcsi record' in
            try_st st (fj_encode (pc_enc_block P block)) (\<lambda>bv.
            try_st st (fj_encode (pc_enc_container P record')) (\<lambda>cv.
            try_upd (fj_upd (fj_commit F st [Insert Blocks bkey bv, Insert Containers ckey cv])) (\<lambda>st' _.
            (st', Ok new_bcsi))))))))) "

definition fjall_get_block ::
    "('st, 'v) fjall \<Rightarrow> 'v postcard \<Rightarrow> 'st \<Rightarrow> block_id \<Rightarrow> (storage_error, block_data option) result" where
  "fjall_get_block F P st b =
     rbind (fj (fj_get F st Blocks (block_key b))) (\<lambda>found.
     case found of
       Some v \<Rightarrow> rbind (fj_decode (pc_dec_block P v)) (\<lambda>bd. Ok (Some bd))
     | None \<Rightarrow> Ok None)"

definition fjall_delete_block ::
    "('st, 'v) fjall \<Rightarrow> 'v postcard \<Rightarrow> 'st \<Rightarrow> block_id \<Rightarrow> 'st \<times> (storage_error, unit) result" where
  "fjall_delete_block F P st b =
     (let bkey = block_key b in
      try_st st (fj (fj_get F st Blocks bkey)) (\<lambda>found.
      case found of
        None \<Rightarrow> (st, Ok ())
      | Some v \<Rightarrow>
          try_st st (fj_decode (pc_dec_block P v)) (\<lambda>existing.
          let ckey = container_key (bid_container b) in
          try_st st (fj (fj_get F st Containers ckey)) (\<lambda>cfound.
          try_st st (case cfound of
              None \<Rightarrow> Ok [Remove Blocks bkey]
            | Some cv \<Rightarrow>
                rbind (fj_decode (pc_dec_container P cv)) (\<lambda>record.
                let info = st_info record;
                    info' = info\<lparr>cinfo_block_count := saturating_sub (cinfo_block_count info) 1,
                                 cinfo_used_bytes := saturating_sub (cinfo_used_bytes info) (block_data_len existing)\<rparr>
                in rbind (fj_encode (pc_enc_container P (record\<lparr>st_info := info'\<rparr>))) (\<lambda>cv'.
                   Ok [Remove Blocks bkey, Insert Containers ckey cv']))) (\<lambda>batch.
          fj_upd (fj_commit F st batch))))))"

text \<open>The scan of \<open>list_blocks\<close>: skip, stop when the page is full, or push.\<close>

fun list_scan ::
    "'v postcard \<Rightarrow> u64 \<Rightarrow> nat \<Rightarrow> (string, bytes \<times> 'v) result list \<Rightarrow> block_data list
       \<Rightarrow> (storage_error, block_page) result" where
  "list_scan P start limit [] out = Ok \<lparr>bp_blocks = out, bp_next_local_id = None\<rparr>"
| "list_scan P start limit (kv # kvs) out =
     rbind (fj kv) (\<lambda>(_, v).
     rbind (fj_decode (pc_dec_block P v)) (\<lambda>bd.
     let lid = bid_local (bd_block_id bd) in
     if lid < start then list_scan P start limit kvs out
     else if length out \<ge> limit then Ok \<lparr>bp_blocks = out, bp_next_local_id = Some lid\<rparr>
     else list_scan P start limit kvs (out @ [bd])))"

definition fjall_list_blocks ::
    "('st, 'v) fjall \<Rightarrow> 'v postcard \<Rightarrow> 'st \<Rightarrow> container_id \<Rightarrow> u64 \<Rightarrow> nat
       \<Rightarrow> (storage_error, block_page) result" where
  "fjall_list_blocks F P st c start limit =
     list_scan P start limit (fj_prefix F st Blocks (container_key c)) []"

definition fjall_meta_store :: "('st, 'v) fjall \<Rightarrow> 'v postcard \<Rightarrow> 'st meta_ops" where
  "fjall_meta_store F P =
     \<lparr>mo_create_container = fjall_create_container F P,
      mo_get_container = fjall_get_container F P,
      mo_set_container_state = fjall_set_container_state F P,
      mo_list_containers = fjall_list_containers F P,
      mo_delete_container = fjall_delete_container F P,
      mo_put_block = fjall_put_block F P,
      mo_get_block = fjall_get_block F P,
      mo_delete_block = fjall_delete_block F P,
      mo_list_blocks = fjall_list_blocks F P\<rparr>"

section \<open>The contract of the keyspace and the codec\<close>

definition entries :: "(bytes \<rightharpoonup> 'v) \<Rightarrow> bytes \<Rightarrow> (bytes \<times> 'v) list" where
  "entries kv pre = map (\<lambda>k. (k, the (kv k))) (sorted_list_of_set {k \<in> dom kv. prefix pre k})"

fun apply_op :: "'v batch_op \<Rightarrow> (partition \<Rightarrow> bytes \<rightharpoonup> 'v) \<Rightarrow> partition \<Rightarrow> bytes \<rightharpoonup> 'v" where
  "apply_op (Insert p k v) kv = kv(p := (kv p)(k \<mapsto> v))"
| "apply_op (Remove p k) kv = kv(p := (kv p)(k := None))"

locale fjall_contract =
  fixes F :: "('st, 'v) fjall" and P :: "'v postcard" and kv :: "'st \<Rightarrow> partition \<Rightarrow> bytes \<rightharpoonup> 'v"
  assumes get_Ok: "fj_get F st p k = Ok found \<Longrightarrow> found = kv st p k"
    and get_total: "fj_get F st p k \<noteq> Panic"
    and contains_Ok: "fj_contains_key F st p k = Ok present \<Longrightarrow> present \<longleftrightarrow> kv st p k \<noteq> None"
    and contains_total: "fj_contains_key F st p k \<noteq> Panic"
    and insert_Ok: "fj_insert F st p k v = (st', Ok u) \<Longrightarrow> kv st' = apply_op (Insert p k v) (kv st)"
    and insert_Err: "fj_insert F st p k v = (st', Err e) \<Longrightarrow> kv st' = kv st"
    and insert_total: "snd (fj_insert F st p k v) \<noteq> Panic"
    and prefix_scan: "fj_prefix F st p pre = map Ok (entries (kv st p) pre) \<or>
      (\<exists>es e rest. fj_prefix F st p pre = map Ok es @ Err e # rest \<and> prefix es (entries (kv st p) pre))"
    and commit_Ok: "fj_commit F st ops = (st', Ok u) \<Longrightarrow> kv st' = fold apply_op ops (kv st)"
    and commit_Err: "fj_commit F st ops = (st', Err e) \<Longrightarrow> kv st' = kv st"
    and commit_total: "snd (fj_commit F st ops) \<noteq> Panic"
    and finite_kv: "finite (dom (kv st p))"
    and container_codec: "pc_enc_container P c = Ok v \<Longrightarrow> pc_dec_container P v = Ok c"
    and block_codec: "pc_enc_block P bd = Ok v \<Longrightarrow> pc_dec_block P v = Ok bd"
    and codec_total: "pc_enc_container P c \<noteq> Panic" "pc_dec_container P v \<noteq> Panic"
      "pc_enc_block P bd \<noteq> Panic" "pc_dec_block P v \<noteq> Panic"

section \<open>Big-endian keys sort numerically\<close>

primrec be_val :: "bytes \<Rightarrow> nat" where
  "be_val [] = 0"
| "be_val (x # xs) = unat x * 256 ^ length xs + be_val xs"

lemma be_val_less: "be_val xs < 256 ^ length xs"
proof (induction xs)
  case (Cons x xs)
  have "unat x * 256 ^ length xs + be_val xs < unat x * 256 ^ length xs + 256 ^ length xs"
    using Cons by simp
  also have "\<dots> = Suc (unat x) * 256 ^ length xs" by simp
  also have "\<dots> \<le> 256 * 256 ^ length xs"
    using unat_u8_less [of x] by (intro mult_le_mono1) simp
  finally show ?case by simp
qed simp

lemma be_val_order: "length xs = length ys \<Longrightarrow> xs < ys \<longleftrightarrow> be_val xs < be_val ys"
proof (induction xs ys rule: list_induct2)
  case (Cons x xs y ys)
  have lt: "unat a * 256 ^ length xs + be_val as < unat b * 256 ^ length xs + be_val bs"
    if "a < b" "length as = length xs" for a b :: u8 and as bs
  proof -
    have "unat a * 256 ^ length xs + be_val as < Suc (unat a) * 256 ^ length xs"
      using be_val_less [of as] that(2) by simp
    also have "\<dots> \<le> unat b * 256 ^ length xs"
      using that(1) by (intro mult_le_mono1) (simp add: word_less_nat_alt Suc_le_eq)
    finally show ?thesis by simp
  qed
  show ?case
  proof (cases x y rule: linorder_cases)
    case less
    then show ?thesis using Cons.hyps lt [of x y xs ys] by simp
  next
    case equal
    then show ?thesis using Cons by simp
  next
    case greater
    then show ?thesis using Cons.hyps lt [of y x ys xs] by (auto simp: less_not_sym)
  qed
qed simp

lemma be_val_digits:
  "be_val (map (\<lambda>i. of_nat (n div 256 ^ (m - 1 - i))) [0..<m]) = n mod 256 ^ m"
proof (induction m)
  case (Suc m)
  have "map (\<lambda>i. (of_nat (n div 256 ^ (Suc m - 1 - i)) :: u8)) [0..<Suc m] =
      of_nat (n div 256 ^ m) # map (\<lambda>i. of_nat (n div 256 ^ (m - 1 - i))) [0..<m]"
    by (simp add: upt_conv_Cons map_Suc_upt [symmetric] del: upt_Suc map_Suc_upt)
  then have "be_val (map (\<lambda>i. (of_nat (n div 256 ^ (Suc m - 1 - i)) :: u8)) [0..<Suc m]) =
      unat (of_nat (n div 256 ^ m) :: u8) * 256 ^ m + n mod 256 ^ m"
    using Suc by (simp only: be_val.simps length_map length_upt diff_zero)
  also have "unat (of_nat (n div 256 ^ m) :: u8) = n div 256 ^ m mod 256"
    by (simp add: unat_of_nat)
  also have "n div 256 ^ m mod 256 * 256 ^ m + n mod 256 ^ m = n mod (256 ^ m * 256)"
    by (simp add: mod_mult2_eq)
  finally show ?case by (simp add: mult.commute)
qed simp

lemma drop_bit_nat_eq: "drop_bit n m = m div 2 ^ n" for m :: nat
  by (rule drop_bit_eq_div)

lemma be_val_be_bytes: "be_val (be_bytes w) = unat w"
proof -
  have "be_bytes w = map (\<lambda>i. of_nat (unat w div 256 ^ (8 - 1 - i))) [0..<8]"
  proof (rule nth_equalityI)
    fix i assume "i < length (be_bytes w)"
    then have i: "i < 8" by simp
    have "(256 :: nat) ^ (7 - i) = 2 ^ (8 * (7 - i))" by (simp add: power_mult)
    then have "unat (drop_bit (8 * (7 - i)) w) = unat w div 256 ^ (7 - i)"
      using unsigned_less [of w, where 'a = nat]
      by (simp only: unsigned_drop_bit_eq take_bit_nat_eq_self drop_bit_nat_eq)
    then have "(ucast (drop_bit (8 * (7 - i)) w) :: u8) = of_nat (unat w div 256 ^ (7 - i))"
      by (metis of_nat_unat)
    with i show "be_bytes w ! i = map (\<lambda>i. of_nat (unat w div 256 ^ (8 - 1 - i))) [0..<8] ! i"
      by (simp add: be_bytes_def)
  qed simp
  then have "be_val (be_bytes w) = unat w mod 256 ^ 8"
    using be_val_digits [of "unat w" 8] by simp
  also have "\<dots> = unat w" using unsigned_less [of w, where 'a = nat] by simp
  finally show ?thesis .
qed

lemma be_bytes_less [simp]: "be_bytes a < be_bytes b \<longleftrightarrow> a < b"
  by (simp add: be_val_order be_val_be_bytes word_less_nat_alt)

lemma be_bytes_inject [simp]: "be_bytes a = be_bytes b \<longleftrightarrow> a = b"
proof
  assume "be_bytes a = be_bytes b"
  then have "be_val (be_bytes a) = be_val (be_bytes b)" by simp
  then show "a = b" by (simp add: be_val_be_bytes)
qed simp

text \<open>Keys of one container compare by local id, then by replica slot.\<close>

lemma append_less_same: "length a = length b \<Longrightarrow> a @ x < b @ y \<longleftrightarrow> a < b \<or> (a = b \<and> x < y)"
  for a b :: "'a::linorder list"
  by (induction a b rule: list_induct2) auto

lemma block_key_less:
  "bid_container a = bid_container b \<Longrightarrow>
   block_key a < block_key b \<longleftrightarrow> (bid_local a, bid_replica a) < (bid_local b, bid_replica b)"
  by (auto simp: block_key_def append_less_same less_prod_def)

lemma block_key_inject [simp]: "block_key a = block_key b \<longleftrightarrow> a = b"
proof
  assume "block_key a = block_key b"
  then have "bid_container a = bid_container b" "bid_local a = bid_local b" "bid_replica a = bid_replica b"
    by (simp_all add: block_key_def)
  then show "a = b" by simp
qed simp

lemma container_key_inject [simp]: "container_key a = container_key b \<longleftrightarrow> a = b"
  by (simp add: container_key_def)

lemma prefix_block_key [simp]: "prefix (container_key c) (block_key b) \<longleftrightarrow> bid_container b = c"
  by (auto simp: container_key_def block_key_def prefix_def append_eq_append_conv)

section \<open>The committed contents\<close>

definition fj_wf :: "'v postcard \<Rightarrow> (partition \<Rightarrow> bytes \<rightharpoonup> 'v) \<Rightarrow> bool" where
  "fj_wf P m \<longleftrightarrow>
     (\<forall>k v. m Containers k = Some v \<longrightarrow>
        (\<exists>r. pc_dec_container P v = Ok r \<and> k = container_key (cinfo_container_id (st_info r)))) \<and>
     (\<forall>k v. m Blocks k = Some v \<longrightarrow>
        (\<exists>bd. pc_dec_block P v = Ok bd \<and> k = block_key (bd_block_id bd)))"

definition fj_abs :: "'v postcard \<Rightarrow> (partition \<Rightarrow> bytes \<rightharpoonup> 'v) \<Rightarrow> meta_view" where
  "fj_abs P m =
     \<lparr>mv_containers = (\<lambda>c. map_option (\<lambda>v. let r = the_ok (pc_dec_container P v) in (st_info r, st_bcsi r))
                           (m Containers (container_key c))),
      mv_blocks = (\<lambda>b. map_option (\<lambda>v. the_ok (pc_dec_block P v)) (m Blocks (block_key b)))\<rparr>"

lemma fj_wf_container:
  assumes "fj_wf P m" "m Containers (container_key c) = Some v"
  obtains r where "pc_dec_container P v = Ok r" "cinfo_container_id (st_info r) = c"
    "mv_containers (fj_abs P m) c = Some (st_info r, st_bcsi r)"
proof -
  obtain r where "pc_dec_container P v = Ok r" "container_key c = container_key (cinfo_container_id (st_info r))"
    using assms unfolding fj_wf_def by blast
  with assms(2) show thesis by (intro that) (simp_all add: fj_abs_def)
qed

lemma fj_wf_block:
  assumes "fj_wf P m" "m Blocks (block_key b) = Some v"
  obtains bd where "pc_dec_block P v = Ok bd" "bd_block_id bd = b" "mv_blocks (fj_abs P m) b = Some bd"
proof -
  obtain bd where "pc_dec_block P v = Ok bd" "block_key b = block_key (bd_block_id bd)"
    using assms unfolding fj_wf_def by blast
  with assms(2) show thesis by (intro that) (simp_all add: fj_abs_def)
qed

lemma fj_abs_None [simp]:
  "mv_containers (fj_abs P m) c = None \<longleftrightarrow> m Containers (container_key c) = None"
  "mv_blocks (fj_abs P m) b = None \<longleftrightarrow> m Blocks (block_key b) = None"
  by (simp_all add: fj_abs_def)

lemma fj_abs_absent [simp]:
  "m Containers (container_key c) = None \<Longrightarrow> mv_containers (fj_abs P m) c = None"
  "m Blocks (block_key b) = None \<Longrightarrow> mv_blocks (fj_abs P m) b = None"
  by simp_all

text \<open>Each batch operation, on the contents.\<close>

lemma fj_insert_container:
  assumes "fj_wf P m" "pc_dec_container P v = Ok r" "cinfo_container_id (st_info r) = c"
  shows "fj_wf P (apply_op (Insert Containers (container_key c) v) m)"
    and "fj_abs P (apply_op (Insert Containers (container_key c) v) m) =
      (fj_abs P m)\<lparr>mv_containers := (mv_containers (fj_abs P m))(c \<mapsto> (st_info r, st_bcsi r))\<rparr>"
  using assms by (auto simp: fj_wf_def fj_abs_def fun_eq_iff)

lemma fj_insert_block:
  assumes "fj_wf P m" "pc_dec_block P v = Ok bd" "bd_block_id bd = b"
  shows "fj_wf P (apply_op (Insert Blocks (block_key b) v) m)"
    and "fj_abs P (apply_op (Insert Blocks (block_key b) v) m) =
      (fj_abs P m)\<lparr>mv_blocks := (mv_blocks (fj_abs P m))(b \<mapsto> bd)\<rparr>"
  using assms by (auto simp: fj_wf_def fj_abs_def fun_eq_iff)

lemma fj_remove_block:
  assumes "fj_wf P m"
  shows "fj_wf P (apply_op (Remove Blocks (block_key b)) m)"
    and "fj_abs P (apply_op (Remove Blocks (block_key b)) m) =
      (fj_abs P m)\<lparr>mv_blocks := (mv_blocks (fj_abs P m))(b := None)\<rparr>"
  using assms by (auto simp: fj_wf_def fj_abs_def fun_eq_iff)

lemma fold_remove:
  "fold apply_op (map (Remove p) ks) m = m(p := (\<lambda>k. if k \<in> set ks then None else m p k))"
  by (induction ks arbitrary: m) (auto simp: fun_eq_iff)

lemma fj_remove_container:
  assumes "fj_wf P m" "set ks = {k \<in> dom (m Blocks). prefix (container_key c) k}"
  shows "fj_wf P (fold apply_op (map (Remove Blocks) ks @ [Remove Containers (container_key c)]) m)"
    and "spec_delete_container (fj_abs P m) c =
      Ok (fj_abs P (fold apply_op (map (Remove Blocks) ks @ [Remove Containers (container_key c)]) m), ())"
  using assms
  by (auto simp: fold_remove fj_wf_def fj_abs_def spec_delete_container_def fun_eq_iff domIff)

section \<open>Scans\<close>

lemma entries_blocks:
  assumes wf: "fj_wf P m" and fin: "finite (dom (m Blocks))"
  shows "map fst (entries (m Blocks) (container_key c)) =
      map (\<lambda>(l, r). block_key (block_id_ec c l r)) (slots_of (fj_abs P m) c)"
    and "finite {(l, r). mv_blocks (fj_abs P m) (block_id_ec c l r) \<noteq> None}"
proof -
  let ?f = "\<lambda>(l, r). block_key (block_id_ec c l r)"
  let ?S = "{(l, r). mv_blocks (fj_abs P m) (block_id_ec c l r) \<noteq> None}"
  let ?K = "{k \<in> dom (m Blocks). prefix (container_key c) k}"
  have inj: "inj ?f" by (auto simp: inj_def)
  have img: "?f ` ?S = ?K"
  proof (intro set_eqI iffI)
    fix k assume "k \<in> ?K"
    then obtain v where v: "m Blocks k = Some v" "prefix (container_key c) k" by auto
    then obtain bd :: block_data where "k = block_key (bd_block_id bd)" using wf unfolding fj_wf_def by blast
    with v show "k \<in> ?f ` ?S"
      by (intro image_eqI [of _ _ "(bid_local (bd_block_id bd), bid_replica (bd_block_id bd))"])
        auto
  qed (auto simp: domIff)
  show fS: "finite ?S"
    by (rule finite_imageD [of ?f]) (use img fin in \<open>auto intro: inj_on_subset [OF inj]\<close>)
  have "sorted_wrt (<) (slots_of (fj_abs P m) c)" by (simp add: slots_of_def)
  then have s1: "sorted_wrt (<) (map ?f (slots_of (fj_abs P m) c))"
    by (auto simp: sorted_wrt_map block_key_less elim!: sorted_wrt_mono_rel [rotated])
  have s2: "sorted_wrt (<) (sorted_list_of_set ?K)" by simp
  have "set (sorted_list_of_set ?K) = set (map ?f (slots_of (fj_abs P m) c))"
    using fS fin img by (simp add: slots_of_def)
  then have "sorted_list_of_set ?K = map ?f (slots_of (fj_abs P m) c)"
    by (rule strict_sorted_equal [OF s1 s2])
  then show "map fst (entries (m Blocks) (container_key c)) = map ?f (slots_of (fj_abs P m) c)"
    by (simp add: entries_def o_def)
qed

lemma entries_decoded:
  assumes wf: "fj_wf P m" and fin: "finite (dom (m Blocks))"
  shows "map (\<lambda>kv. pc_dec_block P (snd kv)) (entries (m Blocks) (container_key c)) =
    map Ok (blocks_of (fj_abs P m) c)"
proof -
  let ?v = "\<lambda>k. the (m Blocks k)"
  have "map (\<lambda>kv. pc_dec_block P (snd kv)) (entries (m Blocks) (container_key c)) =
      map (\<lambda>k. pc_dec_block P (?v k)) (map fst (entries (m Blocks) (container_key c)))"
    by (simp add: entries_def)
  also have "\<dots> = map (\<lambda>(l, r). pc_dec_block P (?v (block_key (block_id_ec c l r)))) (slots_of (fj_abs P m) c)"
    unfolding entries_blocks(1) [OF assms] by (simp add: split_beta)
  also have "\<dots> = map Ok (blocks_of (fj_abs P m) c)"
  proof -
    have "pc_dec_block P (?v (block_key (block_id_ec c l r))) = Ok (the (mv_blocks (fj_abs P m) (block_id_ec c l r)))"
      if "(l, r) \<in> set (slots_of (fj_abs P m) c)" for l r
    proof -
      from that entries_blocks(2) [OF assms, of c] obtain w where w: "m Blocks (block_key (block_id_ec c l r)) = Some w"
        by (auto simp: slots_of_def simp del: fj_abs_None) (auto simp: fj_abs_def)
      from fj_wf_block [OF wf w] obtain bd where "pc_dec_block P w = Ok bd"
        "mv_blocks (fj_abs P m) (block_id_ec c l r) = Some bd"
        by blast
      with w show ?thesis by simp
    qed
    then show ?thesis by (auto simp: blocks_of_def)
  qed
  finally show ?thesis .
qed

text \<open>On successfully read entries the scan is \<open>page_of\<close>.\<close>

lemma list_scan_page:
  assumes "map (\<lambda>kv. pc_dec_block P (snd kv)) es = map Ok bds" "length out \<le> limit"
  shows "list_scan P start limit (map Ok es) out =
    (let rest = filter (\<lambda>bd. start \<le> bid_local (bd_block_id bd)) bds; n = limit - length out
     in Ok \<lparr>bp_blocks = out @ take n rest,
            bp_next_local_id = (if n < length rest then Some (bid_local (bd_block_id (rest ! n))) else None)\<rparr>)"
  using assms
proof (induction es arbitrary: bds out)
  case (Cons kv es)
  then obtain bd bds' where bds: "bds = bd # bds'" "pc_dec_block P (snd kv) = Ok bd"
    "map (\<lambda>kv. pc_dec_block P (snd kv)) es = map Ok bds'"
    by (cases bds) auto
  show ?case
  proof (cases "bid_local (bd_block_id bd) < start \<or> limit \<le> length out")
    case True
    then show ?thesis
      using Cons.IH [OF bds(3) Cons.prems(2)] bds Cons.prems(2)
      by (auto simp: fj_def fj_decode_def split_beta Let_def)
  next
    case False
    then have "limit - length out = Suc (limit - Suc (length out))" by (simp add: Suc_diff_Suc not_le)
    moreover have "start \<le> bid_local (bd_block_id bd)" using False by (simp add: not_less)
    ultimately show ?thesis
      using Cons.IH [OF bds(3), of "out @ [bd]"] bds False
      by (simp add: fj_def fj_decode_def split_beta Let_def)
  qed
qed simp

text \<open>A backend failure during the scan either comes after the page was full or is reported.\<close>

lemma list_scan_failing:
  assumes "\<forall>kv\<in>set es. \<exists>bd. pc_dec_block P (snd kv) = Ok bd"
  shows "list_scan P start limit (map Ok es @ Err e # rest) out = Err (Meta e) \<or>
    list_scan P start limit (map Ok es @ Err e # rest) out = list_scan P start limit (map Ok (es @ es')) out"
  using assms
proof (induction es arbitrary: out)
  case (Cons kv es)
  then obtain bd where "pc_dec_block P (snd kv) = Ok bd" by auto
  with Cons show ?case by (auto simp: fj_def fj_decode_def split_beta Let_def)
qed (simp add: fj_def)

lemma rmap_list_failing:
  assumes "\<forall>kv\<in>set es. \<exists>y. g kv = Ok y"
  shows "rmap_list (\<lambda>kv. rbind (fj kv) g) (map Ok es @ Err e # rest) = Err (Meta e)"
  using assms by (induction es) (auto simp: fj_def)

lemma rmap_list_scan:
  assumes "\<And>kv. kv \<in> set es \<Longrightarrow> g kv = Ok (h kv)"
  shows "rmap_list (\<lambda>kv. rbind (fj kv) g) (map Ok es) = Ok (map h es)"
  using assms by (induction es) (auto simp: fj_def)

section \<open>The store meets the MetaStore contract\<close>

text \<open>
  \<open>lands P kv spec st m\<close>: the outcome \<open>m\<close> of an operation begun in \<open>st\<close> keeps the contents
  well-formed and takes the step \<open>spec\<close> prescribes. One rule per call the operations make turns a
  refinement proof into a walk along the operation's text.
\<close>

definition lands ::
    "'v postcard \<Rightarrow> ('st \<Rightarrow> partition \<Rightarrow> bytes \<rightharpoonup> 'v) \<Rightarrow> (storage_error, meta_view \<times> 'r) result \<Rightarrow> 'st
       \<Rightarrow> 'st \<times> (storage_error, 'r) result \<Rightarrow> bool" where
  "lands P kv spec st m \<longleftrightarrow>
     fj_wf P (kv (fst m)) \<and> refines_step spec (fj_abs P (kv st)) (fj_abs P (kv (fst m))) (snd m)"

lemma lands_backend_error:
  "fj_wf P (kv st) \<Longrightarrow> kv st' = kv st \<Longrightarrow> backend_error e \<Longrightarrow> lands P kv spec st (st', Err e)"
  by (simp add: lands_def refines_step_def)

lemma lands_spec_error:
  "fj_wf P (kv st) \<Longrightarrow> spec = Err e \<Longrightarrow> lands P kv spec st (st, Err e)"
  by (simp add: lands_def refines_step_def)

lemma lands_Ok:
  "fj_wf P (kv st') \<Longrightarrow> spec = Ok (fj_abs P (kv st'), x) \<Longrightarrow> lands P kv spec st (st', Ok x)"
  by (simp add: lands_def refines_step_def)

context fjall_contract begin

lemma lands_get:
  assumes "fj_wf P (kv st)" "lands P kv spec st (f (kv st p k))"
  shows "lands P kv spec st (try_st st (fj (fj_get F st p k)) f)"
  using assms get_Ok [of st p k] get_total [of st p k]
  by (cases "fj_get F st p k") (auto simp: fj_def backend_error_def intro: lands_backend_error)

lemma lands_contains:
  assumes "fj_wf P (kv st)" "lands P kv spec st (f (kv st p k \<noteq> None))"
  shows "lands P kv spec st (try_st st (fj (fj_contains_key F st p k)) f)"
  using assms contains_Ok [of st p k] contains_total [of st p k]
  by (cases "fj_contains_key F st p k") (auto simp: fj_def backend_error_def intro: lands_backend_error)

lemma lands_encode_container:
  assumes "fj_wf P (kv st)" "\<And>v. pc_dec_container P v = Ok r \<Longrightarrow> lands P kv spec st (f v)"
  shows "lands P kv spec st (try_st st (fj_encode (pc_enc_container P r)) f)"
  using assms container_codec [of r] codec_total(1) [of r]
  by (cases "pc_enc_container P r") (auto simp: fj_encode_def backend_error_def intro: lands_backend_error)

lemma lands_encode_block:
  assumes "fj_wf P (kv st)" "\<And>v. pc_dec_block P v = Ok r \<Longrightarrow> lands P kv spec st (f v)"
  shows "lands P kv spec st (try_st st (fj_encode (pc_enc_block P r)) f)"
  using assms block_codec [of r] codec_total(3) [of r]
  by (cases "pc_enc_block P r") (auto simp: fj_encode_def backend_error_def intro: lands_backend_error)

lemma lands_insert:
  assumes "fj_wf P (kv st)" "\<And>st'. kv st' = apply_op (Insert p k v) (kv st) \<Longrightarrow> lands P kv spec st (st', Ok ())"
  shows "lands P kv spec st (fj_upd (fj_insert F st p k v))"
  using assms insert_Ok [of st p k v] insert_Err [of st p k v] insert_total [of st p k v]
  by (cases "fj_insert F st p k v"; cases "snd (fj_insert F st p k v)")
    (auto simp: fj_def fj_upd_def backend_error_def intro: lands_backend_error)

lemma lands_commit:
  assumes "fj_wf P (kv st)" "\<And>st'. kv st' = fold apply_op ops (kv st) \<Longrightarrow> lands P kv spec st (st', Ok x)"
  shows "lands P kv spec st (try_upd (fj_upd (fj_commit F st ops)) (\<lambda>st' _. (st', Ok x)))"
  using assms commit_Ok [of st ops] commit_Err [of st ops] commit_total [of st ops]
  by (cases "fj_commit F st ops"; cases "snd (fj_commit F st ops)")
    (auto simp: fj_def fj_upd_def backend_error_def intro: lands_backend_error)

lemma commit_unit: "try_upd (fj_upd (fj_commit F st ops)) (\<lambda>st' _. (st', Ok ())) = fj_upd (fj_commit F st ops)"
  by (cases "fj_commit F st ops"; cases "snd (fj_commit F st ops)") (auto simp: fj_def fj_upd_def)

lemmas lands_commit_unit = lands_commit [where x = "()", unfolded commit_unit]

lemma create_container_lands:
  assumes wf: "fj_wf P (kv st)"
  shows "lands P kv (spec_create_container (fj_abs P (kv st)) info) st (fjall_create_container F P st info)"
proof (cases "kv st Containers (container_key (cinfo_container_id info))")
  case None
  show ?thesis
    unfolding fjall_create_container_def Let_def
    by (intro lands_contains wf) (use None wf in \<open>auto intro!: lands_encode_container lands_insert lands_Ok
      simp: fj_insert_container spec_create_container_def simp del: apply_op.simps\<close>)
next
  case (Some v)
  show ?thesis
    unfolding fjall_create_container_def Let_def
    by (intro lands_contains wf) (use Some wf in \<open>auto intro!: lands_spec_error simp: spec_create_container_def\<close>)
qed

lemma set_container_state_lands:
  assumes wf: "fj_wf P (kv st)"
  shows "lands P kv (spec_set_container_state (fj_abs P (kv st)) c s) st (fjall_set_container_state F P st c s)"
proof (cases "kv st Containers (container_key c)")
  case None
  then show ?thesis
    unfolding fjall_set_container_state_def Let_def
    by (intro lands_get wf) (use None wf in \<open>auto intro!: lands_spec_error simp: spec_set_container_state_def\<close>)
next
  case (Some v)
  from fj_wf_container [OF wf Some] obtain r where r: "pc_dec_container P v = Ok r" "cinfo_container_id (st_info r) = c"
    "mv_containers (fj_abs P (kv st)) c = Some (st_info r, st_bcsi r)"
    by blast
  show ?thesis
    unfolding fjall_set_container_state_def Let_def
    by (intro lands_get wf) (use Some wf r in \<open>auto intro!: lands_encode_container lands_insert lands_Ok
      simp: fj_insert_container fj_decode_def spec_set_container_state_def simp del: apply_op.simps\<close>)
qed

lemma put_block_lands:
  assumes wf: "fj_wf P (kv st)"
  shows "lands P kv (spec_put_block (fj_abs P (kv st)) bd) st (fjall_put_block F P st bd)"
proof -
  let ?c = "bid_container (bd_block_id bd)"
  show ?thesis
  proof (cases "kv st Containers (container_key ?c)")
    case None
    show ?thesis
      unfolding fjall_put_block_def Let_def
      by (intro lands_get wf) (use None wf in \<open>auto intro!: lands_spec_error simp: spec_put_block_def Let_def\<close>)
  next
    case (Some v)
    from fj_wf_container [OF wf Some] obtain r where r: "pc_dec_container P v = Ok r" "cinfo_container_id (st_info r) = ?c"
      "mv_containers (fj_abs P (kv st)) ?c = Some (st_info r, st_bcsi r)"
      by blast
    show ?thesis
    proof (cases "kv st Blocks (block_key (bd_block_id bd))")
      case None
      show ?thesis
        unfolding fjall_put_block_def Let_def
        by (intro lands_get wf) (use Some None wf r in \<open>auto intro!: lands_encode_container lands_encode_block lands_get
          lands_commit lands_Ok lands_spec_error
          simp: fj_insert_container fj_insert_block fj_decode_def spec_put_block_def Let_def simp del: apply_op.simps\<close>)
    next
      case (Some w)
      from fj_wf_block [OF wf Some] obtain p where p: "pc_dec_block P w = Ok p"
        "mv_blocks (fj_abs P (kv st)) (bd_block_id bd) = Some p"
        by blast
      show ?thesis
        unfolding fjall_put_block_def Let_def
        by (intro lands_get wf) (use \<open>kv st Containers _ = _\<close> Some wf r p in \<open>auto intro!: lands_encode_container lands_encode_block lands_get
          lands_commit lands_Ok lands_spec_error
          simp: fj_insert_container fj_insert_block fj_decode_def spec_put_block_def Let_def simp del: apply_op.simps\<close>)
    qed
  qed
qed

lemma delete_block_lands:
  assumes wf: "fj_wf P (kv st)"
  shows "lands P kv (spec_delete_block (fj_abs P (kv st)) b) st (fjall_delete_block F P st b)"
proof (cases "kv st Blocks (block_key b)")
  case None
  show ?thesis
    unfolding fjall_delete_block_def Let_def
    by (intro lands_get wf) (use None wf in \<open>auto intro!: lands_Ok simp: spec_delete_block_def\<close>)
next
  case (Some w)
  note blk = this
  from fj_wf_block [OF wf Some] obtain bd where bd: "pc_dec_block P w = Ok bd" "mv_blocks (fj_abs P (kv st)) b = Some bd"
    by blast
  show ?thesis
  proof (cases "kv st Containers (container_key (bid_container b))")
    case None
    show ?thesis
      unfolding fjall_delete_block_def Let_def
      by (intro lands_get wf) (use None blk bd wf in \<open>auto intro!: lands_get lands_commit_unit lands_Ok
        simp: spec_delete_block_def fj_decode_def fj_remove_block simp del: apply_op.simps\<close>)
  next
    case (Some v)
    from fj_wf_container [OF wf Some] obtain r where r: "pc_dec_container P v = Ok r"
      "cinfo_container_id (st_info r) = bid_container b"
      "mv_containers (fj_abs P (kv st)) (bid_container b) = Some (st_info r, st_bcsi r)"
      by blast
    show ?thesis
      unfolding fjall_delete_block_def Let_def
      by (intro lands_get wf) (use Some blk bd r wf in \<open>auto intro!: lands_get
        lands_encode_container lands_commit_unit lands_Ok simp: spec_delete_block_def fj_decode_def try_st_rbind
        fj_remove_block fj_insert_container simp del: apply_op.simps\<close>)
  qed
qed

lemma delete_container_lands:
  assumes wf: "fj_wf P (kv st)"
  shows "lands P kv (spec_delete_container (fj_abs P (kv st)) c) st (fjall_delete_container F P st c)"
proof -
  let ?es = "entries (kv st Blocks) (container_key c)"
  let ?g = "\<lambda>(k, _). Ok (Remove Blocks k)"
  have ks: "set (map fst ?es) = {k \<in> dom (kv st Blocks). prefix (container_key c) k}"
    using finite_kv [of st Blocks] by (simp add: entries_def image_image)
  have batch: "map (\<lambda>kv. Remove Blocks (fst kv)) ?es = map (Remove Blocks) (map fst ?es)" by simp
  from prefix_scan [of st Blocks "container_key c"] show ?thesis
  proof
    assume "fj_prefix F st Blocks (container_key c) = map Ok ?es"
    then show ?thesis
      unfolding fjall_delete_container_def Let_def
      by (simp add: rmap_list_scan [where h = "\<lambda>kv. Remove Blocks (fst kv)"] split_beta)
        (use fj_remove_container [OF wf ks] in \<open>auto intro!: lands_commit_unit lands_Ok wf simp: batch simp del: apply_op.simps fold_append map_map\<close>)
  next
    assume "\<exists>es e rest. fj_prefix F st Blocks (container_key c) = map Ok es @ Err e # rest \<and> prefix es ?es"
    then obtain es e rest where "fj_prefix F st Blocks (container_key c) = map Ok es @ Err e # rest" by blast
    then show ?thesis
      unfolding fjall_delete_container_def Let_def
      by (simp add: rmap_list_failing split_beta backend_error_def wf lands_backend_error)
  qed
qed

lemma get_container_reads:
  assumes wf: "fj_wf P (kv st)"
  shows "refines_read (map_option fst (mv_containers (fj_abs P (kv st)) c)) (fjall_get_container F P st c)"
proof (cases "fj_get F st Containers (container_key c)")
  case (Ok found)
  then have found: "found = kv st Containers (container_key c)" by (rule get_Ok)
  show ?thesis
  proof (cases found)
    case (Some v)
    with found have v: "kv st Containers (container_key c) = Some v" by simp
    from fj_wf_container [OF wf v] obtain r where "pc_dec_container P v = Ok r"
      "mv_containers (fj_abs P (kv st)) c = Some (st_info r, st_bcsi r)"
      by blast
    with Ok Some show ?thesis by (simp add: fjall_get_container_def refines_read_def fj_def fj_decode_def)
  qed (use Ok found in \<open>simp add: fjall_get_container_def refines_read_def fj_def\<close>)
qed (use get_total in \<open>auto simp: fjall_get_container_def refines_read_def backend_error_def fj_def\<close>)

lemma get_block_reads:
  assumes wf: "fj_wf P (kv st)"
  shows "refines_read (mv_blocks (fj_abs P (kv st)) b) (fjall_get_block F P st b)"
proof (cases "fj_get F st Blocks (block_key b)")
  case (Ok found)
  then have found: "found = kv st Blocks (block_key b)" by (rule get_Ok)
  show ?thesis
  proof (cases found)
    case (Some v)
    with found have v: "kv st Blocks (block_key b) = Some v" by simp
    from fj_wf_block [OF wf v] obtain bd where "pc_dec_block P v = Ok bd" "mv_blocks (fj_abs P (kv st)) b = Some bd"
      by blast
    with Ok Some show ?thesis by (simp add: fjall_get_block_def refines_read_def fj_def fj_decode_def)
  qed (use Ok found in \<open>simp add: fjall_get_block_def refines_read_def fj_def\<close>)
qed (use get_total in \<open>auto simp: fjall_get_block_def refines_read_def backend_error_def fj_def\<close>)

lemma list_blocks_reads:
  assumes wf: "fj_wf P (kv st)"
  shows "refines_read (page_of (blocks_of (fj_abs P (kv st)) c) start limit) (fjall_list_blocks F P st c start limit)"
proof -
  let ?es = "entries (kv st Blocks) (container_key c)"
  note dec = entries_decoded [OF wf finite_kv, of c]
  have page: "list_scan P start limit (map Ok ?es) [] = Ok (page_of (blocks_of (fj_abs P (kv st)) c) start limit)"
    using list_scan_page [OF dec, of "[]" limit start] by (simp add: page_of_def Let_def)
  from prefix_scan [of st Blocks "container_key c"] show ?thesis
  proof
    assume "fj_prefix F st Blocks (container_key c) = map Ok ?es"
    then show ?thesis using page by (simp add: fjall_list_blocks_def refines_read_def)
  next
    assume "\<exists>es e rest. fj_prefix F st Blocks (container_key c) = map Ok es @ Err e # rest \<and> prefix es ?es"
    then obtain es e rest es' where scan: "fj_prefix F st Blocks (container_key c) = map Ok es @ Err e # rest"
      and es: "?es = es @ es'"
      by (auto simp: prefix_def)
    have ok: "\<exists>bd. pc_dec_block P (snd kv) = Ok bd" if "kv \<in> set es" for kv
    proof -
      have "pc_dec_block P (snd kv) \<in> set (map (\<lambda>kv. pc_dec_block P (snd kv)) ?es)" using that es by simp
      then show ?thesis unfolding dec by auto
    qed
    then have "\<forall>kv\<in>set es. \<exists>bd. pc_dec_block P (snd kv) = Ok bd" by blast
    from list_scan_failing [OF this, of start limit e rest "[]" es'] page es show ?thesis
      by (auto simp: fjall_list_blocks_def scan refines_read_def backend_error_def)
  qed
qed

lemma container_entries:
  assumes wf: "fj_wf P (kv st)" and kv: "(k, v) \<in> set (entries (kv st Containers) [])"
  obtains r where "pc_dec_container P v = Ok r" "k = container_key (cinfo_container_id (st_info r))"
    "mv_containers (fj_abs P (kv st)) (cinfo_container_id (st_info r)) = Some (st_info r, st_bcsi r)"
proof -
  have v: "kv st Containers k = Some v" using kv finite_kv [of st Containers] by (auto simp: entries_def)
  then obtain r where r: "pc_dec_container P v = Ok r" "k = container_key (cinfo_container_id (st_info r))"
    using wf unfolding fj_wf_def by blast
  with v have "mv_containers (fj_abs P (kv st)) (cinfo_container_id (st_info r)) = Some (st_info r, st_bcsi r)"
    by (simp add: fj_abs_def)
  with r show thesis by (rule that)
qed

lemma list_containers_reads:
  assumes wf: "fj_wf P (kv st)"
  shows "case fjall_list_containers F P st of
      Ok xs \<Rightarrow> distinct (map cinfo_container_id xs) \<and> set xs = fst ` ran (mv_containers (fj_abs P (kv st)))
    | Err e \<Rightarrow> backend_error e | Panic \<Rightarrow> False"
proof -
  let ?es = "entries (kv st Containers) []"
  let ?info = "\<lambda>x. st_info (the_ok (pc_dec_container P (snd x)))"
  let ?g = "\<lambda>(_, v). rbind (fj_decode (pc_dec_container P v)) (\<lambda>r. Ok (st_info r))"
  have g: "?g x = Ok (?info x)" "container_key (cinfo_container_id (?info x)) = fst x"
    "?info x \<in> fst ` ran (mv_containers (fj_abs P (kv st)))" if "x \<in> set ?es" for x
  proof -
    from that have "(fst x, snd x) \<in> set ?es" by simp
    from container_entries [OF wf this] obtain r where "pc_dec_container P (snd x) = Ok r"
      "fst x = container_key (cinfo_container_id (st_info r))"
      "mv_containers (fj_abs P (kv st)) (cinfo_container_id (st_info r)) = Some (st_info r, st_bcsi r)"
      by blast
    then show "?g x = Ok (?info x)" "container_key (cinfo_container_id (?info x)) = fst x"
      "?info x \<in> fst ` ran (mv_containers (fj_abs P (kv st)))"
      by (auto simp: fj_decode_def split_beta intro!: image_eqI ranI)
  qed
  have "map container_key (map (\<lambda>x. cinfo_container_id (?info x)) ?es) = map fst ?es"
    using g(2) by simp
  moreover have "distinct (map fst ?es)" by (simp add: entries_def o_def)
  ultimately have dist: "distinct (map (\<lambda>x. cinfo_container_id (?info x)) ?es)"
    using distinct_map by metis
  have all: "fst x \<in> ?info ` set ?es" if "x \<in> ran (mv_containers (fj_abs P (kv st)))" for x
  proof -
    from that obtain c v where "kv st Containers (container_key c) = Some v"
      "x = (st_info (the_ok (pc_dec_container P v)), st_bcsi (the_ok (pc_dec_container P v)))"
      by (auto simp: ran_def fj_abs_def Let_def)
    then show ?thesis using finite_kv [of st Containers]
      by (auto simp: entries_def image_image intro!: image_eqI [of _ _ "container_key c"])
  qed
  from prefix_scan [of st Containers "[]"] show ?thesis
  proof
    assume "fj_prefix F st Containers [] = map Ok ?es"
    then have "fjall_list_containers F P st = Ok (map ?info ?es)"
      unfolding fjall_list_containers_def using g(1) by (simp add: rmap_list_scan [where h = ?info])
    with dist g(3) all show ?thesis by (auto simp: o_def)
  next
    assume "\<exists>es e rest. fj_prefix F st Containers [] = map Ok es @ Err e # rest \<and> prefix es ?es"
    then obtain es e rest where scan: "fj_prefix F st Containers [] = map Ok es @ Err e # rest" "set es \<subseteq> set ?es"
      by (auto dest: set_mono_prefix)
    then have "\<forall>x\<in>set es. \<exists>y. ?g x = Ok y" using g(1) by blast
    then show ?thesis
      by (simp add: fjall_list_containers_def scan rmap_list_failing backend_error_def)
  qed
qed

lemma abs_ids:
  assumes wf: "fj_wf P (kv st)"
  shows "mv_blocks (fj_abs P (kv st)) b = Some bd \<Longrightarrow> bd_block_id bd = b"
    and "mv_containers (fj_abs P (kv st)) c = Some (info, n) \<Longrightarrow> cinfo_container_id info = c"
    and "finite (dom (mv_blocks (fj_abs P (kv st))))"
proof -
  show "bd_block_id bd = b" if "mv_blocks (fj_abs P (kv st)) b = Some bd"
  proof -
    from that obtain v where v: "kv st Blocks (block_key b) = Some v" by (auto simp: fj_abs_def)
    from fj_wf_block [OF wf v] that show ?thesis by auto
  qed
  show "cinfo_container_id info = c" if "mv_containers (fj_abs P (kv st)) c = Some (info, n)"
  proof -
    from that obtain v where v: "kv st Containers (container_key c) = Some v" by (auto simp: fj_abs_def)
    from fj_wf_container [OF wf v] that show ?thesis by auto
  qed
  have "block_key ` dom (mv_blocks (fj_abs P (kv st))) \<subseteq> dom (kv st Blocks)" by (auto simp: fj_abs_def)
  then show "finite (dom (mv_blocks (fj_abs P (kv st))))"
    by (meson finite_imageD finite_kv finite_subset inj_onI block_key_inject)
qed

end

sublocale fjall_contract \<subseteq> meta: meta_store_laws "fjall_meta_store F P" "\<lambda>st. fj_abs P (kv st)" "\<lambda>st. fj_wf P (kv st)"
proof unfold_locales
  fix st st' info and r :: "(storage_error, unit) result"
  assume "fj_wf P (kv st)" "mo_create_container (fjall_meta_store F P) st info = (st', r)"
  then show "fj_wf P (kv st') \<and> refines_step (spec_create_container (fj_abs P (kv st)) info) (fj_abs P (kv st)) (fj_abs P (kv st')) r"
    using create_container_lands [of st info] by (simp add: fjall_meta_store_def lands_def)
next
  fix st st' c s and r :: "(storage_error, unit) result"
  assume "fj_wf P (kv st)" "mo_set_container_state (fjall_meta_store F P) st c s = (st', r)"
  then show "fj_wf P (kv st') \<and> refines_step (spec_set_container_state (fj_abs P (kv st)) c s) (fj_abs P (kv st)) (fj_abs P (kv st')) r"
    using set_container_state_lands [of st c s] by (simp add: fjall_meta_store_def lands_def)
next
  fix st st' c and r :: "(storage_error, unit) result"
  assume "fj_wf P (kv st)" "mo_delete_container (fjall_meta_store F P) st c = (st', r)"
  then show "fj_wf P (kv st') \<and> refines_step (spec_delete_container (fj_abs P (kv st)) c) (fj_abs P (kv st)) (fj_abs P (kv st')) r"
    using delete_container_lands [of st c] by (simp add: fjall_meta_store_def lands_def)
next
  fix st st' bd and r :: "(storage_error, u64) result"
  assume "fj_wf P (kv st)" "mo_put_block (fjall_meta_store F P) st bd = (st', r)"
  then show "fj_wf P (kv st') \<and> refines_step (spec_put_block (fj_abs P (kv st)) bd) (fj_abs P (kv st)) (fj_abs P (kv st')) r"
    using put_block_lands [of st bd] by (simp add: fjall_meta_store_def lands_def)
next
  fix st st' b and r :: "(storage_error, unit) result"
  assume "fj_wf P (kv st)" "mo_delete_block (fjall_meta_store F P) st b = (st', r)"
  then show "fj_wf P (kv st') \<and> refines_step (spec_delete_block (fj_abs P (kv st)) b) (fj_abs P (kv st)) (fj_abs P (kv st')) r"
    using delete_block_lands [of st b] by (simp add: fjall_meta_store_def lands_def)
qed (auto simp: fjall_meta_store_def get_container_reads get_block_reads list_blocks_reads
  dest: abs_ids intro: abs_ids list_containers_reads)

end
