(* ===== verification/Meta_Counters.thy ===== *)
theory Meta_Counters
  imports Storage_Traits
begin

text \<open>
  The invariant \<open>meta.rs\<close> asks of every \<open>MetaStore\<close>: a container's \<open>block_count\<close> and \<open>used_bytes\<close>
  agree with the set of its committed blocks, and no block outlives its container. It is proved once
  for any store that meets \<open>meta_store_laws\<close>, along any sequence of operations, failing ones included.
\<close>

definition committed :: "meta_view \<Rightarrow> container_id \<Rightarrow> block_id set" where
  "committed v c = {b \<in> dom (mv_blocks v). bid_container b = c}"

definition committed_bytes :: "meta_view \<Rightarrow> container_id \<Rightarrow> nat" where
  "committed_bytes v c = (\<Sum>b\<in>committed v c. unat (block_data_len (the (mv_blocks v b))))"

definition counters_ok :: "meta_view \<Rightarrow> bool" where
  "counters_ok v \<longleftrightarrow>
     (\<forall>b\<in>dom (mv_blocks v). bid_container b \<in> dom (mv_containers v)) \<and>
     (\<forall>c info n. mv_containers v c = Some (info, n) \<longrightarrow>
        unat (cinfo_block_count info) = card (committed v c) \<and>
        unat (cinfo_used_bytes info) = committed_bytes v c)"

text \<open>The counters are 64-bit: the invariant is about containers whose contents they can count.\<close>

definition countable_contents :: "meta_view \<Rightarrow> bool" where
  "countable_contents v \<longleftrightarrow> (\<forall>c. card (committed v c) < 2 ^ 64 \<and> committed_bytes v c < 2 ^ 64)"

inductive meta_steps :: "'m meta_ops \<Rightarrow> ('m \<Rightarrow> meta_view) \<Rightarrow> 'm \<Rightarrow> 'm \<Rightarrow> bool"
  for ops abs m0 where
  start: "meta_steps ops abs m0 m0"
| creating: "meta_steps ops abs m0 m \<Longrightarrow> cinfo_block_count info = 0 \<Longrightarrow> cinfo_used_bytes info = 0 \<Longrightarrow>
    mo_create_container ops m info = (m', r) \<Longrightarrow> meta_steps ops abs m0 m'"
| setting_state: "meta_steps ops abs m0 m \<Longrightarrow> mo_set_container_state ops m c s = (m', r) \<Longrightarrow> meta_steps ops abs m0 m'"
| dropping_container: "meta_steps ops abs m0 m \<Longrightarrow> mo_delete_container ops m c = (m', r) \<Longrightarrow> meta_steps ops abs m0 m'"
| putting_block: "meta_steps ops abs m0 m \<Longrightarrow> mo_put_block ops m bd = (m', r') \<Longrightarrow> countable_contents (abs m') \<Longrightarrow>
    meta_steps ops abs m0 m'"
| dropping_block: "meta_steps ops abs m0 m \<Longrightarrow> mo_delete_block ops m b = (m', r) \<Longrightarrow> meta_steps ops abs m0 m'"

section \<open>The specified steps keep the counters\<close>

lemma unat_saturating_sub: "unat (saturating_sub a b) = unat a - unat b"
  by (auto simp: saturating_sub_def unat_sub word_le_nat_alt)

lemma counters_home:
  assumes "counters_ok v" "mv_blocks v b = Some bd"
  obtains info n where "mv_containers v (bid_container b) = Some (info, n)"
proof -
  have "bid_container b \<in> dom (mv_containers v)" using assms unfolding counters_ok_def by (metis domI)
  then show thesis using that by auto
qed

lemma counters_create:
  assumes "counters_ok v" "cinfo_block_count info = 0" "cinfo_used_bytes info = 0"
    "spec_create_container v info = Ok (v', u)"
  shows "counters_ok v'"
proof -
  have absent: "mv_containers v (cinfo_container_id info) = None"
    using assms(4) by (cases "mv_containers v (cinfo_container_id info)") (auto simp: spec_create_container_def)
  then have none: "committed v (cinfo_container_id info) = {}"
    by (auto simp: committed_def elim: counters_home [OF assms(1)])
  have v': "v' = v\<lparr>mv_containers := (mv_containers v)(cinfo_container_id info \<mapsto> (info, 0))\<rparr>"
    using assms(4) absent by (simp add: spec_create_container_def)
  have same: "committed v' c = committed v c" "committed_bytes v' c = committed_bytes v c" for c
    by (simp_all add: v' committed_def committed_bytes_def)
  show ?thesis
    using assms(1-3) none unfolding counters_ok_def same
    by (auto simp: v' committed_bytes_def split: if_splits)
qed

lemma counters_set_state:
  assumes "counters_ok v" "spec_set_container_state v c s = Ok (v', u)"
  shows "counters_ok v'"
proof -
  obtain info n where c: "mv_containers v c = Some (info, n)"
    and v': "v' = v\<lparr>mv_containers := (mv_containers v)(c \<mapsto> (info\<lparr>cinfo_state := s\<rparr>, n))\<rparr>"
    using assms(2) by (auto simp: spec_set_container_state_def split: option.splits)
  have same: "committed v' d = committed v d" "committed_bytes v' d = committed_bytes v d" for d
    by (simp_all add: v' committed_def committed_bytes_def)
  show ?thesis using assms(1) c unfolding counters_ok_def same by (auto simp: v' split: if_splits)
qed

lemma counters_delete_container:
  assumes "counters_ok v" "spec_delete_container v c = Ok (v', u)"
  shows "counters_ok v'"
proof -
  have v': "v' = v\<lparr>mv_containers := (mv_containers v)(c := None),
      mv_blocks := (\<lambda>b. if bid_container b = c then None else mv_blocks v b)\<rparr>"
    using assms(2) by (simp add: spec_delete_container_def)
  have same: "committed v' d = committed v d" "committed_bytes v' d = committed_bytes v d" if "d \<noteq> c" for d
  proof -
    show s: "committed v' d = committed v d" using that by (auto simp: v' committed_def domIff)
    show "committed_bytes v' d = committed_bytes v d"
      unfolding committed_bytes_def s using that by (intro sum.cong) (auto simp: v' committed_def)
  qed
  show ?thesis using assms(1) same unfolding counters_ok_def by (auto simp: v' domIff split: if_splits)
qed

lemma committed_update:
  assumes "finite (dom (mv_blocks v))" "mv_blocks v' = (mv_blocks v)(b := x)"
  shows "c \<noteq> bid_container b \<Longrightarrow> committed v' c = committed v c"
    and "c \<noteq> bid_container b \<Longrightarrow> committed_bytes v' c = committed_bytes v c"
    and "committed v' (bid_container b) =
      (if x = None then committed v (bid_container b) - {b} else insert b (committed v (bid_container b)))"
    and "committed_bytes v' (bid_container b) =
      committed_bytes v (bid_container b)
        - (case mv_blocks v b of None \<Rightarrow> 0 | Some bd \<Rightarrow> unat (block_data_len bd))
        + (case x of None \<Rightarrow> 0 | Some bd \<Rightarrow> unat (block_data_len bd))"
proof -
  let ?c = "bid_container b"
  have fin: "finite (committed v d)" for d
    using assms(1) by (rule finite_subset [rotated]) (auto simp: committed_def)
  show other: "committed v' c = committed v c" if "c \<noteq> ?c"
    using that by (auto simp: committed_def assms(2) split: if_splits)
  show "committed_bytes v' c = committed_bytes v c" if "c \<noteq> ?c"
    unfolding committed_bytes_def other [OF that] using that
    by (intro sum.cong) (auto simp: assms(2) committed_def)
  show own: "committed v' ?c = (if x = None then committed v ?c - {b} else insert b (committed v ?c))"
    by (auto simp: committed_def assms(2) split: if_splits)
  let ?s = "\<Sum>d\<in>committed v ?c - {b}. unat (block_data_len (the (mv_blocks v d)))"
  have old: "committed_bytes v ?c = ?s + (case mv_blocks v b of None \<Rightarrow> 0 | Some bd \<Rightarrow> unat (block_data_len bd))"
  proof (cases "mv_blocks v b")
    case None
    then have "b \<notin> committed v ?c" by (simp add: committed_def domIff)
    then show ?thesis using None by (simp add: committed_bytes_def)
  next
    case (Some bd)
    then have "b \<in> committed v ?c" by (simp add: committed_def domIff)
    then show ?thesis using Some fin by (simp add: committed_bytes_def sum.remove add.commute)
  qed
  have "(\<Sum>d\<in>committed v ?c - {b}. unat (block_data_len (the (mv_blocks v' d)))) = ?s"
    by (rule sum.cong) (auto simp: assms(2))
  moreover have "committed v' ?c - {b} = committed v ?c - {b}" by (auto simp: own)
  moreover have "x = None \<longleftrightarrow> b \<notin> committed v' ?c" by (auto simp: committed_def assms(2) domIff)
  moreover have "finite (committed v' ?c)" using fin by (simp add: own)
  ultimately have "committed_bytes v' ?c = ?s + (case x of None \<Rightarrow> 0 | Some bd \<Rightarrow> unat (block_data_len bd))"
    by (cases x) (auto simp: committed_bytes_def sum.remove assms(2) add.commute)
  then show "committed_bytes v' ?c = committed_bytes v ?c
      - (case mv_blocks v b of None \<Rightarrow> 0 | Some bd \<Rightarrow> unat (block_data_len bd))
      + (case x of None \<Rightarrow> 0 | Some bd \<Rightarrow> unat (block_data_len bd))"
    by (simp add: old)
qed

lemma spec_put_block_Ok:
  assumes "spec_put_block v bd = Ok (v', n)"
  obtains info info' k where "mv_containers v (bid_container (bd_block_id bd)) = Some (info, k)"
    "is_writable (cinfo_state info)" "n = k + 1" "cinfo_state info' = cinfo_state info"
    "mv_containers v' = (mv_containers v)(bid_container (bd_block_id bd) \<mapsto> (info', n))"
    "mv_blocks v' = (mv_blocks v)(bd_block_id bd \<mapsto> bd)"
proof -
  obtain info k where c: "mv_containers v (bid_container (bd_block_id bd)) = Some (info, k)"
    "is_writable (cinfo_state info)"
    using assms by (auto simp: spec_put_block_def Let_def split: option.splits if_splits)
  then show thesis
    using assms
    by (intro that [OF c, where info' = "fst (the (mv_containers v' (bid_container (bd_block_id bd))))"])
      (auto simp: spec_put_block_def Let_def split: option.splits)
qed

lemma counters_put_block:
  assumes ok: "counters_ok v" and fin: "finite (dom (mv_blocks v))" and fits: "countable_contents v'"
    and step: "spec_put_block v bd = Ok (v', n)"
  shows "counters_ok v'"
proof -
  let ?b = "bd_block_id bd" and ?c = "bid_container (bd_block_id bd)"
  obtain info k where c: "mv_containers v ?c = Some (info, k)"
    using step by (auto simp: spec_put_block_def Let_def split: option.splits)
  have blocks: "mv_blocks v' = (mv_blocks v)(?b \<mapsto> bd)"
    using step c by (auto simp: spec_put_block_def Let_def split: if_splits)
  note upd = committed_update [OF fin blocks]
  have cnt: "unat (cinfo_block_count info) = card (committed v ?c)"
    and used: "unat (cinfo_used_bytes info) = committed_bytes v ?c"
    using ok c unfolding counters_ok_def by blast+
  have lt: "card (committed v' ?c) < 2 ^ 64" "committed_bytes v' ?c < 2 ^ 64"
    using fits by (simp_all add: countable_contents_def)
  obtain info' where c': "mv_containers v' = (mv_containers v)(?c \<mapsto> (info', k + 1))"
    and info': "unat (cinfo_block_count info') = card (committed v' ?c) \<and>
      unat (cinfo_used_bytes info') = committed_bytes v' ?c"
  proof (cases "mv_blocks v ?b")
    case None
    then have new: "?b \<notin> committed v ?c" by (simp add: committed_def domIff)
    have fc: "finite (committed v ?c)" using fin by (rule finite_subset [rotated]) (auto simp: committed_def)
    let ?i = "info\<lparr>cinfo_block_count := cinfo_block_count info + 1, cinfo_used_bytes := cinfo_used_bytes info + block_data_len bd\<rparr>"
    have "card (committed v ?c) + 1 < 2 ^ 64" "committed_bytes v ?c + unat (block_data_len bd) < 2 ^ 64"
      using lt new fc None by (simp_all add: upd)
    then have "unat (cinfo_block_count ?i) = card (committed v ?c) + 1"
      "unat (cinfo_used_bytes ?i) = committed_bytes v ?c + unat (block_data_len bd)"
      using cnt used by (simp_all add: unat_word_ariths)
    then show thesis
      using step c None new fc by (intro that [of ?i]) (auto simp: spec_put_block_def Let_def upd split: if_splits)
  next
    case (Some prev)
    then have old: "?b \<in> committed v ?c" by (simp add: committed_def domIff)
    let ?i = "info\<lparr>cinfo_used_bytes := saturating_sub (cinfo_used_bytes info) (block_data_len prev) + block_data_len bd\<rparr>"
    have "unat (cinfo_used_bytes ?i) = committed_bytes v' ?c"
      using lt used Some by (simp add: upd unat_word_ariths unat_saturating_sub)
    then show thesis
      using step c Some old cnt by (intro that [of ?i]) (auto simp: spec_put_block_def Let_def upd insert_absorb split: if_splits)
  qed
  have "bid_container b \<in> dom (mv_containers v')" if "b \<in> dom (mv_blocks v')" for b
    using that ok blocks by (auto simp: counters_ok_def c' split: if_splits)
  moreover have "unat (cinfo_block_count i) = card (committed v' d) \<and> unat (cinfo_used_bytes i) = committed_bytes v' d"
    if "mv_containers v' d = Some (i, m)" for d i m
    using that info' ok upd(1,2) [of d] by (cases "d = ?c") (auto simp: c' counters_ok_def)
  ultimately show ?thesis unfolding counters_ok_def by blast
qed

lemma counters_delete_block:
  assumes ok: "counters_ok v" and fin: "finite (dom (mv_blocks v))"
    and step: "spec_delete_block v b = Ok (v', u)"
  shows "counters_ok v'"
proof (cases "mv_blocks v b")
  case None
  then show ?thesis using assms by (simp add: spec_delete_block_def)
next
  case (Some bd)
  let ?c = "bid_container b"
  obtain info k where c: "mv_containers v ?c = Some (info, k)" by (rule counters_home [OF ok Some])
  let ?i = "info\<lparr>cinfo_block_count := saturating_sub (cinfo_block_count info) 1,
    cinfo_used_bytes := saturating_sub (cinfo_used_bytes info) (block_data_len bd)\<rparr>"
  have v': "mv_blocks v' = (mv_blocks v)(b := None)" "mv_containers v' = (mv_containers v)(?c \<mapsto> (?i, k))"
    using step Some c by (auto simp: spec_delete_block_def)
  note upd = committed_update [OF fin v'(1)]
  have "b \<in> committed v ?c" using Some by (simp add: committed_def domIff)
  moreover have "unat (cinfo_block_count info) = card (committed v ?c)"
    and "unat (cinfo_used_bytes info) = committed_bytes v ?c"
    using ok c unfolding counters_ok_def by blast+
  ultimately have i: "unat (cinfo_block_count ?i) = card (committed v' ?c)"
    "unat (cinfo_used_bytes ?i) = committed_bytes v' ?c"
    using Some by (simp_all add: upd unat_saturating_sub)
  have "bid_container d \<in> dom (mv_containers v')" if "d \<in> dom (mv_blocks v')" for d
    using that ok by (auto simp: counters_ok_def v' split: if_splits)
  moreover have "unat (cinfo_block_count j) = card (committed v' d) \<and> unat (cinfo_used_bytes j) = committed_bytes v' d"
    if "mv_containers v' d = Some (j, m)" for d j m
    using that i ok upd(1,2) [of d] by (cases "d = ?c") (auto simp: v' counters_ok_def)
  ultimately show ?thesis unfolding counters_ok_def by blast
qed

section \<open>Every store that meets the contract\<close>

lemma refines_step_cases:
  assumes "refines_step spec v v' r"
  obtains "v' = v" | x where "spec = Ok (v', x)"
  using assms by (cases r) (auto simp: refines_step_def)

context meta_store_laws begin

lemma steps_counters:
  assumes "meta_steps ops abs m0 m" "wf m0" "counters_ok (abs m0)"
  shows "wf m \<and> counters_ok (abs m)"
  using assms
proof (induction rule: meta_steps.induct)
  case (creating m info m' r)
  then have "wf m'" and step: "refines_step (spec_create_container (abs m) info) (abs m) (abs m') r"
    using create_container by blast+
  from step have "counters_ok (abs m')"
    by (rule refines_step_cases) (use creating counters_create in auto)
  with \<open>wf m'\<close> show ?case by blast
next
  case (setting_state m c s m' r)
  then have "wf m'" and step: "refines_step (spec_set_container_state (abs m) c s) (abs m) (abs m') r"
    using set_container_state by blast+
  from step have "counters_ok (abs m')"
    by (rule refines_step_cases) (use setting_state counters_set_state in auto)
  with \<open>wf m'\<close> show ?case by blast
next
  case (dropping_container m c m' r)
  then have "wf m'" and step: "refines_step (spec_delete_container (abs m) c) (abs m) (abs m') r"
    using delete_container by blast+
  from step have "counters_ok (abs m')"
    by (rule refines_step_cases) (use dropping_container counters_delete_container in auto)
  with \<open>wf m'\<close> show ?case by blast
next
  case (putting_block m bd m' r)
  then have "wf m'" and step: "refines_step (spec_put_block (abs m) bd) (abs m) (abs m') r"
    using put_block by blast+
  from step have "counters_ok (abs m')"
    by (rule refines_step_cases) (use putting_block counters_put_block finite_blocks in auto)
  with \<open>wf m'\<close> show ?case by blast
next
  case (dropping_block m b m' r)
  then have "wf m'" and step: "refines_step (spec_delete_block (abs m) b) (abs m) (abs m') r"
    using delete_block by blast+
  from step have "counters_ok (abs m')"
    by (rule refines_step_cases) (use dropping_block counters_delete_block finite_blocks in auto)
  with \<open>wf m'\<close> show ?case by blast
qed simp

end

end
