(* ===== verification/Rust_Str.thy ===== *)
theory Rust_Str
  imports Ozone_Prelude "HOL-Library.Sublist"
begin

text \<open>
  The string functions of Rust's standard library that the S3 gateway uses. A \<open>str\<close> is the sequence
  of its UTF-8 bytes, a character of HOL being one byte; UTF-8 is self-synchronising, so searching,
  splitting and replacing valid text byte by byte gives what Rust gives.
\<close>

fun str_find :: "string \<Rightarrow> string \<Rightarrow> nat option" where
  "str_find pat [] = (if pat = [] then Some 0 else None)"
| "str_find pat (c # s) = (if prefix pat (c # s) then Some 0 else map_option Suc (str_find pat s))"

definition strip_prefix :: "string \<Rightarrow> string \<Rightarrow> string option" where
  "strip_prefix pat s = (if prefix pat s then Some (drop (length pat) s) else None)"

definition split_once :: "char \<Rightarrow> string \<Rightarrow> (string \<times> string) option" where
  "split_once c s =
     (if c \<in> set s then Some (takeWhile (\<lambda>x. x \<noteq> c) s, tl (dropWhile (\<lambda>x. x \<noteq> c) s)) else None)"

fun split_char :: "char \<Rightarrow> string \<Rightarrow> string list" where
  "split_char c [] = [[]]"
| "split_char c (x # s) =
     (if x = c then [] # split_char c s
      else case split_char c s of t # ts \<Rightarrow> (x # t) # ts | [] \<Rightarrow> [[x]])"

definition trim_start_char :: "char \<Rightarrow> string \<Rightarrow> string" where
  "trim_start_char c s = dropWhile (\<lambda>x. x = c) s"

text \<open>\<open>str::replace\<close>: the matches of the pattern from left to right, without overlap.\<close>

fun str_replace :: "string \<Rightarrow> string \<Rightarrow> string \<Rightarrow> string" where
  "str_replace pat by [] = []"
| "str_replace pat by (c # s) =
     (if pat \<noteq> [] \<and> prefix pat (c # s) then by @ str_replace pat by (drop (length pat - 1) s)
      else c # str_replace pat by s)"

text \<open>
  The characters with the Unicode property \<open>White_Space\<close>, in UTF-8: the controls U+0009 to U+000D,
  the space, U+0085, U+00A0, U+1680, U+2000 to U+200A, U+2028, U+2029, U+202F, U+205F and U+3000.
\<close>

definition utf8_whitespace :: "string list" where
  "utf8_whitespace = map (map char_of)
     ([[9], [10], [11], [12], [13], [32], [0xC2, 0x85], [0xC2, 0xA0], [0xE1, 0x9A, 0x80]] @
      map (\<lambda>n. [0xE2, 0x80, 0x80 + n]) [0..<11] @
      [[0xE2, 0x80, 0xA8], [0xE2, 0x80, 0xA9], [0xE2, 0x80, 0xAF], [0xE2, 0x81, 0x9F], [0xE3, 0x80, 0x80 :: nat]])"

lemma utf8_whitespace_nonempty: "w \<in> set utf8_whitespace \<Longrightarrow> w \<noteq> []"
  by (auto simp: utf8_whitespace_def)

function trim_start :: "string \<Rightarrow> string" where
  "trim_start s =
     (case find (\<lambda>w. prefix w s) utf8_whitespace of
        Some w \<Rightarrow> trim_start (drop (length w) s)
      | None \<Rightarrow> s)"
  by auto
termination
  by (relation "measure length") (auto simp: find_Some_iff prefix_def dest!: utf8_whitespace_nonempty [OF nth_mem])

function trim_end :: "string \<Rightarrow> string" where
  "trim_end s =
     (case find (\<lambda>w. suffix w s) utf8_whitespace of
        Some w \<Rightarrow> trim_end (take (length s - length w) s)
      | None \<Rightarrow> s)"
  by auto
termination
  by (relation "measure length") (auto simp: find_Some_iff suffix_def dest!: utf8_whitespace_nonempty [OF nth_mem])

declare trim_start.simps [simp del] trim_end.simps [simp del]

definition trim :: "string \<Rightarrow> string" where
  "trim s = trim_end (trim_start s)"

end
