(* ===== verification/Chunk_Store.thy ===== *)
theory Chunk_Store
  imports Storage_Traits Rust_Str
begin

text \<open>
  \<open>FileChunkStore\<close> of \<open>crates/ozone-storage/src/chunk_store.rs\<close>: one file per chunk, written to a
  temporary sibling and renamed into place. A path is the list of its components as
  \<open>std::path::Path\<close> gives them, with every \<open>..\<close> still in it; the file system is a map from resolved
  paths to contents, so that two paths that lead to the same file are the same file. The data
  directory is absolute and holds no symbolic links. An oracle \<open>io\<close> decides which system calls fail
  (a lookup through a missing directory is one such failure), what a failed write leaves in the
  temporary file, and which files a failed recursive delete leaves behind. A chunk name is meant to
  be one path component; \<open>ok_chunk_name\<close> says so, and \<open>chunk_name_escapes\<close> shows what another name
  can reach.
\<close>

section \<open>Paths\<close>

type_synonym path = "string list"

text \<open>\<open>Path::components\<close>: empty and \<open>.\<close> components disappear.\<close>

definition path_components :: "string \<Rightarrow> path" where
  "path_components s = filter (\<lambda>c. c \<noteq> [] \<and> c \<noteq> ''.'') (split_char CHR ''/'' s)"

definition file_name :: "path \<Rightarrow> string option" where
  "file_name p = (if p = [] \<or> last p = ''..'' then None else Some (last p))"

definition with_file_name :: "path \<Rightarrow> string \<Rightarrow> path" where
  "with_file_name p n = (if file_name p = None then p else butlast p) @ [n]"

text \<open>The directory or file a path leads to, from the directory reached so far.\<close>

fun resolve_onto :: "path \<Rightarrow> path \<Rightarrow> path" where
  "resolve_onto at [] = at"
| "resolve_onto at (c # cs) = resolve_onto (if c = ''..'' then butlast at else at @ [c]) cs"

definition resolve :: "path \<Rightarrow> path" where
  "resolve p = resolve_onto [] p"

definition under_dir :: "path \<Rightarrow> path \<Rightarrow> bool" where
  "under_dir dir p \<longleftrightarrow> strict_prefix (resolve dir) p"

section \<open>File system\<close>

datatype fs_op = CreateDir path | WriteFile path | Rename path path | ReadFile path
  | RemoveFile path | RemoveDir path

record fs_oracle =
  io_fail :: "fs_op \<Rightarrow> string option"
  io_torn :: "bytes \<Rightarrow> bytes option"
  io_kept :: "path \<Rightarrow> bool"

record chunk_fs =
  fs_files :: "path \<rightharpoonup> bytes"
  fs_temp_seq :: u64

section \<open>The store\<close>

definition container_dir :: "string \<Rightarrow> container_id \<Rightarrow> path" where
  "container_dir root c = path_components root @ [u64_to_string c]"

definition chunk_path :: "string \<Rightarrow> block_id \<Rightarrow> string \<Rightarrow> path" where
  "chunk_path root b chunk_name =
     container_dir root (bid_container b) @ [''chunks''] @
     path_components (u64_to_string (bid_local b) @ ''_'' @ u8_to_string (bid_replica b) @ ''_'' @ chunk_name)"

definition temp_path :: "u64 \<Rightarrow> chunk_fs \<Rightarrow> path \<Rightarrow> path \<times> chunk_fs" where
  "temp_path pid fs final_path =
     (let name = (case file_name final_path of Some n \<Rightarrow> n | None \<Rightarrow> []) in
      (with_file_name final_path
         (name @ ''.tmp.'' @ u64_to_string pid @ ''.'' @ u64_to_string (fs_temp_seq fs)),
       fs\<lparr>fs_temp_seq := fs_temp_seq fs + 1\<rparr>))"

definition file_write_chunk ::
    "fs_oracle \<Rightarrow> u64 \<Rightarrow> string \<Rightarrow> chunk_fs \<Rightarrow> block_id \<Rightarrow> chunk_info \<Rightarrow> bytes
       \<Rightarrow> chunk_fs \<times> (storage_error, unit) result" where
  "file_write_chunk io pid root fs b chunk data =
     (let path = chunk_path root b (ci_chunk_name chunk); dir = butlast path in
      case io_fail io (CreateDir dir) of Some e \<Rightarrow> (fs, Err (Io e)) | None \<Rightarrow>
      let (tmp, fs1) = temp_path pid fs path in
      case io_fail io (WriteFile tmp) of
        Some e \<Rightarrow> (fs1\<lparr>fs_files := (fs_files fs1)(resolve tmp := io_torn io data)\<rparr>, Err (Io e))
      | None \<Rightarrow>
        let fs2 = fs1\<lparr>fs_files := (fs_files fs1)(resolve tmp \<mapsto> data)\<rparr> in
        case io_fail io (Rename tmp path) of
          None \<Rightarrow> (fs2\<lparr>fs_files := (fs_files fs2)(resolve tmp := None, resolve path \<mapsto> data)\<rparr>, Ok ())
        | Some e \<Rightarrow>
            (if io_fail io (RemoveFile tmp) = None
             then (fs2\<lparr>fs_files := (fs_files fs2)(resolve tmp := None)\<rparr>, Err (Io e))
             else (fs2, Err (Io e))))"

definition file_read_chunk ::
    "fs_oracle \<Rightarrow> string \<Rightarrow> chunk_fs \<Rightarrow> block_id \<Rightarrow> chunk_info \<Rightarrow> (storage_error, bytes) result" where
  "file_read_chunk io root fs b chunk =
     (let path = chunk_path root b (ci_chunk_name chunk) in
      case fs_files fs (resolve path) of
        None \<Rightarrow> Err (BlockNotFound b)
      | Some bytes \<Rightarrow> (case io_fail io (ReadFile path) of None \<Rightarrow> Ok bytes | Some e \<Rightarrow> Err (Io e)))"

definition file_delete_chunk ::
    "fs_oracle \<Rightarrow> string \<Rightarrow> chunk_fs \<Rightarrow> block_id \<Rightarrow> chunk_info \<Rightarrow> chunk_fs \<times> (storage_error, unit) result" where
  "file_delete_chunk io root fs b chunk =
     (let path = chunk_path root b (ci_chunk_name chunk) in
      case fs_files fs (resolve path) of
        None \<Rightarrow> (fs, Ok ())
      | Some _ \<Rightarrow>
          (case io_fail io (RemoveFile path) of
             None \<Rightarrow> (fs\<lparr>fs_files := (fs_files fs)(resolve path := None)\<rparr>, Ok ())
           | Some e \<Rightarrow> (fs, Err (Io e))))"

definition file_delete_container ::
    "fs_oracle \<Rightarrow> string \<Rightarrow> chunk_fs \<Rightarrow> container_id \<Rightarrow> chunk_fs \<times> (storage_error, unit) result" where
  "file_delete_container io root fs c =
     (let dir = container_dir root c in
      case io_fail io (RemoveDir dir) of
        None \<Rightarrow> (fs\<lparr>fs_files := (\<lambda>p. if under_dir dir p then None else fs_files fs p)\<rparr>, Ok ())
      | Some e \<Rightarrow>
          (fs\<lparr>fs_files := (\<lambda>p. if under_dir dir p \<and> \<not> io_kept io p then None else fs_files fs p)\<rparr>,
           Err (Io e)))"

definition file_chunk_store :: "fs_oracle \<Rightarrow> u64 \<Rightarrow> string \<Rightarrow> chunk_fs chunk_ops" where
  "file_chunk_store io pid root =
     \<lparr>co_write = file_write_chunk io pid root, co_read = file_read_chunk io root,
      co_delete = file_delete_chunk io root, co_delete_container = file_delete_container io root\<rparr>"

section \<open>Proper chunk names\<close>

fun has_tmp :: "string \<Rightarrow> bool" where
  "has_tmp [] = False"
| "has_tmp (c # cs) = (take 5 (c # cs) = ''.tmp.'' \<or> has_tmp cs)"

definition ok_chunk_name :: "string \<Rightarrow> bool" where
  "ok_chunk_name n \<longleftrightarrow> CHR ''/'' \<notin> set n \<and> \<not> has_tmp n"

text \<open>The file of a chunk, and the name it has in its directory.\<close>

definition chunk_file :: "string \<Rightarrow> block_id \<Rightarrow> string \<Rightarrow> path" where
  "chunk_file root b n = resolve (chunk_path root b n)"

definition leaf_name :: "block_id \<Rightarrow> string \<Rightarrow> string" where
  "leaf_name b n = u64_to_string (bid_local b) @ ''_'' @ u8_to_string (bid_replica b) @ ''_'' @ n"

lemma has_tmp_append: "has_tmp (xs @ ''.tmp.'' @ ys)"
  by (induction xs) auto

lemma has_tmp_no_dot: "CHR ''.'' \<notin> set xs \<Longrightarrow> has_tmp (xs @ ys) \<longleftrightarrow> has_tmp ys"
  by (induction xs) auto

lemmas string_notin = u64_to_string_notin u8_to_string_notin

lemma split_char_none: "c \<notin> set s \<Longrightarrow> split_char c s = [s]"
  by (induction s) auto

lemma resolve_onto_append: "resolve_onto at (p @ q) = resolve_onto (resolve_onto at p) q"
  by (induction at p rule: resolve_onto.induct) simp_all

lemma resolve_onto_down: "''..'' \<notin> set q \<Longrightarrow> resolve_onto at q = at @ q"
  by (induction q arbitrary: at) auto

lemma resolve_down: "''..'' \<notin> set q \<Longrightarrow> resolve (p @ q) = resolve p @ q"
  by (simp add: resolve_def resolve_onto_append resolve_onto_down)

lemma u64_to_string_component: "u64_to_string w \<noteq> ''..''"
  using u64_to_string_notin [of "CHR ''.''" w] by auto

lemma leaf_name_component:
  "leaf_name b n \<noteq> []" "leaf_name b n \<noteq> ''.''" "leaf_name b n \<noteq> ''..''"
proof -
  have "CHR ''_'' \<in> set (leaf_name b n)" by (simp add: leaf_name_def)
  then show "leaf_name b n \<noteq> []" "leaf_name b n \<noteq> ''.''" "leaf_name b n \<noteq> ''..''" by auto
qed

lemma chunk_path_ok:
  assumes "CHR ''/'' \<notin> set n"
  shows "chunk_path root b n = container_dir root (bid_container b) @ [''chunks'', leaf_name b n]"
proof -
  have "CHR ''/'' \<notin> set (leaf_name b n)" using assms by (simp add: leaf_name_def string_notin)
  then have "path_components (leaf_name b n) = [leaf_name b n]"
    using leaf_name_component by (simp add: path_components_def split_char_none)
  then show ?thesis by (simp add: chunk_path_def leaf_name_def)
qed

lemma resolve_container_dir: "resolve (container_dir root c) = resolve (path_components root) @ [u64_to_string c]"
  using u64_to_string_component [of c] by (simp add: container_dir_def resolve_down)

lemma chunk_file_ok:
  assumes "CHR ''/'' \<notin> set n"
  shows "chunk_file root b n =
    resolve (path_components root) @ [u64_to_string (bid_container b), ''chunks'', leaf_name b n]"
proof -
  have "resolve (container_dir root (bid_container b) @ [''chunks'', leaf_name b n]) =
      resolve (container_dir root (bid_container b)) @ [''chunks'', leaf_name b n]"
    using leaf_name_component(3) [of b n] by (intro resolve_down) auto
  then show ?thesis by (simp add: chunk_file_def chunk_path_ok [OF assms] resolve_container_dir)
qed

lemma leaf_name_inject:
  "leaf_name b n = leaf_name b' n' \<longleftrightarrow> bid_local b = bid_local b' \<and> bid_replica b = bid_replica b' \<and> n = n'"
proof -
  have us: "CHR ''_'' \<notin> set (u64_to_string w)" for w by (simp add: string_notin)
  have us8: "CHR ''_'' \<notin> set (u8_to_string w)" for w by (simp add: string_notin)
  show ?thesis by (auto simp: leaf_name_def append_sep_inject [OF us us] append_sep_inject [OF us8 us8])
qed

lemma chunk_file_eq_iff:
  assumes "ok_chunk_name n" "ok_chunk_name n'"
  shows "chunk_file root b n = chunk_file root b' n' \<longleftrightarrow> b = b' \<and> n = n'"
proof -
  have "CHR ''/'' \<notin> set n" "CHR ''/'' \<notin> set n'" using assms by (simp_all add: ok_chunk_name_def)
  then show ?thesis by (auto simp: chunk_file_ok leaf_name_inject)
qed

lemma under_container_dir:
  assumes "ok_chunk_name n"
  shows "under_dir (container_dir root c) (chunk_file root b n) \<longleftrightarrow> bid_container b = c"
proof -
  have "CHR ''/'' \<notin> set n" using assms by (simp add: ok_chunk_name_def)
  then show ?thesis by (auto simp: under_dir_def resolve_container_dir chunk_file_ok strict_prefix_def)
qed

section \<open>The store implements the trait\<close>

definition file_view :: "string \<Rightarrow> chunk_fs \<Rightarrow> chunk_view" where
  "file_view root fs = (\<lambda>(b, n). if ok_chunk_name n then fs_files fs (chunk_file root b n) else None)"

text \<open>A temporary file is never the file of a chunk with a proper name, whatever it is made for.\<close>

lemma tmp_not_chunk:
  assumes "ok_chunk_name n"
  shows "resolve (with_file_name p (m @ ''.tmp.'' @ sfx)) \<noteq> chunk_file root b n"
proof -
  let ?t = "m @ ''.tmp.'' @ sfx"
  have long: "?t \<noteq> ''..''" by (cases m rule: rev_cases) (auto simp: append_eq_Cons_conv)
  then have "last (resolve (with_file_name p ?t)) = ?t" by (simp add: with_file_name_def resolve_down)
  moreover have "CHR ''/'' \<notin> set n" using assms by (simp add: ok_chunk_name_def)
  then have "last (chunk_file root b n) = leaf_name b n" by (simp add: chunk_file_ok)
  moreover have "CHR ''.'' \<notin> set (u64_to_string (bid_local b) @ ''_'' @ u8_to_string (bid_replica b) @ ''_'')"
    by (simp add: string_notin)
  from has_tmp_no_dot [OF this, of n] have "\<not> has_tmp (leaf_name b n)"
    using assms by (simp add: ok_chunk_name_def leaf_name_def)
  moreover have "has_tmp ?t" by (rule has_tmp_append)
  ultimately show ?thesis by metis
qed

lemma temp_path_not_chunk:
  "temp_path pid fs p = (tmp, fs1) \<Longrightarrow> ok_chunk_name n \<Longrightarrow> resolve tmp \<noteq> chunk_file root b n"
  "temp_path pid fs p = (tmp, fs1) \<Longrightarrow> fs_files fs1 = fs_files fs"
  using tmp_not_chunk by (auto simp: temp_path_def Let_def)

text \<open>What a write does, in terms of its temporary file.\<close>

lemma file_write_chunk_cases:
  assumes "file_write_chunk io pid root fs b ci d = (fs', r)"
  obtains tmp where "\<forall>b' n'. ok_chunk_name n' \<longrightarrow> tmp \<noteq> chunk_file root b' n'"
    "r = Ok ()" "fs_files fs' = (fs_files fs)(tmp := None, chunk_file root b (ci_chunk_name ci) \<mapsto> d)"
  | tmp x e where "\<forall>b' n'. ok_chunk_name n' \<longrightarrow> tmp \<noteq> chunk_file root b' n'"
    "r = Err (Io e)" "fs_files fs' = (fs_files fs)(tmp := x)"
  | e where "r = Err (Io e)" "fs' = fs"
proof (cases "io_fail io (CreateDir (butlast (chunk_path root b (ci_chunk_name ci))))")
  case None
  obtain tmp fs1 where t: "temp_path pid fs (chunk_path root b (ci_chunk_name ci)) = (tmp, fs1)" by fastforce
  have tmp: "\<forall>b' n'. ok_chunk_name n' \<longrightarrow> resolve tmp \<noteq> chunk_file root b' n'" using temp_path_not_chunk(1) [OF t] by blast
  note same = temp_path_not_chunk(2) [OF t]
  have "r = Ok () \<and> fs_files fs' = (fs_files fs)(resolve tmp := None, chunk_file root b (ci_chunk_name ci) \<mapsto> d) \<or>
      (\<exists>x e. r = Err (Io e) \<and> fs_files fs' = (fs_files fs)(resolve tmp := x))"
    using assms None t
    by (auto simp: file_write_chunk_def Let_def same chunk_file_def split: option.splits if_splits)
  then show ?thesis
  proof (elim disjE exE conjE)
    assume "r = Ok ()" "fs_files fs' = (fs_files fs)(resolve tmp := None, chunk_file root b (ci_chunk_name ci) \<mapsto> d)"
    with tmp show ?thesis by (rule that(1))
  next
    fix x e assume "r = Err (Io e)" "fs_files fs' = (fs_files fs)(resolve tmp := x)"
    with tmp show ?thesis by (rule that(2))
  qed
qed (use assms that in \<open>auto simp: file_write_chunk_def Let_def\<close>)

interpretation file_store: chunk_store_laws "file_chunk_store io pid root" "file_view root" ok_chunk_name
proof (unfold_locales, goal_cases)
  case (1 s b ci d s' u)
  then have "file_write_chunk io pid root s b ci d = (s', Ok u)" by (simp add: file_chunk_store_def)
  then show ?case
    by (rule file_write_chunk_cases) (use 1(2) in \<open>auto simp: file_view_def fun_eq_iff chunk_file_eq_iff\<close>)
next
  case (2 s b ci d s' e)
  then have "file_write_chunk io pid root s b ci d = (s', Err e)" by (simp add: file_chunk_store_def)
  then show ?case by (rule file_write_chunk_cases) (auto simp: file_view_def fun_eq_iff)
next
  case (3 s b ci d)
  obtain s' r where w: "file_write_chunk io pid root s b ci d = (s', r)" by fastforce
  then show ?case by (rule file_write_chunk_cases) (simp_all add: file_chunk_store_def w)
next
  case (6 s b ci s' u)
  then show ?case
    by (auto simp: file_chunk_store_def file_delete_chunk_def Let_def file_view_def fun_eq_iff
        chunk_file_eq_iff chunk_file_def [symmetric] split: option.splits if_splits)
qed (auto simp: file_chunk_store_def file_read_chunk_def file_delete_chunk_def
    file_delete_container_def Let_def file_view_def fun_eq_iff under_container_dir chunk_file_def [symmetric]
    split: option.splits)

definition io_ok :: fs_oracle where
  "io_ok = \<lparr>io_fail = (\<lambda>_. None), io_torn = (\<lambda>_. None), io_kept = (\<lambda>_. False)\<rparr>"

interpretation disk: reliable_chunk_store "file_chunk_store io_ok pid root" "file_view root" ok_chunk_name
  by unfold_locales
    (auto simp: file_chunk_store_def io_ok_def file_write_chunk_def file_read_chunk_def file_delete_chunk_def
      file_delete_container_def Let_def file_view_def chunk_file_def split: option.splits if_splits prod.splits)

section \<open>Correctness\<close>

text \<open>
  C6. Chunk writes are atomic and isolated. Whatever system calls fail, after \<open>write_chunk\<close> the
  chunk holds either its previous content or all of the new bytes (the new bytes exactly when the
  call succeeded), and every other chunk of every block reads as before.
\<close>

theorem write_chunk_atomic:
  assumes "file_write_chunk io pid root fs b ci d = (fs', r)" "ok_chunk_name (ci_chunk_name ci)"
  shows "fs_files fs' (chunk_file root b (ci_chunk_name ci)) =
      (if r = Ok () then Some d else fs_files fs (chunk_file root b (ci_chunk_name ci))) \<and>
    (\<forall>b' n'. ok_chunk_name n' \<and> (b', n') \<noteq> (b, ci_chunk_name ci) \<longrightarrow>
       fs_files fs' (chunk_file root b' n') = fs_files fs (chunk_file root b' n'))"
  using assms(1) by (rule file_write_chunk_cases) (use assms(2) in \<open>auto simp: chunk_file_eq_iff\<close>)

text \<open>A device on which the rename fails.\<close>

definition io_norename :: fs_oracle where
  "io_norename = io_ok\<lparr>io_fail := (\<lambda>op. case op of Rename _ _ \<Rightarrow> Some ''EIO'' | _ \<Rightarrow> None)\<rparr>"

definition sample_block_id :: block_id where
  "sample_block_id = \<lparr>bid_container = 1, bid_local = 2, bid_replica = 3\<rparr>"

definition sample_chunk :: chunk_info where
  "sample_chunk = \<lparr>ci_chunk_name = ''c0'', ci_offset = 0, ci_len = 2, ci_checksum_data = None,
     ci_stripe_checksum = None\<rparr>"

theorem write_chunk_atomic_witness:
  "let fs = \<lparr>fs_files = [chunk_file ''/d'' sample_block_id ''c0'' \<mapsto> [9, 9]], fs_temp_seq = 0\<rparr>;
       (fs1, r1) = file_write_chunk io_ok 7 ''/d'' fs sample_block_id sample_chunk [1, 2];
       (fs2, r2) = file_write_chunk io_norename 7 ''/d'' fs sample_block_id sample_chunk [1, 2]
   in r1 = Ok () \<and> fs_files fs1 (chunk_file ''/d'' sample_block_id ''c0'') = Some [1, 2] \<and>
      r2 = Err (Io ''EIO'') \<and> fs_files fs2 (chunk_file ''/d'' sample_block_id ''c0'') = Some [9, 9]"
proof -
  let ?fs = "\<lparr>fs_files = [chunk_file ''/d'' sample_block_id ''c0'' \<mapsto> [9, 9]], fs_temp_seq = 0\<rparr>"
  have n: "ok_chunk_name (ci_chunk_name sample_chunk)" by code_simp
  obtain fs1 r1 where w1: "file_write_chunk io_ok 7 ''/d'' ?fs sample_block_id sample_chunk [1, 2] = (fs1, r1)"
    by fastforce
  obtain fs2 r2 where w2: "file_write_chunk io_norename 7 ''/d'' ?fs sample_block_id sample_chunk [1, 2] = (fs2, r2)"
    by fastforce
  have "r1 = Ok ()" "r2 = Err (Io ''EIO'')"
    using w1 w2 by (auto simp: file_write_chunk_def io_ok_def io_norename_def temp_path_def Let_def)
  with write_chunk_atomic [OF w1 n] write_chunk_atomic [OF w2 n] w1 w2 show ?thesis
    by (simp add: sample_chunk_def)
qed




text \<open>
  A chunk name comes from the wire and is not checked: one with \<open>..\<close> in it leads a write for a block
  of container 2 to a chunk file of container 1.
\<close>

lemma chunk_name_escapes:
  "chunk_file ''/d'' (block_id_ec 2 1 1) ''x/../../../1/chunks/2_3_c0'' = chunk_file ''/d'' sample_block_id ''c0''"
  by code_simp

end
