(* ===== verification/Fjall_Correct.thy ===== *)
theory Fjall_Correct
  imports Fjall_Store Meta_Counters Chunk_Store
begin

text \<open>
  The properties of the fjall metadata store, for every keyspace and codec that behave as
  documented, and an in-memory keyspace with a tagging codec on which the contract is shown to hold
  and the operations are evaluated.
\<close>

section \<open>An in-memory keyspace\<close>

datatype mem_value = Mem_Container stored_container | Mem_Block block_data

type_synonym mem_state = "partition \<Rightarrow> (bytes, mem_value) btree_map"

primrec mem_apply :: "mem_value batch_op \<Rightarrow> mem_state \<Rightarrow> mem_state" where
  "mem_apply (Insert p k v) st = st(p := btree_insert k v (st p))"
| "mem_apply (Remove p k) st = st(p := btree_remove k (st p))"

definition mem_kv :: "mem_state \<Rightarrow> partition \<Rightarrow> bytes \<rightharpoonup> mem_value" where
  "mem_kv st p = map_of (st p)"

definition mem_keyspace :: "(mem_state, mem_value) fjall" where
  "mem_keyspace =
     \<lparr>fj_contains_key = (\<lambda>st p k. Ok (map_of (st p) k \<noteq> None)),
      fj_get = (\<lambda>st p k. Ok (map_of (st p) k)),
      fj_insert = (\<lambda>st p k v. (mem_apply (Insert p k v) st, Ok ())),
      fj_prefix = (\<lambda>st p pre. map (\<lambda>k. Ok (k, the (map_of (st p) k)))
        (sort (remdups (filter (prefix pre) (map fst (st p)))))),
      fj_commit = (\<lambda>st ops. (fold mem_apply ops st, Ok ()))\<rparr>"

definition mem_postcard :: "mem_value postcard" where
  "mem_postcard =
     \<lparr>pc_enc_container = (\<lambda>c. Ok (Mem_Container c)),
      pc_dec_container = (\<lambda>v. case v of Mem_Container c \<Rightarrow> Ok c | _ \<Rightarrow> Err ''tag''),
      pc_enc_block = (\<lambda>b. Ok (Mem_Block b)),
      pc_dec_block = (\<lambda>v. case v of Mem_Block b \<Rightarrow> Ok b | _ \<Rightarrow> Err ''tag'')\<rparr>"

definition mem_empty :: mem_state where
  "mem_empty = (\<lambda>_. [])"

lemma mem_kv_apply: "mem_kv (mem_apply a st) = apply_op a (mem_kv st)"
  by (cases a) (simp_all add: mem_kv_def fun_eq_iff)

lemma mem_kv_fold: "mem_kv (fold mem_apply ops st) = fold apply_op ops (mem_kv st)"
  by (induction ops arbitrary: st) (simp_all add: mem_kv_apply)

lemma mem_prefix: "fj_prefix mem_keyspace st p pre = map Ok (entries (mem_kv st p) pre)"
proof -
  have "{k \<in> dom (map_of (st p)). prefix pre k} = set (filter (prefix pre) (map fst (st p)))"
    by (auto simp: dom_map_of_conv_image_fst)
  then show ?thesis
    by (simp add: mem_keyspace_def entries_def mem_kv_def sorted_list_of_set_sort_remdups del: set_filter)
qed

interpretation mem: fjall_contract mem_keyspace mem_postcard mem_kv
proof unfold_locales
  fix st :: mem_state and p pre
  show "fj_prefix mem_keyspace st p pre = map Ok (entries (mem_kv st p) pre) \<or>
      (\<exists>es e rest. fj_prefix mem_keyspace st p pre = map Ok es @ Err e # rest \<and>
        prefix es (entries (mem_kv st p) pre))"
    by (simp add: mem_prefix)
qed (auto simp: mem_keyspace_def mem_postcard_def mem_kv_fold mem_kv_apply mem_kv_def finite_dom_map_of
  simp del: mem_apply.simps apply_op.simps split: mem_value.splits simp: mem_kv_apply [unfolded mem_kv_def] mem_kv_fold [unfolded mem_kv_def])

context fjall_contract begin

lemma fjall_meets_laws: "meta_store_laws (fjall_meta_store F P) (\<lambda>st. fj_abs P (kv st)) (\<lambda>st. fj_wf P (kv st))"
  by (rule meta.meta_store_laws_axioms)

lemma fjall_steps_counters:
  assumes "meta_steps (fjall_meta_store F P) (\<lambda>st. fj_abs P (kv st)) st0 st"
    "fj_wf P (kv st0)" "counters_ok (fj_abs P (kv st0))"
  shows "fj_wf P (kv st) \<and> counters_ok (fj_abs P (kv st))"
  using assms by (rule meta.steps_counters)

end

section \<open>Properties\<close>

text \<open>
  C8: every mutation of the fjall store refines the step the \<open>MetaStore\<close> trait specifies. Whatever
  the keyspace and the codec answer within their documentation, failures included, an operation that
  returns Ok has taken exactly the specified step on the committed contents, an operation that
  returns an error has changed nothing and reports the specified error or a backend failure, no
  operation panics, and the records stay filed under their own keys.
\<close>

theorem fjall_mutations_refine:
  assumes "fjall_contract F P kv" "fj_wf P (kv st)"
  shows "lands P kv (spec_create_container (fj_abs P (kv st)) info) st (fjall_create_container F P st info) \<and>
    lands P kv (spec_set_container_state (fj_abs P (kv st)) c s) st (fjall_set_container_state F P st c s) \<and>
    lands P kv (spec_delete_container (fj_abs P (kv st)) c) st (fjall_delete_container F P st c) \<and>
    lands P kv (spec_put_block (fj_abs P (kv st)) bd) st (fjall_put_block F P st bd) \<and>
    lands P kv (spec_delete_block (fj_abs P (kv st)) b) st (fjall_delete_block F P st b)"
  using fjall_contract.create_container_lands [OF assms] fjall_contract.set_container_state_lands [OF assms]
    fjall_contract.delete_container_lands [OF assms] fjall_contract.put_block_lands [OF assms]
    fjall_contract.delete_block_lands [OF assms]
  by blast

definition sample_block :: block_data where
  "sample_block = \<lparr>bd_block_id = sample_block_id, bd_chunks = [sample_chunk], bd_metadata = []\<rparr>"

definition mem_opened :: mem_state where
  "mem_opened = fst (fjall_create_container mem_keyspace mem_postcard mem_empty (container_info_new_open 1 RS_3_2_1MIB))"

definition mem_filled :: mem_state where
  "mem_filled = fst (fjall_put_block mem_keyspace mem_postcard mem_opened sample_block)"

lemma mem_empty_wf: "fj_wf mem_postcard (mem_kv mem_empty)"
  by (simp add: fj_wf_def mem_kv_def mem_empty_def)

lemma mem_opened_eq:
  "mem_opened = mem_empty(Containers := [(container_key 1,
     Mem_Container \<lparr>st_info = container_info_new_open 1 RS_3_2_1MIB, st_bcsi = 0\<rparr>)])"
  by (simp add: mem_opened_def fjall_create_container_def mem_keyspace_def mem_postcard_def mem_empty_def
      Let_def fj_def fj_encode_def fj_upd_def container_info_new_open_def)

lemma mem_opened_wf: "fj_wf mem_postcard (mem_kv mem_opened)"
  by (simp add: mem_opened_eq fj_wf_def mem_kv_def mem_empty_def mem_postcard_def container_info_new_open_def)

lemma mem_put_block:
  "fjall_put_block mem_keyspace mem_postcard mem_opened sample_block =
     (mem_opened(Blocks := [(block_key sample_block_id, Mem_Block sample_block)],
        Containers := [(container_key 1, Mem_Container
          \<lparr>st_info = (container_info_new_open 1 RS_3_2_1MIB)\<lparr>cinfo_used_bytes := 2, cinfo_block_count := 1\<rparr>,
           st_bcsi = 1\<rparr>)]), Ok 1)"
  by (simp add: mem_opened_eq fjall_put_block_def mem_keyspace_def mem_postcard_def mem_empty_def
      Let_def fj_def fj_encode_def fj_decode_def fj_upd_def container_info_new_open_def is_writable_def
      sample_block_def sample_block_id_def sample_chunk_def block_data_len_def fun_upd_twist)

theorem fjall_mutations_refine_witness:
  "fj_wf mem_postcard (mem_kv mem_opened) \<and>
   lands mem_postcard mem_kv (spec_put_block (fj_abs mem_postcard (mem_kv mem_opened)) sample_block) mem_opened
     (fjall_put_block mem_keyspace mem_postcard mem_opened sample_block) \<and>
   snd (fjall_put_block mem_keyspace mem_postcard mem_opened sample_block) = Ok 1"
  using fjall_mutations_refine [OF mem.fjall_contract_axioms, of mem_opened, OF mem_opened_wf] mem_opened_wf
    arg_cong [OF mem_put_block, of snd]
  by auto

text \<open>
  C9: the invariant of the counters. From a store whose counters are right (the empty one, for
  instance), after any sequence of operations of the fjall store, each of which may fail, every
  container's \<open>block_count\<close> is the number of its committed blocks and its \<open>used_bytes\<close> their total
  length, and every committed block's container exists; as long as containers are created with zero
  counters and no container holds 2^64 blocks or bytes.
\<close>

theorem fjall_counters_invariant:
  assumes "fjall_contract F P kv" "fj_wf P (kv st0)" "counters_ok (fj_abs P (kv st0))"
    "meta_steps (fjall_meta_store F P) (\<lambda>st. fj_abs P (kv st)) st0 st"
  shows "counters_ok (fj_abs P (kv st)) \<and> fj_wf P (kv st)"
  using fjall_contract.fjall_steps_counters [OF assms(1,4,2,3)] by simp

lemma countable_single:
  assumes "mv_blocks v = [b \<mapsto> bd]"
  shows "countable_contents v"
proof -
  have "committed v c = (if bid_container b = c then {b} else {})" for c
    by (auto simp: committed_def assms)
  then show ?thesis
    using unsigned_less [of "block_data_len bd", where 'a = nat]
    by (simp add: countable_contents_def committed_bytes_def assms)
qed

lemma mem_filled_blocks: "mv_blocks (fj_abs mem_postcard (mem_kv mem_filled)) = [sample_block_id \<mapsto> sample_block]"
  unfolding mem_filled_def mem_put_block by (simp add: fj_abs_def mem_kv_def mem_postcard_def fun_eq_iff)

lemma mem_filled_reached:
  "meta_steps (fjall_meta_store mem_keyspace mem_postcard) (\<lambda>st. fj_abs mem_postcard (mem_kv st)) mem_empty mem_filled"
proof (rule meta_steps.putting_block)
  show "meta_steps (fjall_meta_store mem_keyspace mem_postcard) (\<lambda>st. fj_abs mem_postcard (mem_kv st)) mem_empty mem_opened"
    by (rule meta_steps.creating [OF meta_steps.start, where info = "container_info_new_open 1 RS_3_2_1MIB"
        and r = "snd (fjall_create_container mem_keyspace mem_postcard mem_empty (container_info_new_open 1 RS_3_2_1MIB))"])
      (simp_all add: fjall_meta_store_def mem_opened_def container_info_new_open_def)
  show "mo_put_block (fjall_meta_store mem_keyspace mem_postcard) mem_opened sample_block = (mem_filled, Ok 1)"
    by (simp add: fjall_meta_store_def mem_filled_def mem_put_block)
qed (rule countable_single [OF mem_filled_blocks])

lemma mem_empty_counters: "counters_ok (fj_abs mem_postcard (mem_kv mem_empty))"
  by (simp add: counters_ok_def fj_abs_def mem_kv_def mem_empty_def)

theorem fjall_counters_invariant_witness:
  "meta_steps (fjall_meta_store mem_keyspace mem_postcard) (\<lambda>st. fj_abs mem_postcard (mem_kv st)) mem_empty mem_filled \<and>
   counters_ok (fj_abs mem_postcard (mem_kv mem_filled)) \<and>
   mv_blocks (fj_abs mem_postcard (mem_kv mem_filled)) sample_block_id = Some sample_block"
  using fjall_counters_invariant [OF mem.fjall_contract_axioms, of mem_empty mem_filled,
      OF mem_empty_wf mem_empty_counters mem_filled_reached] mem_filled_reached mem_filled_blocks
  by simp

section \<open>A backend that does not fail\<close>

locale fjall_answering = fjall_contract +
  assumes get_answers: "fj_get F st p k \<noteq> Err e"
    and contains_answers: "fj_contains_key F st p k \<noteq> Err e"
    and insert_answers: "snd (fj_insert F st p k v) \<noteq> Err e"
    and prefix_answers: "Err e \<notin> set (fj_prefix F st p pre)"
    and commit_answers: "snd (fj_commit F st ops) \<noteq> Err e"
    and container_encodes: "pc_enc_container P c \<noteq> Err e"
    and block_encodes: "pc_enc_block P bd \<noteq> Err e"

interpretation mem_ok: fjall_answering mem_keyspace mem_postcard mem_kv
  by unfold_locales (auto simp: mem_keyspace_def mem_postcard_def)

definition no_backend_error :: "(storage_error, 'a) result \<Rightarrow> bool" where
  "no_backend_error r \<longleftrightarrow> (\<forall>e. r = Err e \<longrightarrow> \<not> backend_error e)"

text \<open>An operation settles when its outcome is the specified one, error or step.\<close>

definition settles ::
    "'v postcard \<Rightarrow> ('st \<Rightarrow> partition \<Rightarrow> bytes \<rightharpoonup> 'v) \<Rightarrow> (storage_error, meta_view \<times> 'r) result \<Rightarrow> 'st
       \<Rightarrow> 'st \<times> (storage_error, 'r) result \<Rightarrow> bool" where
  "settles P kv spec st m \<longleftrightarrow> fj_wf P (kv (fst m)) \<and>
     (case spec of
        Ok (v', x) \<Rightarrow> snd m = Ok x \<and> fj_abs P (kv (fst m)) = v'
      | Err e \<Rightarrow> snd m = Err e \<and> fj_abs P (kv (fst m)) = fj_abs P (kv st)
      | Panic \<Rightarrow> False)"

lemma lands_settles: "lands P kv spec st m \<Longrightarrow> no_backend_error (snd m) \<Longrightarrow> settles P kv spec st m"
  by (auto simp: lands_def refines_step_def settles_def no_backend_error_def split: result.splits)

context fjall_answering begin

lemma get_eq: "fj (fj_get F st p k) = Ok (kv st p k)"
  using get_Ok get_total get_answers by (cases "fj_get F st p k") (auto simp: fj_def)

lemma contains_eq: "fj (fj_contains_key F st p k) = Ok (kv st p k \<noteq> None)"
  using contains_Ok contains_total contains_answers by (cases "fj_contains_key F st p k") (auto simp: fj_def)

lemma insert_eq: "\<exists>st'. fj_upd (fj_insert F st p k v) = (st', Ok ())"
  using insert_total [of st p k v] insert_answers [of st p k v]
  by (cases "fj_insert F st p k v"; cases "snd (fj_insert F st p k v)") (auto simp: fj_upd_def fj_def)

lemma commit_eq: "\<exists>st'. fj_upd (fj_commit F st ops) = (st', Ok ())"
  using commit_total [of st ops] commit_answers [of st ops]
  by (cases "fj_commit F st ops"; cases "snd (fj_commit F st ops)") (auto simp: fj_upd_def fj_def)

lemma encodes: "\<exists>v. fj_encode (pc_enc_container P c) = Ok v" "\<exists>v. fj_encode (pc_enc_block P bd) = Ok v"
  using codec_total container_encodes [of c] block_encodes [of bd]
  by (cases "pc_enc_container P c"; cases "pc_enc_block P bd"; auto simp: fj_encode_def)+

lemma prefix_eq: "fj_prefix F st p pre = map Ok (entries (kv st p) pre)"
  using prefix_scan [of st p pre] prefix_answers [of _ st p pre] by fastforce

lemma decodes:
  assumes "fj_wf P (kv st)"
  shows "kv st Containers k = Some v \<Longrightarrow> \<exists>r. fj_decode (pc_dec_container P v) = Ok r"
    "kv st Blocks k = Some v \<Longrightarrow> \<exists>bd. fj_decode (pc_dec_block P v) = Ok bd"
  using assms unfolding fj_wf_def fj_decode_def by fastforce+

lemma insert_fine: "no_backend_error (snd (fj_upd (fj_insert F st p k v)))"
  using insert_eq [of st p k v] by (auto simp: no_backend_error_def)

lemma commit_fine: "no_backend_error (snd (fj_upd (fj_commit F st ops)))"
  using commit_eq [of st ops] by (auto simp: no_backend_error_def)

lemma create_fine: "no_backend_error (snd (fjall_create_container F P st info))"
  using encodes(1) [of "\<lparr>st_info = info, st_bcsi = 0\<rparr>"] insert_fine
  by (auto simp: fjall_create_container_def Let_def contains_eq no_backend_error_def backend_error_def)

lemma set_state_fine:
  assumes "fj_wf P (kv st)"
  shows "no_backend_error (snd (fjall_set_container_state F P st c s))"
proof (cases "kv st Containers (container_key c)")
  case (Some v)
  with decodes(1) [OF assms] obtain r where "fj_decode (pc_dec_container P v) = Ok r" by blast
  moreover obtain v' where "fj_encode (pc_enc_container P (r\<lparr>st_info := (st_info r)\<lparr>cinfo_state := s\<rparr>\<rparr>)) = Ok v'"
    using encodes(1) by blast
  ultimately show ?thesis using Some insert_fine by (simp add: fjall_set_container_state_def Let_def get_eq)
qed (simp add: fjall_set_container_state_def get_eq no_backend_error_def backend_error_def)

lemma delete_container_fine: "no_backend_error (snd (fjall_delete_container F P st c))"
  by (simp add: fjall_delete_container_def Let_def prefix_eq commit_fine split_beta
      rmap_list_scan [where h = "\<lambda>kv. Remove Blocks (fst kv)"])

lemma put_block_fine:
  assumes "fj_wf P (kv st)"
  shows "no_backend_error (snd (fjall_put_block F P st bd))"
proof (cases "kv st Containers (container_key (bid_container (bd_block_id bd)))")
  case (Some v)
  with decodes(1) [OF assms] obtain r where r: "fj_decode (pc_dec_container P v) = Ok r" by blast
  have prev: "\<exists>info. (case kv st Blocks (block_key (bd_block_id bd)) of
      Some pv \<Rightarrow> rbind (fj_decode (pc_dec_block P pv)) (f r) | None \<Rightarrow> Ok (g r)) = Ok info"
    if "\<And>p. \<exists>i. f r p = Ok i" for f :: "stored_container \<Rightarrow> block_data \<Rightarrow> (storage_error, container_info) result" and g
  proof (cases "kv st Blocks (block_key (bd_block_id bd))")
    case (Some pv)
    with decodes(2) [OF assms] obtain p where "fj_decode (pc_dec_block P pv) = Ok p" by blast
    with Some that show ?thesis by simp
  qed simp
  have fin: "no_backend_error (snd (try_upd (fj_upd (fj_commit F st ops)) (\<lambda>st' _. (st', Ok n))))" for ops and n :: u64
    using commit_eq [of st ops] by (auto simp: no_backend_error_def)
  have enc: "no_backend_error (snd (try_st st (fj_encode (pc_enc_block P bd)) (\<lambda>bv.
      try_st st (fj_encode (pc_enc_container P c)) (\<lambda>cv.
      try_upd (fj_upd (fj_commit F st (ops bv cv))) (\<lambda>st' _. (st', Ok n))))))" for c ops and n :: u64
    using encodes(1) [of c] encodes(2) [of bd] fin by auto
  show ?thesis
    using Some r prev [of "\<lambda>r p. Ok ((st_info r)\<lparr>cinfo_used_bytes :=
          saturating_sub (cinfo_used_bytes (st_info r)) (block_data_len p) + block_data_len bd\<rparr>)"
        "\<lambda>r. (st_info r)\<lparr>cinfo_block_count := cinfo_block_count (st_info r) + 1,
          cinfo_used_bytes := cinfo_used_bytes (st_info r) + block_data_len bd\<rparr>"] enc
    by (auto simp: fjall_put_block_def Let_def get_eq) (simp_all add: no_backend_error_def backend_error_def)
qed (simp add: fjall_put_block_def Let_def get_eq no_backend_error_def backend_error_def)

lemma delete_block_fine:
  assumes "fj_wf P (kv st)"
  shows "no_backend_error (snd (fjall_delete_block F P st b))"
proof (cases "kv st Blocks (block_key b)")
  case (Some v)
  with decodes(2) [OF assms] obtain bd where bd: "fj_decode (pc_dec_block P v) = Ok bd" by blast
  show ?thesis
  proof (cases "kv st Containers (container_key (bid_container b))")
    case None
    then show ?thesis using Some bd commit_fine by (simp add: fjall_delete_block_def Let_def get_eq)
  next
    case (Some cv)
    with decodes(1) [OF assms] obtain r where r: "fj_decode (pc_dec_container P cv) = Ok r" by blast
    obtain cv' where "fj_encode (pc_enc_container P (r\<lparr>st_info := (st_info r)
        \<lparr>cinfo_block_count := saturating_sub (cinfo_block_count (st_info r)) 1,
         cinfo_used_bytes := saturating_sub (cinfo_used_bytes (st_info r)) (block_data_len bd)\<rparr>\<rparr>)) = Ok cv'"
      using encodes(1) by blast
    with r Some \<open>kv st Blocks (block_key b) = Some v\<close> bd show ?thesis
      using commit_fine by (simp add: fjall_delete_block_def Let_def get_eq)
  qed
qed (simp add: fjall_delete_block_def get_eq no_backend_error_def)

end

text \<open>
  C10: on a backend that does not fail, the store answers as the trait documents. Every mutation
  returns exactly the specified result and takes exactly the specified step: \<open>create_container\<close> is
  refused just when the container exists, \<open>put_block\<close> with \<open>ContainerNotFound\<close> just when there is no
  container, with \<open>ContainerNotOpen\<close> and the state just when it is not open, and succeeds with the
  next commit sequence id otherwise, and so on; a refused operation changes nothing.
\<close>

theorem fjall_answers_exactly:
  assumes "fjall_answering F P kv" "fj_wf P (kv st)"
  shows "settles P kv (spec_create_container (fj_abs P (kv st)) info) st (fjall_create_container F P st info) \<and>
    settles P kv (spec_set_container_state (fj_abs P (kv st)) c s) st (fjall_set_container_state F P st c s) \<and>
    settles P kv (spec_delete_container (fj_abs P (kv st)) c) st (fjall_delete_container F P st c) \<and>
    settles P kv (spec_put_block (fj_abs P (kv st)) bd) st (fjall_put_block F P st bd) \<and>
    settles P kv (spec_delete_block (fj_abs P (kv st)) b) st (fjall_delete_block F P st b)"
proof -
  have contract: "fjall_contract F P kv" using assms(1) by (rule fjall_answering.axioms(1))
  note fine = fjall_answering.create_fine [OF assms(1)] fjall_answering.set_state_fine [OF assms]
    fjall_answering.delete_container_fine [OF assms(1)] fjall_answering.put_block_fine [OF assms]
    fjall_answering.delete_block_fine [OF assms]
  note lands = fjall_contract.create_container_lands [OF contract assms(2)]
    fjall_contract.set_container_state_lands [OF contract assms(2)]
    fjall_contract.delete_container_lands [OF contract assms(2)]
    fjall_contract.put_block_lands [OF contract assms(2)] fjall_contract.delete_block_lands [OF contract assms(2)]
  from lands fine show ?thesis by (intro conjI lands_settles)
qed

theorem fjall_answers_exactly_witness:
  "let st = fst (fjall_set_container_state mem_keyspace mem_postcard mem_opened 1 Closed);
       (st', r) = fjall_put_block mem_keyspace mem_postcard st sample_block
   in r = Err (ContainerNotOpen 1 Closed) \<and> fj_abs mem_postcard (mem_kv st') = fj_abs mem_postcard (mem_kv st) \<and>
      snd (fjall_put_block mem_keyspace mem_postcard mem_opened sample_block) = Ok 1"
proof -
  let ?st = "fst (fjall_set_container_state mem_keyspace mem_postcard mem_opened 1 Closed)"
  have st: "?st = mem_empty(Containers := [(container_key 1,
      Mem_Container \<lparr>st_info = (container_info_new_open 1 RS_3_2_1MIB)\<lparr>cinfo_state := Closed\<rparr>, st_bcsi = 0\<rparr>)])"
    by (simp add: mem_opened_eq fjall_set_container_state_def mem_keyspace_def mem_postcard_def mem_empty_def
      Let_def fj_def fj_encode_def fj_decode_def fj_upd_def)
  have wf: "fj_wf mem_postcard (mem_kv ?st)"
    unfolding st by (simp add: fj_wf_def mem_kv_def mem_empty_def mem_postcard_def container_info_new_open_def)
  have "mv_containers (fj_abs mem_postcard (mem_kv ?st)) 1 =
      Some ((container_info_new_open 1 RS_3_2_1MIB)\<lparr>cinfo_state := Closed\<rparr>, 0)"
    unfolding st by (simp add: fj_abs_def mem_kv_def mem_postcard_def)
  then have closed: "spec_put_block (fj_abs mem_postcard (mem_kv ?st)) sample_block = Err (ContainerNotOpen 1 Closed)"
    by (simp add: spec_put_block_def sample_block_def sample_block_id_def is_writable_def Let_def)
  have "\<exists>v. spec_put_block (fj_abs mem_postcard (mem_kv mem_opened)) sample_block = Ok (v, 1)"
    by (simp add: spec_put_block_def sample_block_def sample_block_id_def is_writable_def Let_def mem_opened_eq
        fj_abs_def mem_kv_def mem_postcard_def container_info_new_open_def)
  then obtain v where opened: "spec_put_block (fj_abs mem_postcard (mem_kv mem_opened)) sample_block = Ok (v, 1)" by blast
  have "settles mem_postcard mem_kv (Err (ContainerNotOpen 1 Closed)) ?st (fjall_put_block mem_keyspace mem_postcard ?st sample_block)"
    using fjall_answers_exactly [OF mem_ok.fjall_answering_axioms, of ?st, OF wf] unfolding closed [symmetric] by blast
  moreover have "settles mem_postcard mem_kv (Ok (v, 1)) mem_opened (fjall_put_block mem_keyspace mem_postcard mem_opened sample_block)"
    using fjall_answers_exactly [OF mem_ok.fjall_answering_axioms, of mem_opened, OF mem_opened_wf]
    unfolding opened [symmetric] by blast
  ultimately show ?thesis by (simp add: settles_def case_prod_beta Let_def)
qed

end
