(* ===== verification/Dn_Correct.thy ===== *)
theory Dn_Correct
  imports Dn_Client Fjall_Correct
begin

text \<open>
  What the datanode's handlers guarantee. The lemmas are proved for any pair of stores that meet
  the storage traits' contracts (the locale \<open>datanode\<close>) and hold in particular for the pair the
  binary (\<open>crates/ozone-dn/src/main.rs\<close>) deploys: the fjall metadata store and the file chunk store,
  for any keyspace and codec within their documentation and any failures of the file system.
\<close>

definition dn_service ::
    "('st, 'v) fjall \<Rightarrow> 'v postcard \<Rightarrow> fs_oracle \<Rightarrow> u64 \<Rightarrow> string \<Rightarrow> string \<Rightarrow> ('st, chunk_fs) datanode_service" where
  "dn_service F P io pid root build =
     datanode_service_new (fjall_meta_store F P) (file_chunk_store io pid root) build"

locale datanode =
  meta: meta_store_laws "svc_meta svc" mabs mwf + chunk: chunk_store_laws "svc_chunks svc" view ok_name
  for svc :: "('m, 'c) datanode_service" and mabs :: "'m \<Rightarrow> meta_view" and mwf :: "'m \<Rightarrow> bool"
    and view :: "'c \<Rightarrow> chunk_view" and ok_name :: "string \<Rightarrow> bool"

lemma dn_service_datanode:
  assumes "fjall_contract F P kv"
  shows "datanode (dn_service F P io pid root build) (\<lambda>st. fj_abs P (kv st)) (\<lambda>st. fj_wf P (kv st))
    (file_view root) ok_chunk_name"
proof -
  have "meta_store_laws (fjall_meta_store F P) (\<lambda>st. fj_abs P (kv st)) (\<lambda>st. fj_wf P (kv st))"
    by (rule fjall_contract.fjall_meets_laws [OF assms])
  then show ?thesis
    using file_store.chunk_store_laws_axioms [of io pid root]
    by (simp add: datanode_def dn_service_def datanode_service_new_def)
qed

interpretation dn: datanode "dn_service mem_keyspace mem_postcard io pid root build"
  "\<lambda>st. fj_abs mem_postcard (mem_kv st)" "\<lambda>st. fj_wf mem_postcard (mem_kv st)" "file_view root" ok_chunk_name
  by (rule dn_service_datanode [OF mem.fjall_contract_axioms])

section \<open>Framing\<close>

lemma concat_frame: "concat (frame d) = d"
  by (simp add: frame_def frame_loop_chunks concat_chunks READ_FRAME_BYTES_def)

lemma frame_nonempty [simp]: "frame d \<noteq> []"
  by (auto simp: frame_def frame_loop_chunks chunks.simps READ_FRAME_BYTES_def)

lemma collect_frames_of_frame: "collect_frames (map Ok (frames_of d)) [] = Ok d"
proof -
  obtain f fs where fr: "frame d = f # fs" by (cases "frame d") auto
  show ?thesis
  proof (cases fs)
    case Nil
    then show ?thesis using fr concat_frame [of d] by (simp add: frames_of_def Let_def)
  next
    case (Cons g gs)
    then have "collect_frames (map Ok (frames_of d)) [] = Ok (f @ concat fs)"
      using collect_frames_of [of 0 fs f] fr by (simp add: frames_of_def Let_def)
    then show ?thesis using fr concat_frame [of d] by simp
  qed
qed

section \<open>Reading and writing chunks\<close>

text \<open>The check of the read path, once the request is decoded.\<close>

definition read_check ::
    "(bytes \<Rightarrow> u32) \<Rightarrow> ('m, 'c) datanode_service \<Rightarrow> ('m, 'c) dn_state \<Rightarrow> block_id \<Rightarrow> chunk_info \<Rightarrow> bool \<Rightarrow> bytes
       \<Rightarrow> (status, unit) result" where
  "read_check crc svc st b ci v data =
     (if v then rbind (expected_checksum svc st b ci) (\<lambda>expected.
        case expected of Some cd \<Rightarrow> map_err data_loss (verify crc data cd) | None \<Rightarrow> Ok ()) else Ok ())"

lemmas from_wire_to_wire = block_id_from_wire_eq_Ok [THEN iffD2, OF refl] chunk_info_from_wire_eq_Ok [THEN iffD2, OF refl]

lemma dn_read_chunk_decoded:
  "dn_read_chunk crc svc st \<lparr>rcq_block_id = Some (block_id_to_wire b),
     rcq_chunk_info = Some (chunk_info_to_wire ci), rcq_verify = v\<rparr> =
   rbind (map_err storage_status (co_read (svc_chunks svc) (dn_chunks st) b ci)) (\<lambda>data.
   rbind (read_check crc svc st b ci v data) (\<lambda>_. Ok (frames_of data)))"
  by (simp add: dn_read_chunk_def read_check_def from_wire_to_wire)

lemma client_read_chunk_local:
  "client_read_chunk (local_rpc crc svc) st b ci v =
   rbind (map_err (Rpc \<circ> storage_status) (co_read (svc_chunks svc) (dn_chunks st) b ci)) (\<lambda>data.
   rbind (map_err Rpc (read_check crc svc st b ci v data)) (\<lambda>_. Ok data))"
proof (cases "co_read (svc_chunks svc) (dn_chunks st) b ci")
  case (Ok data)
  then show ?thesis
    by (cases "read_check crc svc st b ci v data")
      (simp_all add: client_read_chunk_def local_rpc_def dn_read_chunk_decoded collect_frames_of_frame del: map_map)
qed (simp_all add: client_read_chunk_def local_rpc_def dn_read_chunk_decoded)

lemma client_write_chunk_local:
  "client_write_chunk (local_rpc crc svc) st b ci data =
   rpc_upd (try_st st (case ci_checksum_data ci of Some cd \<Rightarrow> map_err data_loss (verify crc data cd) | None \<Rightarrow> Ok ())
     (\<lambda>_. try_upd (on_chunks st (co_write (svc_chunks svc) (dn_chunks st) b ci data))
       (\<lambda>st' _. (st', Ok (of_nat (length data))))))"
proof -
  let ?h = "\<lparr>wch_block_id = Some (block_id_to_wire b), wch_chunk_info = Some (chunk_info_to_wire ci), wch_request_id = ''''\<rparr>"
  let ?ms = "if data = [] then [\<lparr>wcq_header = Some ?h, wcq_payload = [], wcq_last = True\<rparr>]
    else write_frames ?h data 0 True"
  have "receive_chunk (map Ok ?ms) None [] = Ok (Some ?h, data)"
    using receive_write_frames [of 0 data True None ?h "[]"] by auto
  then show ?thesis
    by (simp add: client_write_chunk_def local_rpc_def dn_write_chunk_def Let_def from_wire_to_wire del: if_split)
qed

lemma read_check_own_checksum:
  assumes "ci_checksum_data ci = Some cd" "verify crc data cd = Ok ()"
  shows "read_check crc svc st b ci v data = Ok ()"
  using assms by (simp add: read_check_def expected_checksum_def)

lemma block_data_from_wire_to_wire:
  assumes "btree_wf (bd_metadata bd)"
  shows "block_data_from_wire (block_data_to_wire bd) = Ok bd"
  unfolding block_data_from_wire_eq_Ok using btree_collect_perm [OF assms refl]
  by (intro exI [of _ "bd_metadata bd"]) (simp add: block_data_to_wire_def)

context datanode begin

lemma read_check_recorded:
  assumes "mwf (dn_meta st)" "mv_blocks (mabs (dn_meta st)) b = Some bd"
    "find (\<lambda>c. ci_chunk_name c = ci_chunk_name ci) (bd_chunks bd) = Some c" "ci_checksum_data c = Some cd"
    "ci_checksum_data ci = None"
  shows "(\<exists>e. backend_error e \<and> read_check crc svc st b ci True data = Err (storage_status e)) \<or>
    read_check crc svc st b ci True data = map_err data_loss (verify crc data cd)"
proof (cases "mo_get_block (svc_meta svc) (dn_meta st) b")
  case (Ok found)
  with meta.get_block [OF assms(1), of b] assms(2) have "found = Some bd" by (simp add: refines_read_def)
  with Ok assms show ?thesis by (simp add: read_check_def expected_checksum_def)
next
  case (Err e)
  with meta.get_block [OF assms(1), of b] have "backend_error e" by (simp add: refines_read_def)
  with Err assms show ?thesis by (auto simp: read_check_def expected_checksum_def)
next
  case Panic
  with meta.get_block [OF assms(1), of b] show ?thesis by (simp add: refines_read_def)
qed

lemma put_block_step:
  assumes "mwf (dn_meta st)" "btree_wf (bd_metadata bd)"
    "client_put_block (local_rpc crc svc) st bd eof = (st', Ok n)"
  shows "mwf (dn_meta st')" "dn_chunks st' = dn_chunks st"
    "spec_put_block (mabs (dn_meta st)) bd = Ok (mabs (dn_meta st'), n)"
proof -
  obtain m' where m': "mo_put_block (svc_meta svc) (dn_meta st) bd = (m', Ok n)" "st' = st\<lparr>dn_meta := m'\<rparr>"
    using assms(3) block_data_from_wire_to_wire [OF assms(2)]
    by (cases "mo_put_block (svc_meta svc) (dn_meta st) bd")
      (auto simp: client_put_block_def rpc_upd_def local_rpc_def dn_put_block_def on_meta_def res_simps)
  show "mwf (dn_meta st')" "dn_chunks st' = dn_chunks st"
    "spec_put_block (mabs (dn_meta st)) bd = Ok (mabs (dn_meta st'), n)"
    using meta.put_block [OF assms(1) m'(1)] m'(2) by (simp_all add: refines_step_def)
qed

lemma get_block_committed:
  assumes "mwf (dn_meta st)" "\<And>bd. mv_blocks (mabs (dn_meta st)) b = Some bd \<Longrightarrow> btree_wf (bd_metadata bd)"
  shows "client_get_block (local_rpc crc svc) st b = Ok (mv_blocks (mabs (dn_meta st)) b) \<or>
    (\<exists>e. backend_error e \<and> client_get_block (local_rpc crc svc) st b = Err (Rpc (storage_status e)))"
proof (cases "mo_get_block (svc_meta svc) (dn_meta st) b")
  case (Ok found)
  with meta.get_block [OF assms(1), of b] have f: "found = mv_blocks (mabs (dn_meta st)) b"
    by (simp add: refines_read_def)
  show ?thesis
    using Ok f assms(2)
    by (cases "mv_blocks (mabs (dn_meta st)) b") (simp_all add: client_get_block_def local_rpc_def dn_get_block_def from_wire_to_wire
        block_data_from_wire_to_wire)
next
  case (Err e)
  with meta.get_block [OF assms(1), of b] have e: "backend_error e" by (simp add: refines_read_def)
  then have "status_code (storage_status e) \<noteq> NotFound"
    by (cases e) (simp_all add: backend_error_def storage_status_def)
  with Err e show ?thesis by (auto simp: client_get_block_def local_rpc_def dn_get_block_def from_wire_to_wire)
next
  case Panic
  with meta.get_block [OF assms(1), of b] show ?thesis by (simp add: refines_read_def)
qed

end

section \<open>Deleting\<close>

context datanode begin

lemma delete_container_outcome:
  assumes "mwf (dn_meta st)" "client_delete_container (local_rpc crc svc) st c = (st', r)"
  shows "mwf (dn_meta st')" "r \<noteq> Panic"
    "(mabs (dn_meta st') = mabs (dn_meta st) \<and> dn_chunks st' = dn_chunks st \<and> (\<exists>e. r = Err e)) \<or>
     (spec_delete_container (mabs (dn_meta st)) c = Ok (mabs (dn_meta st'), ()) \<and>
      (\<forall>b n. bid_container b \<noteq> c \<longrightarrow> view (dn_chunks st') (b, n) = view (dn_chunks st) (b, n)) \<and>
      (r = Ok () \<longrightarrow> (\<forall>b n. bid_container b = c \<longrightarrow> view (dn_chunks st') (b, n) = None)))"
proof -
  obtain m' r1 where m: "mo_delete_container (svc_meta svc) (dn_meta st) c = (m', r1)" by fastforce
  obtain k' r2 where k: "co_delete_container (svc_chunks svc) (dn_chunks st) c = (k', r2)" by fastforce
  note law = meta.delete_container [OF assms(1) m]
  have run: "(st', r) = (case r1 of
      Ok _ \<Rightarrow> (st\<lparr>dn_meta := m', dn_chunks := k'\<rparr>, map_err Rpc (map_err storage_status r2))
    | Err e \<Rightarrow> (st\<lparr>dn_meta := m'\<rparr>, Err (Rpc (storage_status e)))
    | Panic \<Rightarrow> (st\<lparr>dn_meta := m'\<rparr>, Panic))"
    using assms(2) m k
    by (cases r1) (simp_all add: client_delete_container_def local_rpc_def rpc_upd_def dn_delete_container_def Let_def
        container_id_from_wire_def container_id_to_wire_def on_meta_def on_chunks_def)
  have p1: "r1 \<noteq> Panic" using law by (auto simp: refines_step_def)
  have p2: "r2 \<noteq> Panic" using chunk.delete_container_total [of "dn_chunks st" c] k by simp
  show "mwf (dn_meta st')" using run law by (cases r1) auto
  show "r \<noteq> Panic" using run p1 p2 by (cases r1) (auto simp: res_simps)
  show "(mabs (dn_meta st') = mabs (dn_meta st) \<and> dn_chunks st' = dn_chunks st \<and> (\<exists>e. r = Err e)) \<or>
     (spec_delete_container (mabs (dn_meta st)) c = Ok (mabs (dn_meta st'), ()) \<and>
      (\<forall>b n. bid_container b \<noteq> c \<longrightarrow> view (dn_chunks st') (b, n) = view (dn_chunks st) (b, n)) \<and>
      (r = Ok () \<longrightarrow> (\<forall>b n. bid_container b = c \<longrightarrow> view (dn_chunks st') (b, n) = None)))"
  proof (cases r1)
    case (Ok u)
    have other: "view k' (b, n) = view (dn_chunks st) (b, n)" if "bid_container b \<noteq> c" for b n
      by (rule chunk.delete_container_other [OF k that])
    have gone: "view k' (b, n) = None" if "r2 = Ok ()" "bid_container b = c" for b n
      using chunk.delete_container_Ok [of "dn_chunks st" c k' "()"] k that by simp
    from Ok run law other gone show ?thesis by (auto simp: refines_step_def res_simps)
  next
    case (Err e)
    with run law show ?thesis by (auto simp: refines_step_def)
  qed (use p1 in simp)
qed

lemma delete_chunks_outcome:
  assumes "delete_chunks svc st b cis = (st', r)" "\<forall>ci\<in>set cis. ok_name (ci_chunk_name ci)"
  shows "dn_meta st' = dn_meta st \<and> r \<noteq> Panic \<and>
    (\<forall>b' n. b' \<noteq> b \<or> n \<notin> ci_chunk_name ` set cis \<longrightarrow> view (dn_chunks st') (b', n) = view (dn_chunks st) (b', n)) \<and>
    (\<forall>n. view (dn_chunks st) (b, n) = None \<longrightarrow> view (dn_chunks st') (b, n) = None) \<and>
    (r = Ok () \<longrightarrow> (\<forall>ci\<in>set cis. view (dn_chunks st') (b, ci_chunk_name ci) = None))"
  using assms
proof (induction cis arbitrary: st)
  case (Cons ci cis)
  obtain k r1 where k: "co_delete (svc_chunks svc) (dn_chunks st) b ci = (k, r1)" by fastforce
  show ?case
  proof (cases r1)
    case (Ok u)
    let ?st = "st\<lparr>dn_chunks := k\<rparr>"
    have v: "view k = (view (dn_chunks st))((b, ci_chunk_name ci) := None)"
      using chunk.delete_Ok [of "dn_chunks st" b ci k u] k Ok Cons.prems(2) by simp
    have "delete_chunks svc ?st b cis = (st', r)"
      using Cons.prems(1) k Ok by (simp add: on_chunks_def)
    from Cons.IH [OF this] Cons.prems(2)
    have "dn_meta st' = dn_meta st \<and> r \<noteq> Panic \<and>
      (\<forall>b' n. b' \<noteq> b \<or> n \<notin> ci_chunk_name ` set cis \<longrightarrow> view (dn_chunks st') (b', n) = view k (b', n)) \<and>
      (\<forall>n. view k (b, n) = None \<longrightarrow> view (dn_chunks st') (b, n) = None) \<and>
      (r = Ok () \<longrightarrow> (\<forall>ci\<in>set cis. view (dn_chunks st') (b, ci_chunk_name ci) = None))"
      by simp
    then show ?thesis by (auto simp: v)
  next
    case (Err e)
    then have "view k = view (dn_chunks st)" using chunk.delete_Err [of "dn_chunks st" b ci k e] k by simp
    with Cons.prems(1) k Err show ?thesis by (auto simp: on_chunks_def)
  next
    case Panic
    with chunk.delete_total [of "dn_chunks st" b ci] k show ?thesis by simp
  qed
qed auto

end

context datanode begin

text \<open>Deleting a block: the chunks it records, then its metadata.\<close>

lemma delete_block_outcome:
  assumes wf: "mwf (dn_meta st)" and run: "client_delete_block (local_rpc crc svc) st b = (st', r)"
    and names: "\<forall>bd. mv_blocks (mabs (dn_meta st)) b = Some bd \<longrightarrow> (\<forall>ci\<in>set (bd_chunks bd). ok_name (ci_chunk_name ci))"
  shows "mwf (dn_meta st') \<and> r \<noteq> Panic \<and>
    (mabs (dn_meta st') = mabs (dn_meta st) \<or> spec_delete_block (mabs (dn_meta st)) b = Ok (mabs (dn_meta st'), ())) \<and>
    (\<forall>b' n. b' \<noteq> b \<longrightarrow> view (dn_chunks st') (b', n) = view (dn_chunks st) (b', n)) \<and>
    (r = Ok () \<longrightarrow> spec_delete_block (mabs (dn_meta st)) b = Ok (mabs (dn_meta st'), ())) \<and>
    (spec_delete_block (mabs (dn_meta st)) b = Ok (mabs (dn_meta st'), ()) \<and> mabs (dn_meta st') \<noteq> mabs (dn_meta st) \<or> r = Ok () \<longrightarrow>
       (\<forall>bd. mv_blocks (mabs (dn_meta st)) b = Some bd \<longrightarrow>
          (\<forall>ci\<in>set (bd_chunks bd). view (dn_chunks st') (b, ci_chunk_name ci) = None)))"
proof (cases "mo_get_block (svc_meta svc) (dn_meta st) b")
  case (Ok found)
  with meta.get_block [OF wf, of b] have f: "found = mv_blocks (mabs (dn_meta st)) b" by (simp add: refines_read_def)
  let ?cis = "case found of Some bd \<Rightarrow> bd_chunks bd | None \<Rightarrow> []"
  obtain st1 r1 where d: "delete_chunks svc st b ?cis = (st1, r1)" by fastforce
  have "\<forall>ci\<in>set ?cis. ok_name (ci_chunk_name ci)" using names f [symmetric] by (cases found) auto
  note ch = delete_chunks_outcome [OF d this]
  have go: "(st', r) = rpc_upd (try_upd (st1, r1) (\<lambda>st' _. on_meta st' (mo_delete_block (svc_meta svc) (dn_meta st') b)))"
    using run Ok d by (cases found) (auto simp add: client_delete_block_def local_rpc_def dn_delete_block_def from_wire_to_wire)
  show ?thesis
  proof (cases r1)
    case (Ok u)
    obtain m' r2 where m: "mo_delete_block (svc_meta svc) (dn_meta st1) b = (m', r2)" by fastforce
    have "dn_meta st1 = dn_meta st" using ch by blast
    then have law: "mwf m' \<and> refines_step (spec_delete_block (mabs (dn_meta st)) b) (mabs (dn_meta st)) (mabs m') r2"
      using meta.delete_block [of "dn_meta st1" b m' r2] wf m by simp
    have st': "st' = st1\<lparr>dn_meta := m'\<rparr>" "r = map_err Rpc (map_err storage_status r2)"
      using go Ok m by (simp_all add: rpc_upd_def on_meta_def)
    have gone: "\<forall>ci\<in>set (bd_chunks bd). view (dn_chunks st1) (b, ci_chunk_name ci) = None"
      if "mv_blocks (mabs (dn_meta st)) b = Some bd" for bd
      using that ch Ok f by auto
    show ?thesis using law ch st' gone by (cases r2) (auto simp: refines_step_def)
  next
    case (Err e)
    then have "st' = st1" "r = Err (Rpc e)" using go by (simp_all add: rpc_upd_def)
    with ch wf show ?thesis by simp
  qed (use ch in simp)
next
  case (Err e)
  with meta.get_block [OF wf, of b] run wf show ?thesis
    by (auto simp: client_delete_block_def local_rpc_def dn_delete_block_def from_wire_to_wire rpc_upd_def)
next
  case Panic
  with meta.get_block [OF wf, of b] show ?thesis by (simp add: refines_read_def)
qed

end

section \<open>Listing\<close>

abbreviation lid :: "block_data \<Rightarrow> u64" where
  "lid bd \<equiv> bid_local (bd_block_id bd)"

text \<open>When local ids are distinct, the cursor of a page continues exactly where the page ended.\<close>

lemma filter_from_cursor:
  assumes "sorted_wrt (\<lambda>a b. lid a < lid b) bs" "i < length (filter (\<lambda>b. start \<le> lid b) bs)"
  defines "rest \<equiv> filter (\<lambda>b. start \<le> lid b) bs"
  shows "filter (\<lambda>b. lid (rest ! i) \<le> lid b) bs = drop i rest"
proof -
  have srt: "sorted_wrt (\<lambda>a b. lid a < lid b) rest"
    unfolding rest_def using assms(1) by (rule sorted_wrt_filter)
  have i: "i < length rest" using assms(2) by (simp add: rest_def)
  have "start \<le> lid (rest ! i)" using nth_mem [OF i] by (simp add: rest_def)
  then have "filter (\<lambda>b. lid (rest ! i) \<le> lid b) bs = filter (\<lambda>b. lid (rest ! i) \<le> lid b) rest"
    by (auto simp: rest_def intro!: filter_cong)
  also have "\<dots> = filter (\<lambda>b. lid (rest ! i) \<le> lid b) (take i rest @ drop i rest)" by simp
  also have "\<dots> = filter (\<lambda>b. lid (rest ! i) \<le> lid b) (take i rest) @ filter (\<lambda>b. lid (rest ! i) \<le> lid b) (drop i rest)"
    by (rule filter_append)
  also have "filter (\<lambda>b. lid (rest ! i) \<le> lid b) (take i rest) = []"
    using sorted_wrt_nth_less [OF srt] i by (auto simp: filter_empty_conv in_set_conv_nth not_le)
  also have "filter (\<lambda>b. lid (rest ! i) \<le> lid b) (drop i rest) = drop i rest"
  proof (rule filter_True, rule ballI)
    fix x assume "x \<in> set (drop i rest)"
    then obtain j where "j < length rest - i" "x = rest ! (i + j)" by (auto simp: in_set_conv_nth)
    then show "lid (rest ! i) \<le> lid x"
      using sorted_wrt_nth_less [OF srt, of i "i + j"] by (cases "j = 0") (auto simp: less_diff_conv add.commute less_imp_le)
  qed
  finally show ?thesis by simp
qed

definition page_blocks :: "(status, list_blocks_response) result \<Rightarrow> wire_block_data list" where
  "page_blocks m = (case m of Ok p \<Rightarrow> lbr_blocks p | _ \<Rightarrow> [])"

lemma page_blocks_Ok [simp]: "page_blocks (Ok p) = lbr_blocks p"
  by (simp add: page_blocks_def)

lemma list_blocks_task_complete:
  assumes srt: "sorted_wrt (\<lambda>a b. lid a < lid b) bs" and pos: "0 < p"
    and reads: "\<And>start. mo_list_blocks meta m c start p = Ok (page_of bs start p)"
    and n: "length (filter (\<lambda>b. start \<le> lid b) bs) < n"
  shows "length (list_blocks_task meta m c p n start) \<le> Suc (length (filter (\<lambda>b. start \<le> lid b) bs) div p) \<and>
    (\<forall>r\<in>set (list_blocks_task meta m c p n start). \<exists>page. r = Ok page) \<and>
    concat (map page_blocks (list_blocks_task meta m c p n start)) =
      map block_data_to_wire (filter (\<lambda>b. start \<le> lid b) bs)"
  using n
proof (induction n arbitrary: start)
  case (Suc n)
  let ?rest = "filter (\<lambda>b. start \<le> lid b) bs"
  show ?case
  proof (cases "p < length ?rest")
    case False
    then show ?thesis by (simp add: reads page_of_def Let_def page_blocks_def)
  next
    case True
    let ?next = "lid (?rest ! p)"
    have drop: "filter (\<lambda>b. ?next \<le> lid b) bs = drop p ?rest"
      by (rule filter_from_cursor [OF srt True])
    have shorter: "length (drop p ?rest) < n" using Suc.prems True pos by simp
    note ih = Suc.IH [of ?next, unfolded drop, OF shorter]
    have "Suc (Suc (length (drop p ?rest) div p)) = Suc (length ?rest div p)"
      using True pos by (simp add: le_div_geq)
    moreover have "list_blocks_task meta m c p (Suc n) start =
        Ok \<lparr>lbr_blocks = map block_data_to_wire (take p ?rest), lbr_next_local_id = ?next\<rparr>
          # list_blocks_task meta m c p n ?next"
      using True by (simp add: reads page_of_def Let_def)
    ultimately show ?thesis
      using ih by (auto simp: page_blocks_def simp del: list_blocks_task.simps simp flip: map_append)
  qed
qed simp

lemma drain_pages_complete:
  assumes "\<forall>r\<in>set ms. \<exists>page. r = Ok page" "\<forall>bd\<in>set bds. btree_wf (bd_metadata bd)"
    "concat (map page_blocks ms) = map block_data_to_wire bds"
  shows "drain_pages True ms out = Some (Ok (out @ bds))"
  using assms
proof (induction ms arbitrary: bds out)
  case (Cons m ms)
  then obtain page where m: "m = Ok page" by auto
  have "\<exists>us vs. bds = us @ vs \<and> lbr_blocks page = map block_data_to_wire us \<and>
      concat (map page_blocks ms) = map block_data_to_wire vs"
    using Cons.prems(3) by (simp add: m append_eq_map_conv)
  then obtain us vs where us: "bds = us @ vs" "lbr_blocks page = map block_data_to_wire us"
    "concat (map page_blocks ms) = map block_data_to_wire vs" by blast
  have "rmap_list block_data_from_wire (map block_data_to_wire us) = Ok us"
    using Cons.prems(2) us(1) by (induction us arbitrary: bds) (auto simp: block_data_from_wire_to_wire)
  with Cons.IH [of vs "out @ us"] Cons.prems us m show ?case by simp
qed simp

section \<open>Properties\<close>

definition sample_svc :: "fs_oracle \<Rightarrow> (mem_state, chunk_fs) datanode_service" where
  "sample_svc io = dn_service mem_keyspace mem_postcard io 7 ''/d'' ''0.1.0''"

definition empty_fs :: chunk_fs where
  "empty_fs = \<lparr>fs_files = Map.empty, fs_temp_seq = 0\<rparr>"

definition sample_dn :: "(mem_state, chunk_fs) dn_state" where
  "sample_dn = \<lparr>dn_meta = mem_filled, dn_chunks = empty_fs\<rparr>"

lemma svc_dn_service [simp]:
  "svc_meta (dn_service F P io pid root build) = fjall_meta_store F P"
  "svc_chunks (dn_service F P io pid root build) = file_chunk_store io pid root"
  by (simp_all add: dn_service_def datanode_service_new_def)

text \<open>
  C13: a chunk that the client writes is the chunk it reads. On a working disk, a write through the
  client, the framed stream and the server either stores the chunk (and reports its length; reading
  it back, verified or not, returns exactly the bytes, of any length, empty included) or is refused
  because the bytes do not match the checksums the client itself sent, and then changes nothing. The
  metadata is neither consulted nor changed: the handler takes bytes for a container in any state,
  and for one that was never created, although \<open>container.rs\<close> has only an open container accept
  chunks (\<open>closed_container_takes_chunks\<close> below); what protects a closed container is that the block
  naming the chunk cannot be committed.
\<close>

theorem chunk_write_read:
  fixes data :: bytes
  assumes "client_write_chunk (local_rpc crc (dn_service F P io_ok pid root build)) st b ci data = (st', r)"
    "ok_chunk_name (ci_chunk_name ci)" "v \<longrightarrow> ci_checksum_data ci \<noteq> None"
  shows "(r = Ok (of_nat (length data)) \<and> dn_meta st' = dn_meta st \<and>
      client_read_chunk (local_rpc crc (dn_service F P io_ok pid root build)) st' b ci v = Ok data) \<or>
    (\<exists>cd e. ci_checksum_data ci = Some cd \<and> verify crc data cd = Err e \<and> r = Err (Rpc (data_loss e)) \<and> st' = st)"
proof -
  obtain k where k: "co_write (file_chunk_store io_ok pid root) (dn_chunks st) b ci data = (k, Ok ())"
    using disk.write_succeeds [of pid root "dn_chunks st" b ci data]
    by (cases "co_write (file_chunk_store io_ok pid root) (dn_chunks st) b ci data") simp
  then have "file_view root k (b, ci_chunk_name ci) = Some data"
    using file_store.write_Ok [OF k assms(2)] by simp
  then have read: "co_read (file_chunk_store io_ok pid root) k b ci = Ok data"
    by (rule disk.read_succeeds)
  show ?thesis
  proof (cases "ci_checksum_data ci")
    case None
    then show ?thesis
      using assms k read
      by (auto simp add: client_write_chunk_local client_read_chunk_local rpc_upd_def on_chunks_def read_check_def)
  next
    case (Some cd)
    then show ?thesis
      using assms(1) k read
      by (cases "verify crc data cd")
        (auto simp add: client_write_chunk_local client_read_chunk_local rpc_upd_def on_chunks_def
          read_check_own_checksum [OF Some])
  qed
qed

theorem chunk_write_read_witness:
  "let ci = sample_chunk\<lparr>ci_checksum_data := Some (the_ok (compute sum_digest [1, 2] 2 Crc32c))\<rparr>;
       rpc = local_rpc sum_digest (sample_svc io_ok);
       (st', r) = client_write_chunk rpc sample_dn sample_block_id ci [1, 2]
   in r = Ok 2 \<and> client_read_chunk rpc st' sample_block_id ci True = Ok [1, 2]"
proof -
  let ?cd = "the_ok (compute sum_digest [1, 2] 2 Crc32c)"
  let ?ci = "sample_chunk\<lparr>ci_checksum_data := Some ?cd\<rparr>"
  let ?rpc = "local_rpc sum_digest (sample_svc io_ok)"
  obtain st' r where w: "client_write_chunk ?rpc sample_dn sample_block_id ?ci [1, 2] = (st', r)" by fastforce
  have "ok_chunk_name (ci_chunk_name ?ci)" by code_simp
  moreover have "verify sum_digest [1, 2] ?cd = Ok ()" by code_simp
  ultimately show ?thesis
    using chunk_write_read [of sum_digest mem_keyspace mem_postcard 7 "''/d''" "''0.1.0''" sample_dn
        sample_block_id ?ci "[1, 2]" st' r True] w
    by (simp add: sample_svc_def Let_def)
qed

text \<open>
  A container that is closed, and one that was never created, take chunks: the write is acknowledged
  and the bytes are on disk.
\<close>

lemma closed_container_takes_chunks:
  assumes "m \<in> {fst (fjall_set_container_state mem_keyspace mem_postcard mem_opened 1 Closed), mem_empty}"
  shows "map_option (cinfo_state \<circ> fst) (mv_containers (fj_abs mem_postcard (mem_kv m)) 1) \<noteq> Some Open"
    "snd (client_write_chunk (local_rpc crc (sample_svc io_ok)) \<lparr>dn_meta = m, dn_chunks = k\<rparr> sample_block_id sample_chunk [1, 2]) = Ok 2"
proof -
  show "map_option (cinfo_state \<circ> fst) (mv_containers (fj_abs mem_postcard (mem_kv m)) 1) \<noteq> Some Open"
    using assms
    by (auto simp: mem_opened_eq fjall_set_container_state_def fj_abs_def mem_kv_def mem_keyspace_def mem_postcard_def
        mem_empty_def fj_def fj_decode_def fj_encode_def fj_upd_def Let_def)
  have "snd (co_write (file_chunk_store io_ok 7 ''/d'') k sample_block_id sample_chunk [1, 2]) = Ok ()"
    by (rule disk.write_succeeds)
  then show "snd (client_write_chunk (local_rpc crc (sample_svc io_ok)) \<lparr>dn_meta = m, dn_chunks = k\<rparr> sample_block_id sample_chunk [1, 2]) = Ok 2"
    by (cases "co_write (file_chunk_store io_ok 7 ''/d'') k sample_block_id sample_chunk [1, 2]")
      (simp add: client_write_chunk_local sample_svc_def rpc_upd_def on_chunks_def sample_chunk_def)
qed

text \<open>The checksum that governs a read: the one the request brings, else the one recorded for the chunk.\<close>

definition governing_checksum :: "meta_view \<Rightarrow> block_id \<Rightarrow> chunk_info \<Rightarrow> checksum_data option" where
  "governing_checksum v b ci =
     (case ci_checksum_data ci of
        Some cd \<Rightarrow> Some cd
      | None \<Rightarrow>
          (case mv_blocks v b of
             None \<Rightarrow> None
           | Some bd \<Rightarrow>
               (case filter (\<lambda>c. ci_chunk_name c = ci_chunk_name ci) (bd_chunks bd) of
                  [] \<Rightarrow> None
                | c # _ \<Rightarrow> ci_checksum_data c)))"

lemma find_filter: "find P xs = (case filter P xs of [] \<Rightarrow> None | x # _ \<Rightarrow> Some x)"
  by (induction xs) auto

lemma read_check_governing:
  assumes "fjall_contract F P kv" "fj_wf P (kv (dn_meta st))"
  shows "read_check crc (dn_service F P io pid root build) st b ci True data =
      (case governing_checksum (fj_abs P (kv (dn_meta st))) b ci of
         Some cd \<Rightarrow> map_err data_loss (verify crc data cd) | None \<Rightarrow> Ok ()) \<or>
    (\<exists>e. ci_checksum_data ci = None \<and> mo_get_block (fjall_meta_store F P) (dn_meta st) b = Err e \<and> backend_error e \<and>
      read_check crc (dn_service F P io pid root build) st b ci True data = Err (storage_status e))"
proof (cases "ci_checksum_data ci")
  case None
  note get = meta_store_laws.get_block [OF fjall_contract.fjall_meets_laws [OF assms(1)] assms(2), of b]
  show ?thesis
  proof (cases "mo_get_block (fjall_meta_store F P) (dn_meta st) b")
    case (Ok found)
    with get have "found = mv_blocks (fj_abs P (kv (dn_meta st))) b" by (simp add: refines_read_def)
    with Ok None show ?thesis
      by (auto simp: read_check_def expected_checksum_def governing_checksum_def find_filter split: option.splits list.splits)
  next
    case (Err e)
    with get None show ?thesis by (simp add: refines_read_def read_check_def expected_checksum_def)
  qed (use get in \<open>simp add: refines_read_def\<close>)
qed (simp add: read_check_def expected_checksum_def governing_checksum_def)

text \<open>
  C14: a verified read never returns bytes that fail their checksum. For every chunk and whatever the
  disk returned: when the request asks for verification and succeeds, the bytes are what the disk
  holds and they verify against the checksum the request brings or, when it brings none (as the
  gateway's reads do), against the one recorded for the chunk in the block's metadata, if any.
  Otherwise the client sees the disk's error, the failure of the metadata backend that could not be
  asked, or \<open>DataLoss\<close> because exactly that checksum does not match; never a panic.
\<close>

theorem verified_read_integrity:
  assumes "fjall_contract F P kv" "fj_wf P (kv (dn_meta st))"
  shows "let found = file_read_chunk io root (dn_chunks st) b ci;
             expected = governing_checksum (fj_abs P (kv (dn_meta st))) b ci in
    case client_read_chunk (local_rpc crc (dn_service F P io pid root build)) st b ci True of
      Ok data \<Rightarrow> found = Ok data \<and> (\<forall>cd. expected = Some cd \<longrightarrow> verify crc data cd = Ok ())
    | Err (Rpc s) \<Rightarrow>
        (\<exists>e. found = Err e \<and> s = storage_status e) \<or>
        (\<exists>e. ci_checksum_data ci = None \<and> mo_get_block (fjall_meta_store F P) (dn_meta st) b = Err e \<and>
           backend_error e \<and> s = storage_status e) \<or>
        (\<exists>data cd e. found = Ok data \<and> expected = Some cd \<and> verify crc data cd = Err e \<and> s = data_loss e)
    | Err _ \<Rightarrow> False | Panic \<Rightarrow> False"
proof -
  let ?svc = "dn_service F P io pid root build"
  have rd: "co_read (svc_chunks ?svc) (dn_chunks st) b ci = file_read_chunk io root (dn_chunks st) b ci"
    by (simp add: file_chunk_store_def)
  show ?thesis
  proof (cases "file_read_chunk io root (dn_chunks st) b ci")
    case (Ok data)
    have vp: "verify crc data cd \<noteq> Panic" for cd by simp
    from read_check_governing [OF assms, of crc io pid root build b ci data] show ?thesis
    proof (elim disjE exE conjE)
      assume "read_check crc ?svc st b ci True data =
        (case governing_checksum (fj_abs P (kv (dn_meta st))) b ci of
           Some cd \<Rightarrow> map_err data_loss (verify crc data cd) | None \<Rightarrow> Ok ())"
      then show ?thesis
        using Ok rd vp
        by (cases "governing_checksum (fj_abs P (kv (dn_meta st))) b ci"; cases "verify crc data (the (governing_checksum (fj_abs P (kv (dn_meta st))) b ci))")
          (auto simp: client_read_chunk_local)
    qed (use Ok rd in \<open>simp add: client_read_chunk_local\<close>)
  next
    case (Err e)
    then show ?thesis using rd by (simp add: client_read_chunk_local)
  next
    case Panic
    then show ?thesis using file_store.read_total [of io pid root "dn_chunks st" b ci] rd by simp
  qed
qed

definition checked_block :: block_data where
  "checked_block = sample_block\<lparr>bd_chunks :=
     [sample_chunk\<lparr>ci_checksum_data := Some (the_ok (compute sum_digest [1, 2] 2 Crc32c))\<rparr>]\<rparr>"

definition checked_mem :: mem_state where
  "checked_mem = mem_opened(Blocks := [(block_key sample_block_id, Mem_Block checked_block)])"

lemma checked_mem_wf: "fj_wf mem_postcard (mem_kv checked_mem)"
  by (simp add: checked_mem_def mem_opened_eq fj_wf_def mem_kv_def mem_empty_def mem_postcard_def
      container_info_new_open_def checked_block_def sample_block_def)

lemma checked_mem_block: "mv_blocks (fj_abs mem_postcard (mem_kv checked_mem)) sample_block_id = Some checked_block"
  by (simp add: checked_mem_def fj_abs_def mem_kv_def mem_postcard_def)

theorem verified_read_integrity_witness:
  "let fs = empty_fs\<lparr>fs_files := [chunk_file ''/d'' sample_block_id ''c0'' \<mapsto> [1, 9]]\<rparr>;
       st = \<lparr>dn_meta = checked_mem, dn_chunks = fs\<rparr>;
       own = sample_chunk\<lparr>ci_checksum_data := Some (the_ok (compute sum_digest [1, 9] 2 Crc32c))\<rparr>;
       rpc = local_rpc sum_digest (sample_svc io_ok)
   in client_read_chunk rpc st sample_block_id sample_chunk False = Ok [1, 9] \<and>
      client_read_chunk rpc st sample_block_id sample_chunk True = Err (Rpc (data_loss (Mismatch 0))) \<and>
      client_read_chunk rpc st sample_block_id own True = Ok [1, 9]"
proof -
  let ?fs = "empty_fs\<lparr>fs_files := [chunk_file ''/d'' sample_block_id ''c0'' \<mapsto> [1, 9]]\<rparr>"
  let ?st = "\<lparr>dn_meta = checked_mem, dn_chunks = ?fs\<rparr>"
  let ?rpc = "local_rpc sum_digest (sample_svc io_ok)"
  let ?own = "sample_chunk\<lparr>ci_checksum_data := Some (the_ok (compute sum_digest [1, 9] 2 Crc32c))\<rparr>"
  have read: "file_read_chunk io_ok ''/d'' ?fs sample_block_id ci = Ok [1, 9]" if "ci_chunk_name ci = ''c0''" for ci
    using that by (simp add: file_read_chunk_def io_ok_def chunk_file_def)
  have bad: "verify sum_digest [1, 9] (the_ok (compute sum_digest [1, 2] 2 Crc32c)) = Err (Mismatch 0)" by code_simp
  have good: "verify sum_digest [1, 9] (the_ok (compute sum_digest [1, 9] 2 Crc32c)) = Ok ()" by code_simp
  have get: "mo_get_block (fjall_meta_store mem_keyspace mem_postcard) checked_mem sample_block_id = Ok (Some checked_block)"
    by (simp add: fjall_meta_store_def fjall_get_block_def mem_keyspace_def mem_postcard_def checked_mem_def fj_def fj_decode_def)
  have gov: "governing_checksum (fj_abs mem_postcard (mem_kv checked_mem)) sample_block_id sample_chunk =
      Some (the_ok (compute sum_digest [1, 2] 2 Crc32c))"
    by (simp add: governing_checksum_def checked_mem_block checked_block_def sample_chunk_def)
  have gov': "governing_checksum v sample_block_id ?own = Some (the_ok (compute sum_digest [1, 9] 2 Crc32c))" for v
    by (simp add: governing_checksum_def)
  note int = verified_read_integrity [OF mem.fjall_contract_axioms, where st = ?st and crc = sum_digest and io = io_ok
      and pid = 7 and root = "''/d''" and build = "''0.1.0''", simplified, OF checked_mem_wf, of sample_block_id]
  have nm: "ci_chunk_name sample_chunk = ''c0''" "ci_chunk_name ?own = ''c0''" by (simp_all add: sample_chunk_def)
  have "client_read_chunk ?rpc ?st sample_block_id sample_chunk False = Ok [1, 9]"
    using read [OF nm(1)] by (simp add: client_read_chunk_local sample_svc_def file_chunk_store_def read_check_def)
  moreover have "client_read_chunk ?rpc ?st sample_block_id sample_chunk True = Err (Rpc (data_loss (Mismatch 0)))"
    using int [of sample_chunk] read [OF nm(1)] bad gov get
    by (auto simp: sample_svc_def Let_def split: result.splits dn_client_error.splits)
  moreover have "client_read_chunk ?rpc ?st sample_block_id ?own True = Ok [1, 9]"
    using int [of ?own] read [OF nm(2)] good gov'
    by (auto simp: sample_svc_def Let_def split: result.splits dn_client_error.splits)
  ultimately show ?thesis by (simp add: Let_def)
qed

text \<open>
  C15: a committed block is the block that is read. After the client's \<open>put_block\<close> succeeds,
  \<open>get_block\<close> returns exactly the block that was put (or the metadata backend's failure), every other
  block reads as before, the chunks are untouched, and the container that accepted it exists, is open
  and has the returned commit sequence id.
\<close>

theorem block_put_get:
  assumes "fjall_contract F P kv" "fj_wf P (kv (dn_meta st))" "btree_wf (bd_metadata bd)"
    "client_put_block (local_rpc crc (dn_service F P io pid root build)) st bd eof = (st', Ok n)"
  shows "(client_get_block (local_rpc crc (dn_service F P io pid root build)) st' (bd_block_id bd) = Ok (Some bd) \<or>
      (\<exists>e. backend_error e \<and>
        client_get_block (local_rpc crc (dn_service F P io pid root build)) st' (bd_block_id bd) = Err (Rpc (storage_status e)))) \<and>
    (\<forall>b. b \<noteq> bd_block_id bd \<longrightarrow>
      mv_blocks (fj_abs P (kv (dn_meta st'))) b = mv_blocks (fj_abs P (kv (dn_meta st))) b) \<and>
    dn_chunks st' = dn_chunks st \<and>
    (\<exists>info. mv_containers (fj_abs P (kv (dn_meta st'))) (bid_container (bd_block_id bd)) = Some (info, n) \<and>
      cinfo_state info = Open)"
proof -
  note dn = dn_service_datanode [OF assms(1), of io pid root build]
  note step = datanode.put_block_step [OF dn assms(2-4)]
  obtain info where c: "mv_containers (fj_abs P (kv (dn_meta st'))) (bid_container (bd_block_id bd)) = Some (info, n)"
    "is_writable (cinfo_state info)"
    and blocks: "mv_blocks (fj_abs P (kv (dn_meta st'))) = (mv_blocks (fj_abs P (kv (dn_meta st))))(bd_block_id bd \<mapsto> bd)"
    by (rule spec_put_block_Ok [OF step(3)]) auto
  from c have "\<exists>info. mv_containers (fj_abs P (kv (dn_meta st'))) (bid_container (bd_block_id bd)) = Some (info, n) \<and>
      cinfo_state info = Open"
    by (auto simp: is_writable_def split: container_state.splits)
  moreover note datanode.get_block_committed [OF dn step(1), of "bd_block_id bd" crc]
  ultimately show ?thesis using blocks step(2) assms(3) by auto
qed

theorem block_put_get_witness:
  "let rpc = local_rpc sum_digest (sample_svc io_ok); st = \<lparr>dn_meta = mem_opened, dn_chunks = empty_fs\<rparr>;
       (st', r) = client_put_block rpc st sample_block True
   in r = Ok 1 \<and> client_get_block rpc st' sample_block_id = Ok (Some sample_block)"
proof -
  let ?st = "\<lparr>dn_meta = mem_opened, dn_chunks = empty_fs\<rparr>" and ?st' = "\<lparr>dn_meta = mem_filled, dn_chunks = empty_fs\<rparr>"
  have wf: "btree_wf (bd_metadata sample_block)" by (simp add: btree_wf_def sample_block_def)
  have put: "client_put_block (local_rpc sum_digest (sample_svc io_ok)) ?st sample_block True = (?st', Ok 1)"
    by (simp add: client_put_block_def local_rpc_def sample_svc_def dn_put_block_def block_data_from_wire_to_wire [OF wf]
        rpc_upd_def on_meta_def fjall_meta_store_def mem_put_block mem_filled_def)
  have get: "mo_get_block (fjall_meta_store mem_keyspace mem_postcard) mem_filled sample_block_id = Ok (Some sample_block)"
    unfolding mem_filled_def mem_put_block
    by (simp add: fjall_meta_store_def fjall_get_block_def mem_keyspace_def mem_postcard_def fj_def fj_decode_def)
  have "client_get_block (local_rpc sum_digest (sample_svc io_ok)) ?st' sample_block_id \<noteq> Err e" for e
    using get by (simp add: client_get_block_def local_rpc_def sample_svc_def dn_get_block_def from_wire_to_wire
        block_data_from_wire_to_wire [OF wf])
  moreover have "bd_block_id sample_block = sample_block_id" by (simp add: sample_block_def)
  ultimately have "client_get_block (local_rpc sum_digest (sample_svc io_ok)) ?st' sample_block_id = Ok (Some sample_block)"
    using block_put_get [OF mem.fjall_contract_axioms, where st = ?st, simplified, OF mem_opened_wf wf
        put [unfolded sample_svc_def]]
    by (auto simp: sample_svc_def)
  with put show ?thesis by (simp add: Let_def)
qed

text \<open>
  C16: deleting a container never leaves metadata that points at deleted bytes. Whatever fails along
  the way, as long as the container or any block of it is still recorded, no chunk byte has been
  removed; a successful delete leaves neither records nor chunks of the container; and nothing of
  another container changes.
\<close>

theorem delete_container_no_dangling:
  assumes "fjall_contract F P kv" "fj_wf P (kv (dn_meta st))"
    "client_delete_container (local_rpc crc (dn_service F P io pid root build)) st c = (st', r)"
  shows "let v = fj_abs P (kv (dn_meta st)); v' = fj_abs P (kv (dn_meta st'));
             ch = file_view root (dn_chunks st); ch' = file_view root (dn_chunks st') in
    (mv_containers v' c \<noteq> None \<or> committed v' c \<noteq> {} \<longrightarrow> v' = v \<and> dn_chunks st' = dn_chunks st \<and> (\<exists>e. r = Err e)) \<and>
    (r = Ok () \<longrightarrow> mv_containers v' c = None \<and> committed v' c = {} \<and>
       (\<forall>b n. bid_container b = c \<longrightarrow> ch' (b, n) = None)) \<and>
    (\<forall>b n. bid_container b \<noteq> c \<longrightarrow> ch' (b, n) = ch (b, n) \<and> mv_blocks v' b = mv_blocks v b \<and>
       mv_containers v' (bid_container b) = mv_containers v (bid_container b))"
proof -
  note out = datanode.delete_container_outcome [OF dn_service_datanode [OF assms(1)] assms(2,3)]
  have spec: "mv_containers w c = None \<and> committed w c = {} \<and>
      (\<forall>b. bid_container b \<noteq> c \<longrightarrow> mv_blocks w b = mv_blocks v b \<and> mv_containers w (bid_container b) = mv_containers v (bid_container b))"
    if "spec_delete_container v c = Ok (w, u)" for v w u
    using that by (auto simp: spec_delete_container_def committed_def split: if_splits)
  from out(3) show ?thesis
  proof (elim disjE conjE exE)
    fix e assume "fj_abs P (kv (dn_meta st')) = fj_abs P (kv (dn_meta st))" "dn_chunks st' = dn_chunks st" "r = Err e"
    then show ?thesis by simp
  next
    assume "spec_delete_container (fj_abs P (kv (dn_meta st))) c = Ok (fj_abs P (kv (dn_meta st')), ())"
    note spec [OF this]
    moreover assume "\<forall>b n. bid_container b \<noteq> c \<longrightarrow> file_view root (dn_chunks st') (b, n) = file_view root (dn_chunks st) (b, n)"
      "r = Ok () \<longrightarrow> (\<forall>b n. bid_container b = c \<longrightarrow> file_view root (dn_chunks st') (b, n) = None)"
    ultimately show ?thesis by (simp add: Let_def)
  qed
qed

lemma mem_delete_container: "snd (fjall_delete_container mem_keyspace mem_postcard st c) = Ok ()"
proof -
  have "rmap_list (\<lambda>kv. rbind (fj kv) (\<lambda>(k, _). Ok (Remove Blocks k))) (fj_prefix mem_keyspace st Blocks (container_key c)) =
      (Ok :: mem_value batch_op list \<Rightarrow> (storage_error, _) result) (map (\<lambda>kv. Remove Blocks (fst kv)) (entries (mem_kv st Blocks) (container_key c)))"
    unfolding mem_prefix by (rule rmap_list_scan) (simp add: split_beta)
  then show ?thesis
    by (simp add: fjall_delete_container_def Let_def fj_upd_def fj_def mem_keyspace_def)
qed

theorem delete_container_no_dangling_witness:
  "let fs = empty_fs\<lparr>fs_files := [chunk_file ''/d'' sample_block_id ''c0'' \<mapsto> [1, 2]]\<rparr>;
       (st', r) = client_delete_container (local_rpc sum_digest (sample_svc io_ok)) \<lparr>dn_meta = mem_filled, dn_chunks = fs\<rparr> 1
   in r = Ok () \<and> committed (fj_abs mem_postcard (mem_kv (dn_meta st'))) 1 = {} \<and>
      file_view ''/d'' (dn_chunks st') (sample_block_id, ''c0'') = None"
proof -
  let ?fs = "empty_fs\<lparr>fs_files := [chunk_file ''/d'' sample_block_id ''c0'' \<mapsto> [1, 2]]\<rparr>"
  let ?st = "\<lparr>dn_meta = mem_filled, dn_chunks = ?fs\<rparr>"
  obtain st' r where run: "client_delete_container (local_rpc sum_digest (sample_svc io_ok)) ?st 1 = (st', r)" by fastforce
  have wf: "fj_wf mem_postcard (mem_kv mem_filled)"
    using mem.put_block_lands [OF mem_opened_wf, of sample_block] by (simp add: lands_def mem_filled_def)
  have "r = Ok ()"
    using run mem_delete_container [of mem_filled 1]
    by (cases "fjall_delete_container mem_keyspace mem_postcard mem_filled 1")
      (auto simp: client_delete_container_def local_rpc_def sample_svc_def dn_delete_container_def rpc_upd_def
        on_meta_def on_chunks_def container_id_from_wire_def container_id_to_wire_def Let_def
        fjall_meta_store_def file_chunk_store_def file_delete_container_def io_ok_def)
  then show ?thesis
    using delete_container_no_dangling [OF mem.fjall_contract_axioms, where st = ?st, simplified, OF wf run [unfolded sample_svc_def]] run
    by (simp add: Let_def sample_block_id_def sample_svc_def)
qed

text \<open>
  C17: deleting a block converges. Whatever fails, the block is either still recorded exactly as it
  was, so that a retry finds every chunk it has to remove, or it is gone and so are all the chunks it
  recorded; a delete that returns Ok leaves neither; and no other block's metadata and no other
  block's chunk is touched.
\<close>

theorem delete_block_converges:
  assumes "fjall_contract F P kv" "fj_wf P (kv (dn_meta st))"
    "client_delete_block (local_rpc crc (dn_service F P io pid root build)) st b = (st', r)"
    "mv_blocks (fj_abs P (kv (dn_meta st))) b = Some bd" "\<forall>ci\<in>set (bd_chunks bd). ok_chunk_name (ci_chunk_name ci)"
  shows "(mv_blocks (fj_abs P (kv (dn_meta st'))) b = Some bd \<and> (\<exists>e. r = Err e) \<or>
      mv_blocks (fj_abs P (kv (dn_meta st'))) b = None \<and>
      (\<forall>ci\<in>set (bd_chunks bd). file_view root (dn_chunks st') (b, ci_chunk_name ci) = None)) \<and>
    (\<forall>b'. b' \<noteq> b \<longrightarrow> mv_blocks (fj_abs P (kv (dn_meta st'))) b' = mv_blocks (fj_abs P (kv (dn_meta st))) b' \<and>
      (\<forall>n. file_view root (dn_chunks st') (b', n) = file_view root (dn_chunks st) (b', n)))"
proof -
  let ?v = "fj_abs P (kv (dn_meta st))" and ?v' = "fj_abs P (kv (dn_meta st'))"
  have names: "\<forall>bd. mv_blocks ?v b = Some bd \<longrightarrow> (\<forall>ci\<in>set (bd_chunks bd). ok_chunk_name (ci_chunk_name ci))"
    using assms(4,5) by simp
  note out = datanode.delete_block_outcome [OF dn_service_datanode [OF assms(1)] assms(2,3), OF names]
  have spec: "mv_blocks ?v' = (mv_blocks ?v)(b := None)" if "spec_delete_block ?v b = Ok (?v', ())"
    using that assms(4) by (auto simp: spec_delete_block_def dest: arg_cong [where f = mv_blocks])
  show ?thesis
  proof (cases "?v' = ?v")
    case True
    have "r \<noteq> Ok ()"
    proof
      assume "r = Ok ()"
      with out spec have "mv_blocks ?v' b = None" by simp
      with True assms(4) show False by simp
    qed
    with out have "\<exists>e. r = Err e" by (cases r) auto
    with True out assms(4) show ?thesis by simp
  next
    case False
    with out have del: "spec_delete_block ?v b = Ok (?v', ())" by blast
    then have "\<forall>ci\<in>set (bd_chunks bd). file_view root (dn_chunks st') (b, ci_chunk_name ci) = None"
      using out False assms(4) by blast
    with spec [OF del] out show ?thesis by simp
  qed
qed

theorem delete_block_converges_witness:
  "let fs = empty_fs\<lparr>fs_files := [chunk_file ''/d'' sample_block_id ''c0'' \<mapsto> [1, 2]]\<rparr>;
       (st', r) = client_delete_block (local_rpc sum_digest (sample_svc io_ok))
                    \<lparr>dn_meta = mem_filled, dn_chunks = fs\<rparr> sample_block_id
   in r = Ok () \<and> mv_blocks (fj_abs mem_postcard (mem_kv (dn_meta st'))) sample_block_id = None \<and>
      file_view ''/d'' (dn_chunks st') (sample_block_id, ''c0'') = None"
proof -
  let ?fs = "empty_fs\<lparr>fs_files := [chunk_file ''/d'' sample_block_id ''c0'' \<mapsto> [1, 2]]\<rparr>"
  let ?st = "\<lparr>dn_meta = mem_filled, dn_chunks = ?fs\<rparr>"
  obtain st' r where run: "client_delete_block (local_rpc sum_digest (sample_svc io_ok)) ?st sample_block_id = (st', r)"
    by fastforce
  have wf: "fj_wf mem_postcard (mem_kv mem_filled)"
    using mem.put_block_lands [OF mem_opened_wf, of sample_block] by (simp add: lands_def mem_filled_def)
  have blk: "mv_blocks (fj_abs mem_postcard (mem_kv mem_filled)) sample_block_id = Some sample_block"
    by (simp add: mem_filled_blocks)
  have names: "\<forall>ci\<in>set (bd_chunks sample_block). ok_chunk_name (ci_chunk_name ci)" by code_simp
  have "r = Ok ()"
    using run
    unfolding mem_filled_def mem_put_block
    by (auto simp: client_delete_block_def local_rpc_def sample_svc_def dn_delete_block_def rpc_upd_def from_wire_to_wire
        on_meta_def on_chunks_def fjall_meta_store_def fjall_get_block_def fjall_delete_block_def Let_def
        mem_keyspace_def mem_postcard_def fj_def fj_decode_def fj_encode_def fj_upd_def sample_block_def
        file_chunk_store_def file_delete_chunk_def io_ok_def sample_block_id_def)
  then show ?thesis
    using delete_block_converges [OF mem.fjall_contract_axioms, where st = ?st, simplified, OF wf run [unfolded sample_svc_def] blk names] run
    by (simp add: Let_def sample_svc_def sample_block_def sample_chunk_def)
qed

context meta_store_laws begin

lemma finite_slots:
  assumes "wf m"
  shows "finite {(l, r). mv_blocks (abs m) (block_id_ec c l r) \<noteq> None}"
proof -
  let ?S = "{(l, r). mv_blocks (abs m) (block_id_ec c l r) \<noteq> None}"
  have inj: "inj_on (\<lambda>(l, r). block_id_ec c l r) ?S" by (auto simp: inj_on_def block_id_ec_def)
  have "(\<lambda>(l, r). block_id_ec c l r) ` ?S \<subseteq> dom (mv_blocks (abs m))" by auto
  then show ?thesis using inj finite_blocks [OF assms] by (meson finite_imageD finite_subset)
qed

lemma blocks_of_sorted:
  assumes "wf m" "\<forall>l r r'. mv_blocks (abs m) (block_id_ec c l r) \<noteq> None \<and> mv_blocks (abs m) (block_id_ec c l r') \<noteq> None \<longrightarrow> r = r'"
  shows "sorted_wrt (\<lambda>a b. lid a < lid b) (blocks_of (abs m) c)"
proof -
  note fin = finite_slots [OF assms(1), of c]
  have id: "lid bd = l" if "mv_blocks (abs m) (block_id_ec c l r) = Some bd" for l r bd
    using block_ids [OF assms(1) that] by simp
  have "sorted_wrt (<) (slots_of (abs m) c)" by (simp add: slots_of_def)
  then have "sorted_wrt (\<lambda>x y. fst x < fst y) (slots_of (abs m) c)"
  proof (rule sorted_wrt_mono_rel [rotated])
    fix x y assume mem: "x \<in> set (slots_of (abs m) c)" "y \<in> set (slots_of (abs m) c)" and "x < y"
    obtain l r l' r' where xy: "x = (l, r)" "y = (l', r')" by (cases x; cases y) auto
    then have "l < l' \<or> l = l' \<and> r < r'" using \<open>x < y\<close> by (auto simp: less_prod_def)
    moreover have "l = l' \<Longrightarrow> r = r'" using assms(2) mem xy fin by (simp add: slots_of_def)
    ultimately show "fst x < fst y" using xy by auto
  qed
  then show ?thesis
    unfolding blocks_of_def sorted_wrt_map
    by (rule sorted_wrt_mono_rel [rotated]) (use fin id in \<open>auto simp: slots_of_def\<close>)
qed

lemma blocks_of_committed:
  assumes "wf m" "bd \<in> set (blocks_of (abs m) c)"
  shows "bd \<in> ran (mv_blocks (abs m))"
  using finite_slots [OF assms(1), of c] assms(2) by (auto simp: blocks_of_def slots_of_def ran_def)

end

context fjall_contract begin

lemma list_blocks_scanned:
  assumes "fj_wf P (kv st)" "fj_prefix F st Blocks (container_key c) = map Ok (entries (kv st Blocks) (container_key c))"
  shows "fjall_list_blocks F P st c start limit = Ok (page_of (blocks_of (fj_abs P (kv st)) c) start limit)"
  using list_scan_page [OF entries_decoded [OF assms(1) finite_kv, of c], of "[]" limit start]
  by (simp add: fjall_list_blocks_def assms(2) page_of_def Let_def)

end

context fjall_contract begin

lemma list_containers_scanned:
  assumes "fj_wf P (kv st)" "fj_prefix F st Containers [] = map Ok (entries (kv st Containers) [])"
  shows "\<exists>cs. fjall_list_containers F P st = Ok cs \<and> distinct (map cinfo_container_id cs) \<and> set cs = fst ` ran (mv_containers (fj_abs P (kv st)))"
proof (cases "fjall_list_containers F P st")
  case (Ok cs)
  then show ?thesis using list_containers_reads [OF assms(1)] by simp
next
  case (Err e)
  moreover have "rmap_list (\<lambda>x. rbind (fj x) (\<lambda>(_, v). rbind (fj_decode (pc_dec_container P v)) (\<lambda>r. Ok (st_info r))))
      (map Ok (entries (kv st Containers) [])) \<noteq> Err e"
  proof -
    have "\<exists>y. (\<lambda>(_, v). rbind (fj_decode (pc_dec_container P v)) (\<lambda>r. Ok (st_info r))) x = (Ok y :: (storage_error, _) result)"
      if "x \<in> set (entries (kv st Containers) [])" for x
    proof -
      from that have "(fst x, snd x) \<in> set (entries (kv st Containers) [])" by simp
      from container_entries [OF assms(1) this] obtain r where "pc_dec_container P (snd x) = Ok r" by blast
      then show ?thesis by (simp add: fj_decode_def split_beta)
    qed
    then show ?thesis
      by (subst rmap_list_scan [where h = "\<lambda>x. the_ok ((\<lambda>(_, v). rbind (fj_decode (pc_dec_container P v)) (\<lambda>r. Ok (st_info r))) x)"]) fastforce+
  qed
  ultimately show ?thesis by (simp add: fjall_list_containers_def assms(2))
next
  case Panic
  then show ?thesis using list_containers_reads [OF assms(1)] by simp
qed

end

text \<open>
  C18: listing a container ends and is complete. When the container holds one replica slot per local
  id and the scan meets no backend failure, the stream of pages the server sends ends, for every page
  size and any number of blocks, after at most one page per block plus one, and the client returns
  exactly the container's blocks from the requested id on, once each, in ascending order.
\<close>

theorem list_blocks_complete:
  fixes st :: "('st, chunk_fs) dn_state"
  assumes "fjall_contract F P kv" "fj_wf P (kv (dn_meta st))"
    "fj_prefix F (dn_meta st) Blocks (container_key c) = map Ok (entries (kv (dn_meta st) Blocks) (container_key c))"
    "\<forall>l r r'. mv_blocks (fj_abs P (kv (dn_meta st))) (block_id_ec c l r) \<noteq> None \<and>
       mv_blocks (fj_abs P (kv (dn_meta st))) (block_id_ec c l r') \<noteq> None \<longrightarrow> r = r'"
    "\<forall>bd\<in>ran (mv_blocks (fj_abs P (kv (dn_meta st)))). btree_wf (bd_metadata bd)"
    "length (blocks_of (fj_abs P (kv (dn_meta st))) c) + 1 < n"
  shows "client_list_blocks (local_rpc crc (dn_service F P io pid root build)) st c start page_size n =
      Some (Ok (filter (\<lambda>bd. start \<le> lid bd) (blocks_of (fj_abs P (kv (dn_meta st))) c))) \<and>
    sorted_wrt (\<lambda>a b. lid a < lid b) (blocks_of (fj_abs P (kv (dn_meta st))) c)"
proof -
  let ?bs = "blocks_of (fj_abs P (kv (dn_meta st))) c" and ?rest = "filter (\<lambda>bd. start \<le> lid bd) (blocks_of (fj_abs P (kv (dn_meta st))) c)"
  let ?p = "if page_size = 0 then DEFAULT_LIST_PAGE else unat page_size"
  let ?ms = "list_blocks_task (fjall_meta_store F P) (dn_meta st) c ?p n start"
  note laws = fjall_contract.fjall_meets_laws [OF assms(1)]
  have srt: "sorted_wrt (\<lambda>a b. lid a < lid b) ?bs"
    using meta_store_laws.blocks_of_sorted [OF laws, OF assms(2,4)] .
  have p: "0 < ?p" by (simp add: DEFAULT_LIST_PAGE_def unat_gt_0)
  have len: "length ?rest \<le> length ?bs" by simp
  have "mo_list_blocks (fjall_meta_store F P) (dn_meta st) c s ?p = Ok (page_of ?bs s ?p)" for s
    using fjall_contract.list_blocks_scanned [OF assms(1), OF assms(2,3)] by (simp add: fjall_meta_store_def)
  note task = list_blocks_task_complete [OF srt p this, of start n]
  have "length ?rest < n" using len assms(6) by linarith
  note task = task [OF this]
  have "length ?rest div ?p \<le> length ?rest" by simp
  then have short: "length ?ms < n" using task len assms(6) by linarith
  have "\<forall>bd\<in>set ?rest. btree_wf (bd_metadata bd)"
    using meta_store_laws.blocks_of_committed [OF laws, OF assms(2)] assms(5) by auto
  then have "drain_pages True ?ms [] = Some (Ok ([] @ ?rest))"
    using task by (intro drain_pages_complete) blast+
  then show ?thesis
    using short srt
    by (cases "page_size = 0")
      (simp_all add: client_list_blocks_def local_rpc_def dn_list_blocks_def container_id_from_wire_def container_id_to_wire_def)
qed

theorem list_blocks_complete_witness:
  "client_list_blocks (local_rpc sum_digest (sample_svc io_ok)) sample_dn 1 0 1 3 = Some (Ok [sample_block])"
proof -
  have wf: "fj_wf mem_postcard (mem_kv mem_filled)"
    using mem.put_block_lands [OF mem_opened_wf, of sample_block] by (simp add: lands_def mem_filled_def)
  have "{(l, r). mv_blocks (fj_abs mem_postcard (mem_kv mem_filled)) (block_id_ec 1 l r) \<noteq> None} = {(2, 3)}"
    by (auto simp: mem_filled_blocks sample_block_id_def block_id_ec_def)
  then have slots: "slots_of (fj_abs mem_postcard (mem_kv mem_filled)) 1 = [(2, 3)]" by (simp add: slots_of_def)
  have bs: "blocks_of (fj_abs mem_postcard (mem_kv mem_filled)) 1 = [sample_block]"
    by (simp add: blocks_of_def slots mem_filled_blocks sample_block_id_def block_id_ec_def)
  have one: "\<forall>l r r'. mv_blocks (fj_abs mem_postcard (mem_kv mem_filled)) (block_id_ec 1 l r) \<noteq> None \<and>
      mv_blocks (fj_abs mem_postcard (mem_kv mem_filled)) (block_id_ec 1 l r') \<noteq> None \<longrightarrow> r = r'"
    by (auto simp: mem_filled_blocks sample_block_id_def block_id_ec_def)
  have md: "\<forall>bd\<in>ran (mv_blocks (fj_abs mem_postcard (mem_kv mem_filled))). btree_wf (bd_metadata bd)"
    by (simp add: mem_filled_blocks sample_block_def btree_wf_def)
  have len: "length (blocks_of (fj_abs mem_postcard (mem_kv mem_filled)) 1) + 1 < 3" by (simp add: bs)
  show ?thesis
    using list_blocks_complete [OF mem.fjall_contract_axioms, where st = sample_dn and c = 1 and n = 3 and start = 0
        and page_size = 1 and crc = sum_digest and io = io_ok and pid = 7 and root = "''/d''" and build = "''0.1.0''",
        unfolded sample_dn_def dn_state.simps, OF wf mem_prefix one md len]
    by (simp add: bs sample_svc_def sample_dn_def)
qed

text \<open>
  With two replica slots of one local id the listing does not end: a page of one block leaves the
  cursor at the same local id, so every page is the first page again, however long the client reads.
\<close>

definition two_slots :: "block_data list" where
  "two_slots = map (\<lambda>r. block_data_new (block_id_ec 1 5 r)) [1, 2]"

lemma list_blocks_livelock:
  assumes "\<And>start. mo_list_blocks meta m 1 start 1 = Ok (page_of two_slots start 1)"
  shows "list_blocks_task meta m 1 1 n 5 =
    replicate n (Ok \<lparr>lbr_blocks = [block_data_to_wire (block_data_new (block_id_ec 1 5 1))], lbr_next_local_id = 5\<rparr>)"
  by (induction n) (simp_all add: assms [simplified] page_of_def two_slots_def block_data_new_def block_id_ec_def Let_def)

lemma frames_of_shape:
  "concat (map rcr_payload (frames_of data)) = data \<and> frames_of data \<noteq> [] \<and>
   (\<forall>m\<in>set (frames_of data). length (rcr_payload m) \<le> READ_FRAME_BYTES) \<and>
   length (frames_of data) = max 1 (div_ceil (length data) READ_FRAME_BYTES) \<and>
   map rcr_last (frames_of data) = replicate (length (frames_of data) - 1) False @ [True]"
proof -
  have pos: "0 < READ_FRAME_BYTES" by (simp add: READ_FRAME_BYTES_def)
  have pay: "map rcr_payload (frames_of data) = frame data"
    by (simp add: frames_of_def Let_def comp_def case_prod_unfold)
  then have len: "length (frames_of data) = length (frame data)" by (metis length_map)
  have "\<forall>f\<in>set (chunks n xs). length f \<le> n" for n and xs :: bytes
    by (induction n xs rule: chunks.induct) (subst chunks.simps, auto)
  then have "\<forall>f\<in>set (frame data). length f \<le> READ_FRAME_BYTES"
    by (simp add: frame_def frame_loop_chunks)
  then have "\<forall>m\<in>set (frames_of data). length (rcr_payload m) \<le> READ_FRAME_BYTES" unfolding pay [symmetric] by simp
  moreover have "length (frame data) = max 1 (div_ceil (length data) READ_FRAME_BYTES)"
  proof (cases "data = []")
    case False
    then have "0 < div_ceil (length data) READ_FRAME_BYTES" using pos by (simp add: less_div_ceil_iff)
    with False pos show ?thesis by (simp add: frame_def frame_loop_chunks length_chunks)
  qed (simp add: frame_def)
  moreover have "map rcr_last (frames_of data) = replicate (length (frame data) - 1) False @ [True]"
  proof (rule nth_equalityI)
    show "length (map rcr_last (frames_of data)) = length (replicate (length (frame data) - 1) False @ [True])"
      by (simp add: len Suc_diff_1 [symmetric] del: Suc_diff_1)
  qed (auto simp: frames_of_def Let_def enumerate_eq_map nth_append)
  moreover have "frames_of data \<noteq> []" using len by (metis frame_nonempty length_0_conv)
  ultimately show ?thesis using len by (simp add: pay concat_frame)
qed

text \<open>
  C19: the messages of a chunk read. Whatever request \<open>read_chunk\<close> answers with a stream, the stream
  carries the bytes the store holds for the chunk named: at least one message, none with more than
  64 KiB, exactly as many as full frames need, only the final one marked last, and the payloads in
  order are the chunk.
\<close>

theorem read_frames_bounds:
  assumes "dn_read_chunk crc svc st req = Ok msgs"
  shows "\<exists>wid b wci ci data. rcq_block_id req = Some wid \<and> block_id_from_wire wid = Ok b \<and>
      rcq_chunk_info req = Some wci \<and> chunk_info_from_wire wci = Ok ci \<and>
      co_read (svc_chunks svc) (dn_chunks st) b ci = Ok data \<and>
      concat (map rcr_payload msgs) = data \<and> msgs \<noteq> [] \<and>
      (\<forall>m\<in>set msgs. length (rcr_payload m) \<le> READ_FRAME_BYTES) \<and>
      length msgs = max 1 (div_ceil (length data) READ_FRAME_BYTES) \<and>
      map rcr_last msgs = replicate (length msgs - 1) False @ [True]"
proof -
  obtain wid b wci ci data where "rcq_block_id req = Some wid" "block_id_from_wire wid = Ok b"
    "rcq_chunk_info req = Some wci" "chunk_info_from_wire wci = Ok ci"
    "co_read (svc_chunks svc) (dn_chunks st) b ci = Ok data" "msgs = frames_of data"
    using assms by (auto simp: dn_read_chunk_def res_simps ok_or_eq)
  with frames_of_shape [of data] show ?thesis by blast
qed

theorem read_frames_bounds_witness:
  "let data = replicate 65537 7; ci = sample_chunk;
       fs = empty_fs\<lparr>fs_files := [chunk_file ''/d'' sample_block_id ''c0'' \<mapsto> data]\<rparr>;
       req = \<lparr>rcq_block_id = Some (block_id_to_wire sample_block_id), rcq_chunk_info = Some (chunk_info_to_wire ci),
              rcq_verify = False\<rparr>
   in \<exists>msgs. dn_read_chunk sum_digest (sample_svc io_ok) \<lparr>dn_meta = mem_filled, dn_chunks = fs\<rparr> req = Ok msgs \<and>
        map rcr_last msgs = [False, True] \<and> concat (map rcr_payload msgs) = data"
proof -
  let ?data = "replicate 65537 (7 :: u8)"
  let ?fs = "empty_fs\<lparr>fs_files := [chunk_file ''/d'' sample_block_id ''c0'' \<mapsto> ?data]\<rparr>"
  let ?st = "\<lparr>dn_meta = mem_filled, dn_chunks = ?fs\<rparr>"
  let ?req = "\<lparr>rcq_block_id = Some (block_id_to_wire sample_block_id), rcq_chunk_info = Some (chunk_info_to_wire sample_chunk),
     rcq_verify = False\<rparr>"
  have read: "co_read (svc_chunks (sample_svc io_ok)) ?fs sample_block_id sample_chunk = Ok ?data"
    by (simp add: sample_svc_def file_chunk_store_def file_read_chunk_def io_ok_def chunk_file_def sample_chunk_def)
  then have run: "dn_read_chunk sum_digest (sample_svc io_ok) ?st ?req = Ok (frames_of ?data)"
    by (simp add: dn_read_chunk_decoded read_check_def)
  obtain data' where "co_read (svc_chunks (sample_svc io_ok)) ?fs sample_block_id sample_chunk = Ok data'"
    "concat (map rcr_payload (frames_of ?data)) = data'" "length (frames_of ?data) = max 1 (div_ceil (length data') READ_FRAME_BYTES)"
    "map rcr_last (frames_of ?data) = replicate (length (frames_of ?data) - 1) False @ [True]"
    using read_frames_bounds [OF run] by (auto simp: from_wire_to_wire)
  then have "map rcr_last (frames_of ?data) = [False, True]" "concat (map rcr_payload (frames_of ?data)) = ?data"
    using read by (auto simp: READ_FRAME_BYTES_def div_ceil_def)
  with run show ?thesis by (simp add: Let_def)
qed

end
