(* ===== verification/Scrub.thy ===== *)
theory Scrub
  imports Dn_Correct
begin

text \<open>
  \<open>crates/ozone-dn-server/src/scrub.rs\<close>: the bit-rot scrubber. One pass walks every container's
  blocks page by page and verifies each chunk that records a checksum. The page loop is bounded by
  a number of pages per container: None means that a container was not finished within it.
\<close>

record repair_request =
  rr_container :: container_id
  rr_local :: local_id
  rr_slot :: u8
  rr_ec :: ec_replication_config
  rr_block_group_len :: u64

record scrub_report =
  sr_clean :: nat
  sr_corrupt :: "repair_request list"




section \<open>One pass\<close>






text \<open>
  The loop of \<open>run\<close> over the outcomes of its passes: the findings sent until the receiver, which takes
  \<open>n\<close> of them, is gone. A failed pass is logged and skipped.
\<close>

fun scrub_run :: "(storage_error, scrub_report) result list \<Rightarrow> nat \<Rightarrow> repair_request list" where
  "scrub_run [] n = []"
| "scrub_run (p # ps) n =
     (case p of
        Ok rep \<Rightarrow>
          if length (sr_corrupt rep) \<le> n then sr_corrupt rep @ scrub_run ps (n - length (sr_corrupt rep))
          else take n (sr_corrupt rep)
      | _ \<Rightarrow> scrub_run ps n)"

section \<open>What a pass should report\<close>















section \<open>Correctness\<close>





end
