(* ===== verification/Repair.thy ===== *)
theory Repair
  imports Scrub Ec_Stripe
begin

text \<open>
  \<open>crates/ozone-dn-server/src/repair.rs\<close>: rebuilding missing shards from the survivors. A peer is
  reached through \<open>net\<close>, which gives the endpoint's channel and state if a connection can be made.
  The local stores are a \<open>dn_state\<close>. Following a peer's listing is bounded by \<open>n\<close> messages, as in
  \<open>Dn_Client\<close>; None means that a peer never stopped streaming.
\<close>

type_synonym 's network = "string \<Rightarrow> ('s dn_rpc \<times> 's) option"

record repair_input =
  ri_container :: container_id
  ri_local :: local_id
  ri_ec :: ec_replication_config
  ri_block_group_len :: u64
  ri_missing_slots :: "u8 list"
  ri_sources :: "(u8 \<times> string) list"

datatype repair_error =
    RepairNotEnoughShards nat nat
  | ContainerAbsent container_id
  | ContainerNotWritable container_id container_state
  | RepairEc ec_error
  | RepairStorage storage_error
  | RepairChecksum checksum_error

definition repair_profile :: "ec_replication_config \<Rightarrow> profile" where
  "repair_profile ec =
     \<lparr>pr_data = unat (ec_data ec), pr_parity = unat (ec_parity ec), pr_chunk_size = unat (ec_chunk_size ec)\<rparr>"

text \<open>Store calls of the repair path.\<close>

definition rp_meta :: "('m, 'c) dn_state \<Rightarrow> 'm \<times> (storage_error, 'a) result \<Rightarrow> ('m, 'c) dn_state \<times> (repair_error, 'a) result" where
  "rp_meta st mr = (st\<lparr>dn_meta := fst mr\<rparr>, map_err RepairStorage (snd mr))"

definition rp_chunks :: "('m, 'c) dn_state \<Rightarrow> 'c \<times> (storage_error, 'a) result \<Rightarrow> ('m, 'c) dn_state \<times> (repair_error, 'a) result" where
  "rp_chunks st cr = (st\<lparr>dn_chunks := fst cr\<rparr>, map_err RepairStorage (snd cr))"

definition shard_probe :: chunk_info where
  "shard_probe = \<lparr>ci_chunk_name = ''0'', ci_offset = 0, ci_len = 0, ci_checksum_data = None, ci_stripe_checksum = None\<rparr>"

section \<open>One block group\<close>

definition gather_shard ::
    "'s network \<Rightarrow> container_id \<Rightarrow> local_id \<Rightarrow> u8 list \<Rightarrow> nat \<Rightarrow> u8 \<times> string \<Rightarrow> bytes option list \<Rightarrow> bytes option list" where
  "gather_shard net c l lost nslots source bufs =
     (case source of (slot, endpoint) \<Rightarrow>
      if slot = 0 \<or> unat slot > nslots \<or> slot \<in> set lost then bufs
      else case net endpoint of
          None \<Rightarrow> bufs
        | Some (rpc, s) \<Rightarrow>
            (case client_read_chunk rpc s (block_id_ec c l slot) shard_probe True of
               Ok b \<Rightarrow> bufs[unat slot - 1 := Some b]
             | _ \<Rightarrow> bufs))"

definition persist_shard ::
    "(bytes \<Rightarrow> u32) \<Rightarrow> 'm meta_ops \<Rightarrow> 'c chunk_ops \<Rightarrow> ('m, 'c) dn_state \<Rightarrow> container_id \<Rightarrow> local_id
       \<Rightarrow> ec_replication_config \<Rightarrow> u64 \<Rightarrow> u8 \<Rightarrow> bytes \<Rightarrow> ('m, 'c) dn_state \<times> (repair_error, unit) result" where
  "persist_shard crc MO CO st c l ec len slot shard =
     try_st st (map_err RepairChecksum (compute crc shard (ec_chunk_size ec) Crc32c)) (\<lambda>cd.
     let chunk = \<lparr>ci_chunk_name = ''0'', ci_offset = 0, ci_len = of_nat (length shard), ci_checksum_data = Some cd,
                  ci_stripe_checksum = None\<rparr>;
         bslot = block_id_ec c l slot in
     try_upd (rp_chunks st (co_write CO (dn_chunks st) bslot chunk shard)) (\<lambda>st1 _.
     let bd = block_data_new bslot;
         bd1 = bd\<lparr>bd_chunks := bd_chunks bd @ [chunk]\<rparr>;
         bd2 = set_block_group_len bd1 len in
     try_upd (rp_meta st1 (mo_put_block MO (dn_meta st1) bd2)) (\<lambda>st2 _. (st2, Ok ()))))"

definition slot_shard :: "encoded_shards \<Rightarrow> nat \<Rightarrow> nat \<Rightarrow> (repair_error, bytes) result" where
  "slot_shard es k s = (if s \<le> k then index (es_data es) (s - 1) else index (es_parity es) (s - 1 - k))"

fun persist_slots ::
    "(bytes \<Rightarrow> u32) \<Rightarrow> 'm meta_ops \<Rightarrow> 'c chunk_ops \<Rightarrow> container_id \<Rightarrow> local_id \<Rightarrow> ec_replication_config \<Rightarrow> u64
       \<Rightarrow> encoded_shards \<Rightarrow> u8 list \<Rightarrow> ('m, 'c) dn_state \<Rightarrow> u8 list \<Rightarrow> ('m, 'c) dn_state \<times> (repair_error, u8 list) result" where
  "persist_slots crc MO CO c l ec len es [] st repaired = (st, Ok repaired)"
| "persist_slots crc MO CO c l ec len es (slot # slots) st repaired =
     (let k = pr_data (repair_profile ec); nslots = pr_total (repair_profile ec); s = unat slot in
      if s = 0 \<or> s > nslots then persist_slots crc MO CO c l ec len es slots st repaired
      else
        try_st st (slot_shard es k s) (\<lambda>shard.
        try_upd (persist_shard crc MO CO st c l ec len slot shard) (\<lambda>st' _.
        persist_slots crc MO CO c l ec len es slots st' (repaired @ [slot]))))"

definition reconstruct_and_persist ::
    "isal \<Rightarrow> (bytes \<Rightarrow> u32) \<Rightarrow> 'm meta_ops \<Rightarrow> 'c chunk_ops \<Rightarrow> 's network \<Rightarrow> ('m, 'c) dn_state \<Rightarrow> repair_input
       \<Rightarrow> ('m, 'c) dn_state \<times> (repair_error, u8 list) result" where
  "reconstruct_and_persist L crc MO CO net st input =
     (let pf = repair_profile (ri_ec input); nslots = pr_total pf; k = pr_data pf in
      try_st st (map_err RepairStorage (mo_get_container MO (dn_meta st) (ri_container input))) (\<lambda>found.
      try_st st (case found of
          Some ci \<Rightarrow> if is_writable (cinfo_state ci) then Ok ()
                     else Err (ContainerNotWritable (ri_container input) (cinfo_state ci))
        | None \<Rightarrow> Err (ContainerAbsent (ri_container input))) (\<lambda>_.
      let bufs = foldl (\<lambda>bufs src. gather_shard net (ri_container input) (ri_local input) (ri_missing_slots input) nslots src bufs)
                   (replicate nslots None) (ri_sources input);
          present = length (filter (\<lambda>b. b \<noteq> None) bufs) in
      if present < k then (st, Err (RepairNotEnoughShards present k))
      else
        try_st st (map_err RepairEc (decode_object L pf (unat (ri_block_group_len input)) bufs)) (\<lambda>object.
        try_st st (map_err RepairEc (encode_object L pf object)) (\<lambda>es.
        persist_slots crc MO CO (ri_container input) (ri_local input) (ri_ec input) (ri_block_group_len input) es
          (ri_missing_slots input) st [])))))"

section \<open>A whole container from its survivors\<close>

record reconstruct_input =
  rx_container :: container_id
  rx_ec :: ec_replication_config
  rx_missing_slots :: "u8 list"
  rx_sources :: "(u8 \<times> string) list"

record survey =
  sv_shards :: "(u64, bytes option list) btree_map"
  sv_lengths :: "(u64, u64) btree_map"

definition btree_or_insert :: "'k::linorder \<Rightarrow> 'v \<Rightarrow> ('k, 'v) btree_map \<Rightarrow> 'v" where
  "btree_or_insert k d m = (case map_of m k of Some v \<Rightarrow> v | None \<Rightarrow> d)"

definition survey_block ::
    "'s dn_rpc \<Rightarrow> 's \<Rightarrow> container_id \<Rightarrow> nat \<Rightarrow> u8 \<Rightarrow> survey \<Rightarrow> block_data \<Rightarrow> survey" where
  "survey_block rpc s c nslots slot sv bd =
     (let local = bid_local (bd_block_id bd) in
      case block_group_len bd of
        None \<Rightarrow> sv
      | Some len \<Rightarrow>
          if len = 0 then sv
          else
            let sv1 = sv\<lparr>sv_lengths := btree_insert local
                  (case map_of (sv_lengths sv) local of Some m \<Rightarrow> min m len | None \<Rightarrow> len) (sv_lengths sv)\<rparr>
            in case client_read_chunk rpc s (block_id_ec c local slot) shard_probe True of
                 Ok bytes \<Rightarrow>
                   sv1\<lparr>sv_shards := btree_insert local
                     ((btree_or_insert local (replicate nslots None) (sv_shards sv1))[unat slot - 1 := Some bytes])
                     (sv_shards sv1)\<rparr>
               | _ \<Rightarrow> sv1)"

fun survey_sources ::
    "'s network \<Rightarrow> nat \<Rightarrow> container_id \<Rightarrow> u8 list \<Rightarrow> nat \<Rightarrow> (u8 \<times> string) list \<Rightarrow> survey \<Rightarrow> survey option" where
  "survey_sources net n c lost nslots [] sv = Some sv"
| "survey_sources net n c lost nslots ((slot, endpoint) # sources) sv =
     (if slot = 0 \<or> unat slot > nslots \<or> slot \<in> set lost
      then survey_sources net n c lost nslots sources sv
      else case net endpoint of
          None \<Rightarrow> survey_sources net n c lost nslots sources sv
        | Some (rpc, s) \<Rightarrow>
            (case client_list_blocks rpc s c 0 256 n of
               None \<Rightarrow> None
             | Some (Ok blocks) \<Rightarrow>
                 survey_sources net n c lost nslots sources (foldl (survey_block rpc s c nslots slot) sv blocks)
             | Some _ \<Rightarrow> survey_sources net n c lost nslots sources sv))"

fun rebuild_groups ::
    "isal \<Rightarrow> (bytes \<Rightarrow> u32) \<Rightarrow> 'm meta_ops \<Rightarrow> 'c chunk_ops \<Rightarrow> reconstruct_input \<Rightarrow> (u64, u64) btree_map
       \<Rightarrow> (u64, bytes option list) btree_map \<Rightarrow> ('m, 'c) dn_state \<Rightarrow> u64 list
       \<Rightarrow> ('m, 'c) dn_state \<times> (repair_error, u64 list) result" where
  "rebuild_groups L crc MO CO input lengths [] st rebuilt = (st, Ok rebuilt)"
| "rebuild_groups L crc MO CO input lengths ((local, bufs) # groups) st rebuilt =
     (let pf = repair_profile (rx_ec input); k = pr_data pf in
      case map_of lengths local of
        None \<Rightarrow> rebuild_groups L crc MO CO input lengths groups st rebuilt
      | Some len \<Rightarrow>
          if length (filter (\<lambda>b. b \<noteq> None) bufs) < k
          then rebuild_groups L crc MO CO input lengths groups st rebuilt
          else
            try_st st (map_err RepairEc (decode_object L pf (unat len) bufs)) (\<lambda>object.
            try_st st (map_err RepairEc (encode_object L pf object)) (\<lambda>encoded.
            try_upd (persist_slots crc MO CO (rx_container input) local (rx_ec input) len encoded
                (rx_missing_slots input) st []) (\<lambda>st' _.
            rebuild_groups L crc MO CO input lengths groups st' (rebuilt @ [local])))))"

definition rollback_created ::
    "'m meta_ops \<Rightarrow> 'c chunk_ops \<Rightarrow> ('m, 'c) dn_state \<Rightarrow> container_id \<Rightarrow> ('m, 'c) dn_state" where
  "rollback_created MO CO st c =
     (let st1 = st\<lparr>dn_meta := fst (mo_delete_container MO (dn_meta st) c)\<rparr>
      in st1\<lparr>dn_chunks := fst (co_delete_container CO (dn_chunks st1) c)\<rparr>)"

definition provision ::
    "'m meta_ops \<Rightarrow> ('m, 'c) dn_state \<Rightarrow> reconstruct_input \<Rightarrow> ('m, 'c) dn_state \<times> (repair_error, bool option) result" where
  "provision MO st input =
     try_st st (map_err RepairStorage (mo_get_container MO (dn_meta st) (rx_container input))) (\<lambda>found.
     case found of
       Some ci \<Rightarrow>
         if cinfo_state ci = Closed then (st, Ok None)
         else if is_writable (cinfo_state ci) then (st, Ok (Some False))
         else (st, Err (ContainerNotWritable (rx_container input) (cinfo_state ci)))
     | None \<Rightarrow>
         try_upd (rp_meta st (mo_create_container MO (dn_meta st)
             (container_info_new_open (rx_container input) (rx_ec input)))) (\<lambda>st' _. (st', Ok (Some True))))"

definition finish_rebuild ::
    "'m meta_ops \<Rightarrow> 'c chunk_ops \<Rightarrow> container_id \<Rightarrow> bool \<Rightarrow> ('m, 'c) dn_state \<times> (repair_error, u64 list) result
       \<Rightarrow> ('m, 'c) dn_state \<times> (repair_error, u64 list) result" where
  "finish_rebuild MO CO c we_created outcome =
     (case outcome of
        (st, Ok rebuilt) \<Rightarrow>
          if we_created then
            if rebuilt = [] then (rollback_created MO CO st c, Ok [])
            else try_upd (rp_meta st (mo_set_container_state MO (dn_meta st) c Closed)) (\<lambda>st' _. (st', Ok rebuilt))
          else (st, Ok rebuilt)
      | (st, Err e) \<Rightarrow> (if we_created then rollback_created MO CO st c else st, Err e)
      | (st, Panic) \<Rightarrow> (st, Panic))"

definition rebuild_container ::
    "isal \<Rightarrow> (bytes \<Rightarrow> u32) \<Rightarrow> 'm meta_ops \<Rightarrow> 'c chunk_ops \<Rightarrow> ('m, 'c) dn_state \<Rightarrow> reconstruct_input \<Rightarrow> survey
       \<Rightarrow> ('m, 'c) dn_state \<times> (repair_error, u64 list) result" where
  "rebuild_container L crc MO CO st input sv =
     (if sv_shards sv = [] then (st, Ok [])
      else try_upd (provision MO st input) (\<lambda>st1 mode.
        case mode of
          None \<Rightarrow> (st1, Ok [])
        | Some we_created \<Rightarrow>
            finish_rebuild MO CO (rx_container input) we_created
              (rebuild_groups L crc MO CO input (sv_lengths sv) (sv_shards sv) st1 [])))"

definition reconstruct_from_survivors ::
    "isal \<Rightarrow> (bytes \<Rightarrow> u32) \<Rightarrow> 'm meta_ops \<Rightarrow> 'c chunk_ops \<Rightarrow> 's network \<Rightarrow> nat \<Rightarrow> ('m, 'c) dn_state
       \<Rightarrow> reconstruct_input \<Rightarrow> (('m, 'c) dn_state \<times> (repair_error, u64 list) result) option" where
  "reconstruct_from_survivors L crc MO CO net n st input =
     (let pf = repair_profile (rx_ec input); nslots = pr_total pf in
      map_option (rebuild_container L crc MO CO st input)
        (survey_sources net n (rx_container input) (rx_missing_slots input) nslots (rx_sources input)
           \<lparr>sv_shards = [], sv_lengths = []\<rparr>))"

end
