(* ===== verification/Repair_Correct.thy ===== *)
theory Repair_Correct
  imports Repair Ec_Correct
begin

text \<open>
  What repair guarantees: the shards it persists are byte for byte the shards of the original
  object, with metadata that verifies; a live container is never closed, deleted or emptied by a
  repair; and a container that a reconstruction created for itself does not survive a failure.
\<close>

section \<open>Gathering survivors\<close>

definition survivor :: "'s network \<Rightarrow> container_id \<Rightarrow> local_id \<Rightarrow> u8 list \<Rightarrow> nat \<Rightarrow> u8 \<times> string \<Rightarrow> bytes option" where
  "survivor net c l lost nslots src =
     (if fst src = 0 \<or> unat (fst src) > nslots \<or> fst src \<in> set lost then None
      else case net (snd src) of
          None \<Rightarrow> None
        | Some (rpc, s) \<Rightarrow>
            (case client_read_chunk rpc s (block_id_ec c l (fst src)) shard_probe True of Ok b \<Rightarrow> Some b | _ \<Rightarrow> None))"

lemma gather_shard_survivor:
  "gather_shard net c l lost nslots src bufs =
     (case survivor net c l lost nslots src of None \<Rightarrow> bufs | Some b \<Rightarrow> bufs[unat (fst src) - 1 := Some b])"
  by (cases src) (auto simp: gather_shard_def survivor_def split: option.splits result.splits)

lemma survivor_slot:
  "survivor net c l lost nslots src = Some b \<Longrightarrow> 1 \<le> unat (fst src) \<and> unat (fst src) \<le> nslots"
  by (auto simp: survivor_def unat_gt_0 Suc_le_eq split: if_splits)

lemma gather_shards:
  assumes "\<forall>src\<in>set srcs. \<forall>b. survivor net c l lost nslots src = Some b \<longrightarrow> b = S (unat (fst src) - 1)"
    and "length bufs = nslots"
  defines "G \<equiv> {i. \<exists>src\<in>set srcs. survivor net c l lost nslots src \<noteq> None \<and> i = unat (fst src) - 1}"
  shows "length (foldl (\<lambda>bufs src. gather_shard net c l lost nslots src bufs) bufs srcs) = nslots \<and>
    (\<forall>i<nslots. foldl (\<lambda>bufs src. gather_shard net c l lost nslots src bufs) bufs srcs ! i =
      (if i \<in> G then Some (S i) else bufs ! i))"
  using assms(1,2) unfolding G_def
proof (induction srcs arbitrary: bufs)
  case (Cons src srcs)
  show ?case
  proof (cases "survivor net c l lost nslots src")
    case None
    then show ?thesis using Cons by (simp add: gather_shard_survivor)
  next
    case (Some b)
    with Cons.prems have b: "b = S (unat (fst src) - 1)" by simp
    have "unat (fst src) - 1 < nslots" using survivor_slot [OF Some] by linarith
    then show ?thesis
      using Cons.IH [of "bufs[unat (fst src) - 1 := Some b]"] Cons.prems Some b
      by (auto simp: gather_shard_survivor nth_list_update)
  qed
qed simp

section \<open>Persisting shards\<close>

definition shard_chunk :: "(bytes \<Rightarrow> u32) \<Rightarrow> ec_replication_config \<Rightarrow> bytes \<Rightarrow> chunk_info" where
  "shard_chunk crc ec shard =
     \<lparr>ci_chunk_name = ''0'', ci_offset = 0, ci_len = of_nat (length shard),
      ci_checksum_data = Some (the_ok (compute crc shard (ec_chunk_size ec) Crc32c)), ci_stripe_checksum = None\<rparr>"

definition shard_block ::
    "(bytes \<Rightarrow> u32) \<Rightarrow> ec_replication_config \<Rightarrow> u64 \<Rightarrow> block_id \<Rightarrow> bytes \<Rightarrow> block_data" where
  "shard_block crc ec len b shard =
     set_block_group_len \<lparr>bd_block_id = b, bd_chunks = [shard_chunk crc ec shard], bd_metadata = []\<rparr> len"

lemma compute_crc32c: "compute crc d bpc Crc32c = Ok (the_ok (compute crc d bpc Crc32c))"
  by (simp add: compute_def Let_def)

lemma persist_shard_eq:
  "persist_shard crc MO CO st c l ec len slot shard =
     (let b = block_id_ec c l slot in
      try_upd (rp_chunks st (co_write CO (dn_chunks st) b (shard_chunk crc ec shard) shard)) (\<lambda>st1 _.
      try_upd (rp_meta st1 (mo_put_block MO (dn_meta st1) (shard_block crc ec len b shard))) (\<lambda>st2 _. (st2, Ok ()))))"
proof -
  have "map_err RepairChecksum (compute crc shard (ec_chunk_size ec) Crc32c) =
      Ok (the_ok (compute crc shard (ec_chunk_size ec) Crc32c))"
    by (subst compute_crc32c) simp
  then show ?thesis
    by (simp add: persist_shard_def shard_chunk_def shard_block_def block_data_new_def Let_def)
qed

text \<open>The two stores a repair writes to; the disk may fail at any write.\<close>

definition write_fails :: "'c chunk_ops \<Rightarrow> storage_error \<Rightarrow> bool" where
  "write_fails CO e \<longleftrightarrow> (\<exists>s b ci d s'. co_write CO s b ci d = (s', Err e))"

locale repair_stores =
  meta: meta_store_laws MO mabs mwf + chunk: chunk_store_laws CO view ok_name
  for MO :: "'m meta_ops" and CO :: "'c chunk_ops" and mabs :: "'m \<Rightarrow> meta_view" and mwf :: "'m \<Rightarrow> bool"
    and view :: "'c \<Rightarrow> chunk_view" and ok_name :: "string \<Rightarrow> bool" +
  assumes shard_name: "ok_name ''0''"

definition live :: "meta_view \<Rightarrow> container_id \<Rightarrow> bool" where
  "live v c \<longleftrightarrow> (\<exists>info i. mv_containers v c = Some (info, i) \<and> cinfo_state info = Open)"

lemma live_is_writable: "cinfo_state info = Open \<longleftrightarrow> is_writable (cinfo_state info)"
  by (simp add: is_writable_def split: container_state.splits)

lemma spec_put_block_live:
  assumes "live v (bid_container (bd_block_id bd))"
  obtains v' n where "spec_put_block v bd = Ok (v', n)" "live v' (bid_container (bd_block_id bd))"
    "mv_blocks v' = (mv_blocks v)(bd_block_id bd \<mapsto> bd)"
proof -
  obtain info i where c: "mv_containers v (bid_container (bd_block_id bd)) = Some (info, i)" "cinfo_state info = Open"
    using assms by (auto simp: live_def)
  then obtain v' n where s: "spec_put_block v bd = Ok (v', n)"
    by (simp add: spec_put_block_def is_writable_def Let_def)
  show thesis
  proof (rule that [OF s])
    show "live v' (bid_container (bd_block_id bd))"
      by (rule spec_put_block_Ok [OF s]) (use c in \<open>auto simp: live_def\<close>)
    show "mv_blocks v' = (mv_blocks v)(bd_block_id bd \<mapsto> bd)" by (rule spec_put_block_Ok [OF s])
  qed
qed

context repair_stores begin

lemma persist_shard_outcome:
  assumes wf: "mwf (dn_meta st)" and open_c: "live (mabs (dn_meta st)) c"
    and run: "persist_shard crc MO CO st c l ec len slot shard = (st', r)"
  defines "b \<equiv> block_id_ec c l slot"
  shows "mwf (dn_meta st') \<and> live (mabs (dn_meta st')) c \<and>
    (r = Ok () \<and> view (dn_chunks st') = (view (dn_chunks st))((b, ''0'') \<mapsto> shard) \<and>
       mv_blocks (mabs (dn_meta st')) = (mv_blocks (mabs (dn_meta st)))(b \<mapsto> shard_block crc ec len b shard) \<or>
     (\<exists>e. r = Err (RepairStorage e) \<and> (backend_error e \<or> write_fails CO e)) \<and> mabs (dn_meta st') = mabs (dn_meta st) \<and>
       (\<forall>b' n. (b', n) \<noteq> (b, ''0'') \<longrightarrow> view (dn_chunks st') (b', n) = view (dn_chunks st) (b', n)))"
proof -
  let ?ci = "shard_chunk crc ec shard" and ?bd = "shard_block crc ec len b shard"
  obtain k rk where k: "co_write CO (dn_chunks st) b ?ci shard = (k, rk)" by fastforce
  have nm: "ci_chunk_name ?ci = ''0''" by (simp add: shard_chunk_def)
  show ?thesis
  proof (cases rk)
    case (Ok u)
    have v: "view k = (view (dn_chunks st))((b, ''0'') \<mapsto> shard)"
      using chunk.write_Ok [of "dn_chunks st" b ?ci shard k u] k Ok shard_name nm by simp
    obtain m' r' where m: "mo_put_block MO (dn_meta st) ?bd = (m', r')" by fastforce
    have bid: "bd_block_id ?bd = b" by (simp add: shard_block_def)
    have bc: "bid_container b = c" by (simp add: b_def)
    then have "live (mabs (dn_meta st)) (bid_container (bd_block_id ?bd))" using open_c bid by simp
    then obtain v' n where spec: "spec_put_block (mabs (dn_meta st)) ?bd = Ok (v', n)" "live v' c"
      "mv_blocks v' = (mv_blocks (mabs (dn_meta st)))(b \<mapsto> ?bd)"
      unfolding bid bc by (rule spec_put_block_live [of _ ?bd, unfolded bid bc])
    note law = meta.put_block [OF wf m]
    have out: "(st', r) = (st\<lparr>dn_chunks := k, dn_meta := m'\<rparr>, map_err RepairStorage (rbind r' (\<lambda>_. Ok ())))"
      using run m k Ok by (cases r') (simp_all add: persist_shard_eq rp_chunks_def rp_meta_def Let_def b_def)
    show ?thesis
    proof (cases r')
      case (Ok x)
      with law spec have "mabs m' = v'" by (simp add: refines_step_def)
      with out Ok law spec v show ?thesis by simp
    next
      case (Err e)
      with law spec(1) have "mabs m' = mabs (dn_meta st)" "backend_error e" by (auto simp: refines_step_def)
      with out Err law open_c v show ?thesis by auto
    next
      case Panic
      with law show ?thesis by (simp add: refines_step_def)
    qed
  next
    case (Err e)
    then have "write_fails CO e" using k unfolding write_fails_def by blast
    moreover have "(st', r) = (st\<lparr>dn_chunks := k\<rparr>, Err (RepairStorage e))"
      using run k Err by (auto simp: persist_shard_eq rp_chunks_def Let_def b_def)
    moreover have "view k = view (dn_chunks st)" using chunk.write_Err k Err by blast
    ultimately show ?thesis using wf open_c by simp
  next
    case Panic
    with chunk.write_total [of "dn_chunks st" b ?ci shard] k show ?thesis by simp
  qed
qed

end

definition slot_ids :: "container_id \<Rightarrow> local_id \<Rightarrow> u8 list \<Rightarrow> block_id set" where
  "slot_ids c l slots = block_id_ec c l ` set slots"

definition valid_slots :: "nat \<Rightarrow> u8 list \<Rightarrow> u8 list" where
  "valid_slots nslots slots = filter (\<lambda>s. 1 \<le> unat s \<and> unat s \<le> nslots) slots"

context repair_stores begin

text \<open>Whatever happens, only the blocks of the given slots are written, and the container stays live.\<close>

lemma persist_slots_frame:
  assumes "mwf (dn_meta st)" "live (mabs (dn_meta st)) c"
    "persist_slots crc MO CO c l ec len es slots st repaired = (st', r)"
  shows "mwf (dn_meta st') \<and> live (mabs (dn_meta st')) c \<and>
    (\<forall>b n. b \<notin> slot_ids c l slots \<longrightarrow> view (dn_chunks st') (b, n) = view (dn_chunks st) (b, n)) \<and>
    (\<forall>b. b \<notin> slot_ids c l slots \<longrightarrow> mv_blocks (mabs (dn_meta st')) b = mv_blocks (mabs (dn_meta st)) b)"
  using assms
proof (induction slots arbitrary: st repaired)
  case (Cons slot slots)
  let ?k = "pr_data (repair_profile ec)" and ?t = "pr_total (repair_profile ec)"
  show ?case
  proof (cases "unat slot = 0 \<or> unat slot > ?t")
    case True
    then have "persist_slots crc MO CO c l ec len es slots st repaired = (st', r)"
      using Cons.prems(3) by (auto simp: Let_def)
    from Cons.IH [OF Cons.prems(1,2) this] show ?thesis by (auto simp: slot_ids_def)
  next
    case False
    show ?thesis
    proof (cases "slot_shard es ?k (unat slot) :: (repair_error, bytes) result")
      case (Ok shard)
      obtain st1 r1 where p: "persist_shard crc MO CO st c l ec len slot shard = (st1, r1)" by fastforce
      note one = persist_shard_outcome [OF Cons.prems(1,2) p]
      then have frame: "\<forall>b n. b \<notin> slot_ids c l (slot # slots) \<longrightarrow> view (dn_chunks st1) (b, n) = view (dn_chunks st) (b, n)"
        "\<forall>b. b \<notin> slot_ids c l (slot # slots) \<longrightarrow> mv_blocks (mabs (dn_meta st1)) b = mv_blocks (mabs (dn_meta st)) b"
        by (auto simp: slot_ids_def)
      show ?thesis
      proof (cases r1)
        case (Ok u)
        have "persist_slots crc MO CO c l ec len es slots st1 (repaired @ [slot]) = (st', r)"
          using Cons.prems(3) False \<open>slot_shard es ?k (unat slot) = _\<close> p Ok by (auto simp: Let_def)
        with Cons.IH [of st1 "repaired @ [slot]"] one frame show ?thesis by (auto simp: slot_ids_def)
      next
        case (Err e)
        then have "st' = st1"
          using Cons.prems(3) False \<open>slot_shard es ?k (unat slot) = _\<close> p by (auto simp: Let_def)
        with one frame show ?thesis by simp
      qed (use one in auto)
    next
      case (Err e)
      then have "st' = st" using Cons.prems(3) False by (auto simp: Let_def)
      with Cons.prems show ?thesis by simp
    next
      case Panic
      then have "st' = st" using Cons.prems(3) False by (auto simp: Let_def)
      with Cons.prems show ?thesis by simp
    qed
  qed
qed auto

lemma slot_shard_nth:
  assumes "1 \<le> s" "s \<le> t" "k \<le> t"
  shows "slot_shard \<lparr>es_data = map S [0..<k], es_parity = map S [k..<t]\<rparr> k s = Ok (S (s - 1))"
  using assms by (auto simp: slot_shard_def index_def)

lemma persist_slots_done:
  assumes "mwf (dn_meta st)" "live (mabs (dn_meta st)) c"
    "persist_slots crc MO CO c l ec len es slots st repaired = (st', r)"
    "es = \<lparr>es_data = map S [0..<pr_data (repair_profile ec)],
           es_parity = map S [pr_data (repair_profile ec)..<pr_total (repair_profile ec)]\<rparr>"
  shows "(r = Ok (repaired @ valid_slots (pr_total (repair_profile ec)) slots) \<and>
     (\<forall>s\<in>set (valid_slots (pr_total (repair_profile ec)) slots).
        view (dn_chunks st') (block_id_ec c l s, ''0'') = Some (S (unat s - 1)) \<and>
        mv_blocks (mabs (dn_meta st')) (block_id_ec c l s) =
          Some (shard_block crc ec len (block_id_ec c l s) (S (unat s - 1))))) \<or>
    (\<exists>e. r = Err (RepairStorage e) \<and> (backend_error e \<or> write_fails CO e))"
  using assms(1-3)
proof (induction slots arbitrary: st repaired)
  case (Cons slot slots)
  let ?k = "pr_data (repair_profile ec)" and ?t = "pr_total (repair_profile ec)"
  show ?case
  proof (cases "unat slot = 0 \<or> unat slot > ?t")
    case True
    then have "persist_slots crc MO CO c l ec len es slots st repaired = (st', r)"
      using Cons.prems(3) by (auto simp: Let_def)
    with Cons.IH [OF Cons.prems(1,2) this] True show ?thesis by (auto simp: valid_slots_def)
  next
    case False
    then have shard: "slot_shard es ?k (unat slot) = Ok (S (unat slot - 1))"
      unfolding assms(4) by (intro slot_shard_nth) (auto simp: pr_total_def)
    obtain st1 r1 where p: "persist_shard crc MO CO st c l ec len slot (S (unat slot - 1)) = (st1, r1)" by fastforce
    note one = persist_shard_outcome [OF Cons.prems(1,2) p]
    show ?thesis
    proof (cases r1)
      case (Ok u)
      have rest: "persist_slots crc MO CO c l ec len es slots st1 (repaired @ [slot]) = (st', r)"
        using Cons.prems(3) False shard p Ok by (auto simp: Let_def)
      have wf1: "mwf (dn_meta st1)" "live (mabs (dn_meta st1)) c" using one by simp_all
      have here: "view (dn_chunks st') (block_id_ec c l slot, ''0'') = Some (S (unat slot - 1)) \<and>
          mv_blocks (mabs (dn_meta st')) (block_id_ec c l slot) =
            Some (shard_block crc ec len (block_id_ec c l slot) (S (unat slot - 1)))"
        if "slot \<notin> set slots"
      proof -
        have "block_id_ec c l slot \<notin> slot_ids c l slots" using that by (auto simp: slot_ids_def block_id_ec_def)
        with persist_slots_frame [OF wf1 rest] one Ok show ?thesis by simp
      qed
      have valid: "slot \<in> set slots \<Longrightarrow> slot \<in> set (valid_slots ?t slots)"
        using False by (auto simp: valid_slots_def Suc_le_eq)
      have "valid_slots ?t (slot # slots) = slot # valid_slots ?t slots"
        using False by (auto simp: valid_slots_def Suc_le_eq)
      with Cons.IH [OF wf1 rest] here valid show ?thesis by auto
    next
      case (Err e)
      then have "r = Err e" using Cons.prems(3) False shard p by (auto simp: Let_def)
      with one Err show ?thesis by auto
    qed (use one in auto)
  qed
qed (simp add: valid_slots_def)

end

section \<open>Correctness\<close>

lemma deployed_stores:
  assumes "fjall_contract F P kv"
  shows "repair_stores (fjall_meta_store F P) (file_chunk_store io pid root) (\<lambda>st. fj_abs P (kv st))
    (\<lambda>st. fj_wf P (kv st)) (file_view root) ok_chunk_name"
proof -
  have "ok_chunk_name ''0''" by code_simp
  then show ?thesis
    using fjall_contract.fjall_meets_laws [OF assms] file_store.chunk_store_laws_axioms [of io pid root]
    by (simp add: repair_stores_def repair_stores_axioms_def)
qed

lemma disk_writes: "\<not> write_fails (file_chunk_store io_ok pid root) e"
  using disk.write_succeeds [of pid root] by (auto simp: write_fails_def) (metis result.distinct(1) snd_conv)

interpretation rp: repair_stores "fjall_meta_store mem_keyspace mem_postcard" "file_chunk_store io pid root"
  "\<lambda>st. fj_abs mem_postcard (mem_kv st)" "\<lambda>st. fj_wf mem_postcard (mem_kv st)" "file_view root" ok_chunk_name
  by (rule deployed_stores [OF mem.fjall_contract_axioms])

text \<open>The number of shards gathered from the survivors.\<close>

lemma card_gathered:
  assumes "length bufs = n" "\<forall>i<n. bufs ! i = (if i \<in> G then Some (S i) else None)" "G \<subseteq> {..<n}"
  shows "length (filter (\<lambda>b. b \<noteq> None) bufs) = card G" "card {i. i < n \<and> bufs ! i = Some (S i)} = card G"
proof -
  have "{i. i < n \<and> bufs ! i \<noteq> None} = G" using assms(2,3) by (auto split: if_splits)
  then show "length (filter (\<lambda>b. b \<noteq> None) bufs) = card G" using assms(1) by (simp add: length_filter_conv_card)
  have "{i. i < n \<and> bufs ! i = Some (S i)} = G" using assms(2,3) by (auto split: if_splits)
  then show "card {i. i < n \<and> bufs ! i = Some (S i)} = card G" by simp
qed

text \<open>
  C21: repair restores the original shards. If an object was encoded, the container is open on this
  datanode, every shard a survivor returns is that slot's shard of the object and at least \<open>k\<close>
  distinct slots can be read, then rebuilding any slots ends either with all of them on disk, byte for
  byte what the encoder wrote, each recorded with the block group length and with checksums that the
  bytes verify against, or with a failure of the metadata backend; nothing else of this datanode
  changes.
\<close>

theorem repair_restores:
  fixes D :: bytes
  assumes "isal_contract L" "fjall_contract F P kv" "fj_wf P (kv (dn_meta st))"
    and "live (fj_abs P (kv (dn_meta st))) (ri_container input)"
    and "profile_ok (repair_profile (ri_ec input))" "length D < 2 ^ 63" "ri_block_group_len input = of_nat (length D)"
    and "encode_object L (repair_profile (ri_ec input)) D = Ok es"
    and "\<forall>src\<in>set (ri_sources input). \<forall>b.
      survivor net (ri_container input) (ri_local input) (ri_missing_slots input) (pr_total (repair_profile (ri_ec input))) src = Some b
        \<longrightarrow> b = (es_data es @ es_parity es) ! (unat (fst src) - 1)"
    and "pr_data (repair_profile (ri_ec input)) \<le> card {unat (fst src) - 1 | src. src \<in> set (ri_sources input) \<and>
      survivor net (ri_container input) (ri_local input) (ri_missing_slots input) (pr_total (repair_profile (ri_ec input))) src \<noteq> None}"
    and "reconstruct_and_persist L crc (fjall_meta_store F P) (file_chunk_store io_ok pid root) net st input = (st', r)"
  shows "(r = Ok (valid_slots (pr_total (repair_profile (ri_ec input))) (ri_missing_slots input)) \<and>
      (\<forall>s\<in>set (valid_slots (pr_total (repair_profile (ri_ec input))) (ri_missing_slots input)).
        file_view root (dn_chunks st') (block_id_ec (ri_container input) (ri_local input) s, ''0'') =
          Some ((es_data es @ es_parity es) ! (unat s - 1)) \<and>
        (\<exists>bd cd. mv_blocks (fj_abs P (kv (dn_meta st'))) (block_id_ec (ri_container input) (ri_local input) s) = Some bd \<and>
          block_group_len bd = Some (ri_block_group_len input) \<and> map ci_checksum_data (bd_chunks bd) = [Some cd] \<and>
          verify crc ((es_data es @ es_parity es) ! (unat s - 1)) cd = Ok ())) \<or>
      (\<exists>e. r = Err (RepairStorage e) \<and> backend_error e)) \<and>
    (\<forall>b n. b \<notin> slot_ids (ri_container input) (ri_local input) (ri_missing_slots input) \<longrightarrow>
      file_view root (dn_chunks st') (b, n) = file_view root (dn_chunks st) (b, n) \<and>
      mv_blocks (fj_abs P (kv (dn_meta st'))) b = mv_blocks (fj_abs P (kv (dn_meta st))) b)"
proof -
  let ?pf = "repair_profile (ri_ec input)" and ?c = "ri_container input" and ?l = "ri_local input"
  let ?MO = "fjall_meta_store F P" and ?S = "shard_of (repair_profile (ri_ec input)) D"
  let ?surv = "survivor net ?c ?l (ri_missing_slots input) (pr_total ?pf)"
  let ?G = "{i. \<exists>src\<in>set (ri_sources input). ?surv src \<noteq> None \<and> i = unat (fst src) - 1}"
  let ?bufs = "foldl (\<lambda>bufs src. gather_shard net ?c ?l (ri_missing_slots input) (pr_total ?pf) src bufs)
    (replicate (pr_total ?pf) None) (ri_sources input)"
  note rs = deployed_stores [OF assms(2), of io_ok pid root]
  have es: "es = \<lparr>es_data = map ?S [0..<pr_data ?pf], es_parity = map ?S [pr_data ?pf..<pr_total ?pf]\<rparr>"
    using assms(8) isal_contract.encode_object_eq [OF assms(1,5), of D] by simp
  then have nth: "(es_data es @ es_parity es) ! i = ?S i" if "i < pr_total ?pf" for i
    using that by (simp add: nth_append)
  have slot: "unat (fst src) - 1 < pr_total ?pf" if "?surv src = Some b" for src b
    using survivor_slot [OF that] by linarith
  have "\<forall>src\<in>set (ri_sources input). \<forall>b. ?surv src = Some b \<longrightarrow> b = ?S (unat (fst src) - 1)"
    using assms(9) nth slot by metis
  note g = gather_shards [OF this, of "replicate (pr_total ?pf) None", OF length_replicate]
  have bufs: "length ?bufs = pr_total ?pf" "\<forall>i<pr_total ?pf. ?bufs ! i = (if i \<in> ?G then Some (?S i) else None)"
  proof -
    show "length ?bufs = pr_total ?pf" using g by blast
    show "\<forall>i<pr_total ?pf. ?bufs ! i = (if i \<in> ?G then Some (?S i) else None)"
    proof (intro allI impI)
      fix i assume i: "i < pr_total ?pf"
      with g have "?bufs ! i = (if i \<in> ?G then Some (?S i) else replicate (pr_total ?pf) None ! i)" by blast
      with i show "?bufs ! i = (if i \<in> ?G then Some (?S i) else None)" by (simp only: nth_replicate)
    qed
  qed
  have G: "?G \<subseteq> {..<pr_total ?pf}" using slot by auto
  have k: "pr_data ?pf \<le> card ?G" using assms(10) by (simp add: conj_ac Bex_def)
  note cnt = card_gathered [OF bufs G]
  have dec: "decode_object L ?pf (length D) ?bufs = Ok D"
    by (rule isal_contract.decode_object_exact [OF assms(1,5,6) bufs(1)]) (use bufs(2) k cnt(2) in auto)
  have len: "unat (ri_block_group_len input) = length D" using assms(6,7) by (simp add: unat_of_nat)
  obtain info j where cont: "mv_containers (fj_abs P (kv (dn_meta st))) ?c = Some (info, j)" "is_writable (cinfo_state info)"
    using assms(4) by (auto simp: live_def is_writable_def)
  have reads: "refines_read (Some info) (mo_get_container ?MO (dn_meta st) ?c)"
    using meta_store_laws.get_container [OF fjall_contract.fjall_meets_laws [OF assms(2)], OF assms(3), of ?c] cont by simp
  show ?thesis
  proof (cases "mo_get_container ?MO (dn_meta st) ?c")
    case (Ok found)
    have run: "persist_slots crc ?MO (file_chunk_store io_ok pid root) ?c ?l (ri_ec input) (ri_block_group_len input) es
        (ri_missing_slots input) st [] = (st', r)"
      using assms(8,11) Ok reads cont(2) cnt(1) k dec len by (simp add: reconstruct_and_persist_def refines_read_def Let_def)
    note out = repair_stores.persist_slots_done [OF rs assms(3,4) run es]
    note frame = repair_stores.persist_slots_frame [OF rs assms(3,4) run]
    have rec: "\<exists>cd. block_group_len (shard_block crc ec len b sh) = Some len \<and>
        map ci_checksum_data (bd_chunks (shard_block crc ec len b sh)) = [Some cd] \<and> verify crc sh cd = Ok ()" for ec len b sh
      using verify_compute [OF compute_crc32c, of crc sh "ec_chunk_size ec"] by (simp add: shard_block_def shard_chunk_def)
    have val: "unat s - 1 < pr_total ?pf" if "s \<in> set (valid_slots (pr_total ?pf) (ri_missing_slots input))" for s
      using that by (auto simp: valid_slots_def)
    show ?thesis using out disk_writes frame rec nth val by auto
  next
    case (Err e)
    with assms(11) reads show ?thesis by (auto simp: reconstruct_and_persist_def refines_read_def Let_def)
  next
    case Panic
    with reads show ?thesis by (simp add: refines_read_def)
  qed
qed

definition peer :: "block_id \<Rightarrow> bytes \<Rightarrow> (mem_state, chunk_fs) dn_state dn_rpc \<times> (mem_state, chunk_fs) dn_state" where
  "peer b shard =
     (local_rpc sum_digest (sample_svc io_ok),
      \<lparr>dn_meta = mem_opened, dn_chunks = empty_fs\<lparr>fs_files := [chunk_file ''/d'' b ''0'' \<mapsto> shard]\<rparr>\<rparr>)"

lemma peer_read: "client_read_chunk (fst (peer b shard)) (snd (peer b shard)) b shard_probe True = Ok shard"
proof -
  have "mo_get_block (fjall_meta_store mem_keyspace mem_postcard) mem_opened b = Ok None"
    by (simp add: fjall_meta_store_def fjall_get_block_def mem_keyspace_def mem_opened_eq mem_empty_def fj_def)
  moreover have "co_read (file_chunk_store io_ok 7 ''/d'') (empty_fs\<lparr>fs_files := [chunk_file ''/d'' b ''0'' \<mapsto> shard]\<rparr>) b shard_probe = Ok shard"
    by (simp add: file_chunk_store_def file_read_chunk_def chunk_file_def shard_probe_def io_ok_def)
  ultimately show ?thesis
    by (simp add: peer_def client_read_chunk_local sample_svc_def read_check_def expected_checksum_def)
      (simp add: shard_probe_def)
qed

definition ec_2_1 :: ec_replication_config where
  "ec_2_1 = ec_rs 2 1 2"

lemma ec_2_1_profile: "repair_profile ec_2_1 = rs_2_1"
  by (simp add: repair_profile_def ec_2_1_def ec_rs_def rs_2_1_def)

theorem repair_restores_witness:
  "\<exists>es. encode_object isal_ref rs_2_1 [1, 2, 3, 4, 5] = Ok es \<and>
     (let net = [''a'' \<mapsto> peer (block_id_ec 1 2 2) (es_data es ! 1), ''b'' \<mapsto> peer (block_id_ec 1 2 3) (es_parity es ! 0)];
          input = \<lparr>ri_container = 1, ri_local = 2, ri_ec = ec_2_1, ri_block_group_len = 5, ri_missing_slots = [1],
                   ri_sources = [(2, ''a''), (3, ''b'')]\<rparr>;
          (st', r) = reconstruct_and_persist isal_ref sum_digest (fjall_meta_store mem_keyspace mem_postcard)
            (file_chunk_store io_ok 7 ''/d'') net \<lparr>dn_meta = mem_opened, dn_chunks = empty_fs\<rparr> input
      in (r = Ok [1] \<and> file_view ''/d'' (dn_chunks st') (block_id_ec 1 2 1, ''0'') = Some (es_data es ! 0)) \<or>
         (\<exists>e. r = Err (RepairStorage e) \<and> backend_error e))"
proof -
  let ?D = "[1, 2, 3, 4, 5] :: bytes"
  obtain es where es: "encode_object isal_ref rs_2_1 ?D = Ok es" "length (es_data es) = 2"
    using isal_contract.encode_object_eq [OF isal_ref_contract rs_2_1_ok(1), of ?D] by (simp add: rs_2_1_ok)
  let ?net = "[''a'' \<mapsto> peer (block_id_ec 1 2 2) (es_data es ! 1), ''b'' \<mapsto> peer (block_id_ec 1 2 3) (es_parity es ! 0)]"
  let ?in = "\<lparr>ri_container = 1, ri_local = 2, ri_ec = ec_2_1, ri_block_group_len = 5, ri_missing_slots = [1],
    ri_sources = [(2, ''a''), (3, ''b'')]\<rparr>"
  let ?st = "\<lparr>dn_meta = mem_opened, dn_chunks = empty_fs\<rparr>"
  obtain st' r where run: "reconstruct_and_persist isal_ref sum_digest (fjall_meta_store mem_keyspace mem_postcard)
      (file_chunk_store io_ok 7 ''/d'') ?net ?st ?in = (st', r)" by fastforce
  have surv: "survivor ?net 1 2 [1] 3 (2, ''a'') = Some (es_data es ! 1)" "survivor ?net 1 2 [1] 3 (3, ''b'') = Some (es_parity es ! 0)"
    using peer_read [of "block_id_ec 1 2 2" "es_data es ! 1"] peer_read [of "block_id_ec 1 2 3" "es_parity es ! 0"]
    by (simp_all add: survivor_def split_beta)
  have live: "live (fj_abs mem_postcard (mem_kv (dn_meta ?st))) (ri_container ?in)"
    by (simp add: live_def fj_abs_def mem_kv_def mem_opened_eq mem_empty_def mem_postcard_def container_info_new_open_def)
  have G: "{unat (fst src) - 1 | src. src \<in> set (ri_sources ?in) \<and>
      survivor ?net (ri_container ?in) (ri_local ?in) (ri_missing_slots ?in) (pr_total (repair_profile (ri_ec ?in))) src \<noteq> None} = {1, 2}"
    (is "{_ | src. ?Q src} = _")
  proof -
    have "{src. ?Q src} = {(2, ''a''), (3, ''b'')}" using surv by (auto simp: ec_2_1_profile rs_2_1_ok)
    then have "(\<lambda>src. unat (fst src) - 1) ` {src. ?Q src} = {1, 2}" by simp
    then show ?thesis by (simp only: image_Collect)
  qed
  note inst = repair_restores [OF isal_ref_contract mem.fjall_contract_axioms, where st = ?st and input = ?in and D = ?D
      and es = es and net = ?net and crc = sum_digest and pid = 7 and root = "''/d''" and st' = st' and r = r]
  have "fj_wf mem_postcard (mem_kv (dn_meta ?st))" by (simp add: mem_opened_wf)
  note inst = inst [OF this live]
  have "profile_ok (repair_profile (ri_ec ?in))" "length ?D < 2 ^ 63" "ri_block_group_len ?in = of_nat (length ?D)"
    "encode_object isal_ref (repair_profile (ri_ec ?in)) ?D = Ok es"
    using es(1) by (simp_all add: ec_2_1_profile rs_2_1_ok)
  note inst = inst [OF this]
  have "\<forall>src\<in>set (ri_sources ?in). \<forall>b. survivor ?net (ri_container ?in) (ri_local ?in) (ri_missing_slots ?in)
      (pr_total (repair_profile (ri_ec ?in))) src = Some b \<longrightarrow> b = (es_data es @ es_parity es) ! (unat (fst src) - 1)"
    using surv es(2) by (simp add: ec_2_1_profile rs_2_1_ok nth_append)
  note inst = inst [OF this]
  have "pr_data (repair_profile (ri_ec ?in)) \<le> card {1, 2 :: nat}" by (simp add: ec_2_1_profile rs_2_1_ok)
  note inst = inst [OF this [folded G] run]
  have "valid_slots (pr_total (repair_profile (ri_ec ?in))) (ri_missing_slots ?in) = [1]"
    by (simp add: ec_2_1_profile rs_2_1_ok valid_slots_def)
  then have "(r = Ok [1] \<and> file_view ''/d'' (dn_chunks st') (block_id_ec 1 2 1, ''0'') = Some (es_data es ! 0)) \<or>
      (\<exists>e. r = Err (RepairStorage e) \<and> backend_error e)"
    using inst [THEN conjunct1] es(2) by (auto simp: nth_append)
  with es(1) run show ?thesis by (auto simp: Let_def)
qed

section \<open>Reconstruction from survivors\<close>

definition rebuilt_ids :: "reconstruct_input \<Rightarrow> block_id set" where
  "rebuilt_ids input = {b. bid_container b = rx_container input \<and> bid_replica b \<in> set (rx_missing_slots input)}"

definition untouched ::
    "chunk_view \<Rightarrow> meta_view \<Rightarrow> chunk_view \<Rightarrow> meta_view \<Rightarrow> block_id set \<Rightarrow> bool" where
  "untouched ch v ch' v' B \<longleftrightarrow> (\<forall>b n. b \<notin> B \<longrightarrow> ch' (b, n) = ch (b, n) \<and> mv_blocks v' b = mv_blocks v b)"

lemma untouched_refl [simp]: "untouched ch v ch v B"
  by (simp add: untouched_def)

lemma untouched_trans: "untouched a u b v B \<Longrightarrow> untouched b v c w B \<Longrightarrow> untouched a u c w B"
  by (simp add: untouched_def)

context repair_stores begin

lemma rebuild_groups_frame:
  assumes "mwf (dn_meta st)" "live (mabs (dn_meta st)) (rx_container input)"
    "rebuild_groups L crc MO CO input lengths groups st rebuilt = (st', r)"
  shows "mwf (dn_meta st') \<and> live (mabs (dn_meta st')) (rx_container input) \<and>
    untouched (view (dn_chunks st)) (mabs (dn_meta st)) (view (dn_chunks st')) (mabs (dn_meta st')) (rebuilt_ids input)"
  using assms
proof (induction groups arbitrary: st rebuilt)
  case (Cons g groups)
  obtain l bufs where g: "g = (l, bufs)" by (cases g) auto
  let ?pf = "repair_profile (rx_ec input)"
  show ?case
  proof (cases "map_of lengths l = None \<or> length (filter (\<lambda>b. b \<noteq> None) bufs) < pr_data ?pf")
    case True
    then have "rebuild_groups L crc MO CO input lengths groups st rebuilt = (st', r)"
      using Cons.prems(3) g by (auto simp: Let_def split: option.splits)
    from Cons.IH [OF Cons.prems(1,2) this] show ?thesis .
  next
    case False
    then obtain len where len: "map_of lengths l = Some len" by auto
    have few: "\<not> length (filter (\<lambda>b. b \<noteq> None) bufs) < pr_data ?pf" using False by simp
    have "st' = st \<or> (\<exists>es st1 r1. persist_slots crc MO CO (rx_container input) l (rx_ec input) len es (rx_missing_slots input) st [] = (st1, r1) \<and>
        (st' = st1 \<or> rebuild_groups L crc MO CO input lengths groups st1 (rebuilt @ [l]) = (st', r)))"
    proof (cases "decode_object L ?pf (unat len) bufs")
      case (Ok obj)
      show ?thesis
      proof (cases "encode_object L ?pf obj")
        case (Ok es)
        obtain st1 r1 where p: "persist_slots crc MO CO (rx_container input) l (rx_ec input) len es (rx_missing_slots input) st [] = (st1, r1)"
          by fastforce
        with Ok \<open>decode_object L ?pf (unat len) bufs = _\<close> len few Cons.prems(3) g
        have "st' = st1 \<or> rebuild_groups L crc MO CO input lengths groups st1 (rebuilt @ [l]) = (st', r)"
          by (cases r1) (auto simp: Let_def simp del: not_None_eq)
        with p show ?thesis by blast
      qed (use Ok len few Cons.prems(3) g in \<open>auto simp: Let_def simp del: not_None_eq\<close>)
    qed (use len few Cons.prems(3) g in \<open>auto simp: Let_def simp del: not_None_eq\<close>)
    then show ?thesis
    proof (elim disjE exE conjE)
      assume "st' = st"
      with Cons.prems show ?thesis by simp
    next
      fix es st1 r1
      assume p: "persist_slots crc MO CO (rx_container input) l (rx_ec input) len es (rx_missing_slots input) st [] = (st1, r1)"
      have sub: "slot_ids (rx_container input) l (rx_missing_slots input) \<subseteq> rebuilt_ids input"
        by (auto simp: slot_ids_def rebuilt_ids_def)
      have one: "mwf (dn_meta st1) \<and> live (mabs (dn_meta st1)) (rx_container input) \<and>
          untouched (view (dn_chunks st)) (mabs (dn_meta st)) (view (dn_chunks st1)) (mabs (dn_meta st1)) (rebuilt_ids input)"
        using persist_slots_frame [OF Cons.prems(1,2) p] sub unfolding untouched_def by blast
      show ?thesis if "st' = st1" using one that by simp
      show ?thesis if "rebuild_groups L crc MO CO input lengths groups st1 (rebuilt @ [l]) = (st', r)"
        using Cons.IH [OF _ _ that] one untouched_trans by blast
    qed
  qed
qed auto

lemma provision_live:
  assumes "mwf (dn_meta st)" "live (mabs (dn_meta st)) (rx_container input)"
  shows "provision MO st input = (st, Ok (Some False)) \<or>
    (\<exists>e. backend_error e \<and> provision MO st input = (st, Err (RepairStorage e)))"
proof -
  obtain info j where c: "mv_containers (mabs (dn_meta st)) (rx_container input) = Some (info, j)" "cinfo_state info = Open"
    using assms(2) by (auto simp: live_def)
  have "refines_read (Some info) (mo_get_container MO (dn_meta st) (rx_container input))"
    using meta.get_container [OF assms(1), of "rx_container input"] c by simp
  then show ?thesis
    using c(2) by (cases "mo_get_container MO (dn_meta st) (rx_container input)")
      (auto simp: provision_def refines_read_def is_writable_def)
qed

lemma reconstruct_live:
  assumes "mwf (dn_meta st)" "live (mabs (dn_meta st)) (rx_container input)"
    "reconstruct_from_survivors L crc MO CO net n st input = Some (st', r)"
  shows "mwf (dn_meta st') \<and> live (mabs (dn_meta st')) (rx_container input) \<and>
    untouched (view (dn_chunks st)) (mabs (dn_meta st)) (view (dn_chunks st')) (mabs (dn_meta st')) (rebuilt_ids input)"
proof -
  obtain sv where run: "rebuild_container L crc MO CO st input sv = (st', r)"
    using assms(3) by (auto simp: reconstruct_from_survivors_def Let_def)
  obtain st1 r1 where g: "rebuild_groups L crc MO CO input (sv_lengths sv) (sv_shards sv) st [] = (st1, r1)" by fastforce
  have "st' = st \<or> st' = st1"
    using run provision_live [OF assms(1,2)] g
    by (cases r1) (auto simp: rebuild_container_def finish_rebuild_def split: if_splits)
  with assms(1,2) rebuild_groups_frame [OF assms(1,2) g] show ?thesis by auto
qed

end

text \<open>
  C22: reconstruction never harms a live container. If the target container is open on this datanode,
  then whatever the survivors answer, whatever the decoder finds and whatever call to the disk or to
  the metadata fails, the container is afterwards still there and still open, and no block outside the
  slots that were to be rebuilt has changed, neither its metadata nor its chunks. This is what the
  documentation of the function says of an open target. It also means that a container left open
  because its close failed is not closed by a later delivery of the command, although the comment at
  that close says a re-delivery retries it.
\<close>

theorem reconstruct_keeps_live:
  assumes "fjall_contract F P kv" "fj_wf P (kv (dn_meta st))" "live (fj_abs P (kv (dn_meta st))) (rx_container input)"
    "reconstruct_from_survivors L crc (fjall_meta_store F P) (file_chunk_store io pid root) net n st input = Some (st', r)"
  shows "live (fj_abs P (kv (dn_meta st'))) (rx_container input) \<and>
    (\<forall>b. \<not> (bid_container b = rx_container input \<and> bid_replica b \<in> set (rx_missing_slots input)) \<longrightarrow>
      mv_blocks (fj_abs P (kv (dn_meta st'))) b = mv_blocks (fj_abs P (kv (dn_meta st))) b \<and>
      (\<forall>nm. file_view root (dn_chunks st') (b, nm) = file_view root (dn_chunks st) (b, nm)))"
  using repair_stores.reconstruct_live [OF deployed_stores [OF assms(1)] assms(2-4)]
  unfolding untouched_def rebuilt_ids_def by blast

text \<open>Two peers that hold slots 2 and 3 of block 2 in container 1.\<close>

definition stocked_peer :: "u8 \<Rightarrow> bytes \<Rightarrow> (mem_state, chunk_fs) dn_state dn_rpc \<times> (mem_state, chunk_fs) dn_state" where
  "stocked_peer slot shard =
     (let b = block_id_ec 1 2 slot in
      (local_rpc sum_digest (sample_svc io_ok),
       \<lparr>dn_meta = mem_opened(Blocks := [(block_key b, Mem_Block (shard_block sum_digest ec_2_1 5 b shard))]),
        dn_chunks = empty_fs\<lparr>fs_files := [chunk_file ''/d'' b ''0'' \<mapsto> shard]\<rparr>\<rparr>))"

lemma stocked_peer_list:
  "client_list_blocks (fst (stocked_peer slot shard)) (snd (stocked_peer slot shard)) 1 0 256 3 =
     Some (Ok [shard_block sum_digest ec_2_1 5 (block_id_ec 1 2 slot) shard])"
proof -
  let ?b = "block_id_ec 1 2 slot"
  let ?bd = "shard_block sum_digest ec_2_1 5 ?b shard"
  let ?m = "mem_opened(Blocks := [(block_key ?b, Mem_Block ?bd)])"
  have bid: "bd_block_id ?bd = ?b" by (simp add: shard_block_def)
  have "fj_prefix mem_keyspace ?m Blocks (container_key 1) = [Ok (block_key ?b, Mem_Block ?bd)]"
    by (simp add: mem_keyspace_def)
  then have "mo_list_blocks (fjall_meta_store mem_keyspace mem_postcard) ?m 1 0 256 =
      Ok \<lparr>bp_blocks = [?bd], bp_next_local_id = None\<rparr>"
    by (simp add: fjall_meta_store_def fjall_list_blocks_def fj_def fj_decode_def mem_postcard_def Let_def)
  then have task: "list_blocks_task (fjall_meta_store mem_keyspace mem_postcard) ?m 1 256 3 0 =
      [Ok \<lparr>lbr_blocks = [block_data_to_wire ?bd], lbr_next_local_id = 0\<rparr>]"
    by (simp add: numeral_3_eq_3 Let_def)
  have "btree_wf (bd_metadata ?bd)" by (simp add: shard_block_def set_block_group_len_def btree_wf_def)
  then show ?thesis
    using task by (simp add: client_list_blocks_def stocked_peer_def Let_def local_rpc_def sample_svc_def dn_list_blocks_def
        container_id_from_wire_def container_id_to_wire_def block_data_from_wire_to_wire)
qed

definition sample_net :: "(mem_state, chunk_fs) dn_state network" where
  "sample_net = [''a'' \<mapsto> stocked_peer 2 [3, 4], ''b'' \<mapsto> stocked_peer 3 [7, 7]]"

definition sample_reconstruct :: reconstruct_input where
  "sample_reconstruct = \<lparr>rx_container = 1, rx_ec = ec_2_1, rx_missing_slots = [1], rx_sources = [(2, ''a''), (3, ''b'')]\<rparr>"

lemma sample_reconstruct_simps [simp]:
  "rx_container sample_reconstruct = 1" "rx_ec sample_reconstruct = ec_2_1"
  "rx_missing_slots sample_reconstruct = [1]" "rx_sources sample_reconstruct = [(2, ''a''), (3, ''b'')]"
  by (simp_all add: sample_reconstruct_def)

lemma sample_survey:
  "\<exists>sv. survey_sources sample_net 3 1 [1] 3 [(2, ''a''), (3, ''b'')] sv0 = Some sv"
  using stocked_peer_list [of 2 "[3, 4]"] stocked_peer_list [of 3 "[7, 7]"]
  by (simp add: sample_net_def split_beta)

lemma sample_run:
  obtains st' r where "reconstruct_from_survivors isal_ref sum_digest (fjall_meta_store mem_keyspace mem_postcard)
    (file_chunk_store io 7 ''/d'') sample_net 3 st sample_reconstruct = Some (st', r)"
proof -
  obtain sv where "survey_sources sample_net 3 1 [1] 3 [(2, ''a''), (3, ''b'')] \<lparr>sv_shards = [], sv_lengths = []\<rparr> = Some sv"
    using sample_survey by blast
  then show thesis
    by (intro that [of "fst (rebuild_container isal_ref sum_digest (fjall_meta_store mem_keyspace mem_postcard)
          (file_chunk_store io 7 ''/d'') st sample_reconstruct sv)"
          "snd (rebuild_container isal_ref sum_digest (fjall_meta_store mem_keyspace mem_postcard)
          (file_chunk_store io 7 ''/d'') st sample_reconstruct sv)"])
      (simp add: reconstruct_from_survivors_def ec_2_1_profile rs_2_1_ok(2) Let_def del: survey_sources.simps)
qed

theorem reconstruct_keeps_live_witness:
  "\<exists>st' r. reconstruct_from_survivors isal_ref sum_digest (fjall_meta_store mem_keyspace mem_postcard)
      (file_chunk_store io_ok 7 ''/d'') sample_net 3 \<lparr>dn_meta = mem_filled, dn_chunks = empty_fs\<rparr> sample_reconstruct = Some (st', r) \<and>
     live (fj_abs mem_postcard (mem_kv (dn_meta st'))) 1 \<and>
     mv_blocks (fj_abs mem_postcard (mem_kv (dn_meta st'))) sample_block_id = Some sample_block"
proof -
  let ?st = "\<lparr>dn_meta = mem_filled, dn_chunks = empty_fs\<rparr>"
  obtain st' r where run: "reconstruct_from_survivors isal_ref sum_digest (fjall_meta_store mem_keyspace mem_postcard)
      (file_chunk_store io_ok 7 ''/d'') sample_net 3 ?st sample_reconstruct = Some (st', r)"
    by (rule sample_run)
  have wf: "fj_wf mem_postcard (mem_kv (dn_meta ?st))"
    using mem.put_block_lands [OF mem_opened_wf, of sample_block] by (simp add: lands_def mem_filled_def)
  have lv: "live (fj_abs mem_postcard (mem_kv (dn_meta ?st))) (rx_container sample_reconstruct)"
    unfolding mem_filled_def mem_put_block
    by (simp add: live_def fj_abs_def mem_kv_def mem_postcard_def container_info_new_open_def)
  have "\<not> (bid_container sample_block_id = rx_container sample_reconstruct \<and>
      bid_replica sample_block_id \<in> set (rx_missing_slots sample_reconstruct))"
    by (simp add: sample_block_id_def)
  with reconstruct_keeps_live [OF mem.fjall_contract_axioms, of ?st, OF wf lv run] run mem_filled_blocks show ?thesis
    by auto
qed

text \<open>No record and no byte of a container.\<close>

definition no_trace :: "meta_view \<Rightarrow> chunk_view \<Rightarrow> container_id \<Rightarrow> bool" where
  "no_trace v ch c \<longleftrightarrow> mv_containers v c = None \<and> committed v c = {} \<and> (\<forall>b n. bid_container b = c \<longrightarrow> ch (b, n) = None)"

definition elsewhere_same :: "meta_view \<Rightarrow> chunk_view \<Rightarrow> meta_view \<Rightarrow> chunk_view \<Rightarrow> container_id \<Rightarrow> bool" where
  "elsewhere_same v ch v' ch' c \<longleftrightarrow>
     (\<forall>b n. bid_container b \<noteq> c \<longrightarrow> mv_blocks v' b = mv_blocks v b \<and> ch' (b, n) = ch (b, n))"

lemma elsewhere_same_refl [simp]: "elsewhere_same v ch v ch c"
  by (simp add: elsewhere_same_def)

lemma elsewhere_same_trans:
  "elsewhere_same a x b y c \<Longrightarrow> elsewhere_same b y d z c \<Longrightarrow> elsewhere_same a x d z c"
  by (simp add: elsewhere_same_def)

text \<open>The shards of a survey: one place per slot, and no shard beyond the address space.\<close>

definition fits :: "nat \<Rightarrow> bytes option list \<Rightarrow> bool" where
  "fits nslots bufs \<longleftrightarrow> length bufs = nslots \<and> (\<forall>b. Some b \<in> set bufs \<longrightarrow> length b < usize_max)"

definition answers_fit :: "'s network \<Rightarrow> bool" where
  "answers_fit net \<longleftrightarrow> (\<forall>endpoint rpc s b ci bytes. net endpoint = Some (rpc, s) \<longrightarrow>
     client_read_chunk rpc s b ci True = Ok bytes \<longrightarrow> length bytes < usize_max)"

lemma btree_insert_vals: "snd ` set (btree_insert k v xs) \<subseteq> insert v (snd ` set xs)"
  by (induction k v xs rule: btree_insert.induct) auto

lemma survey_block_fits:
  assumes "\<forall>g\<in>set (sv_shards sv). fits nslots (snd g)"
    "\<And>b ci bytes. client_read_chunk rpc s b ci True = Ok bytes \<Longrightarrow> length bytes < usize_max"
  shows "\<forall>g\<in>set (sv_shards (survey_block rpc s c nslots slot sv bd)). fits nslots (snd g)"
proof -
  let ?l = "bid_local (bd_block_id bd)"
  let ?old = "btree_or_insert ?l (replicate nslots None) (sv_shards sv)"
  have "fits nslots ?old"
    using assms(1) by (auto simp: btree_or_insert_def fits_def split: option.splits dest!: map_of_SomeD)
  then have new: "fits nslots (?old[i := Some bytes])" if "length bytes < usize_max" for i bytes
    using that set_update_subset_insert [of ?old i "Some bytes"] by (auto simp: fits_def)
  have ins: "\<forall>g\<in>set (btree_insert ?l (?old[i := Some bytes]) (sv_shards sv)). fits nslots (snd g)"
    if "length bytes < usize_max" for i bytes
    using new [OF that] assms(1) btree_insert_vals [of ?l "?old[i := Some bytes]" "sv_shards sv"] by fastforce
  show ?thesis
  proof (cases "client_read_chunk rpc s (block_id_ec c ?l slot) shard_probe True")
    case (Ok bytes)
    show ?thesis
      using assms(1) ins [OF assms(2) [OF Ok], of "unat slot - 1"] Ok
      by (simp add: survey_block_def Let_def split: option.splits)
  qed (use assms(1) in \<open>simp_all add: survey_block_def Let_def split: option.splits\<close>)
qed

lemma survey_fits:
  assumes "answers_fit net"
  shows "survey_sources net n c lost nslots sources sv = Some sv' \<Longrightarrow> \<forall>g\<in>set (sv_shards sv). fits nslots (snd g) \<Longrightarrow>
    \<forall>g\<in>set (sv_shards sv'). fits nslots (snd g)"
proof (induction sources arbitrary: sv)
  case (Cons src sources)
  obtain slot ep where src: "src = (slot, ep)" by (cases src)
  have fold: "\<forall>g\<in>set (sv_shards (foldl (survey_block rpc s c nslots slot) sv bds)). fits nslots (snd g)"
    if "net ep = Some (rpc, s)" "\<forall>g\<in>set (sv_shards sv). fits nslots (snd g)" for rpc s bds sv
    using that(2)
  proof (induction bds arbitrary: sv)
    case (Cons bd bds)
    have "\<forall>g\<in>set (sv_shards (survey_block rpc s c nslots slot sv bd)). fits nslots (snd g)"
      by (rule survey_block_fits [OF Cons.prems]) (use assms that(1) in \<open>auto simp: answers_fit_def\<close>)
    from Cons.IH [OF this] show ?case by simp
  qed simp
  show ?case
    using Cons.prems(1) fold [OF _ Cons.prems(2)] Cons.IH [OF _ Cons.prems(2)] Cons.IH
    by (auto simp: src split: if_splits option.splits result.splits prod.splits)
qed simp

context repair_stores begin

lemma rebuild_groups_total:
  assumes "isal_contract L" "profile_ok (repair_profile (rx_ec input))"
  shows "mwf (dn_meta st) \<Longrightarrow> live (mabs (dn_meta st)) (rx_container input) \<Longrightarrow>
    \<forall>g\<in>set groups. fits (pr_total (repair_profile (rx_ec input))) (snd g) \<Longrightarrow>
    snd (rebuild_groups L crc MO CO input lengths groups st rebuilt) \<noteq> Panic"
proof (induction groups arbitrary: st rebuilt)
  case (Cons g groups)
  obtain l bufs where g: "g = (l, bufs)" by (cases g)
  let ?pf = "repair_profile (rx_ec input)"
  have skip: "snd (rebuild_groups L crc MO CO input lengths groups st rebuilt) \<noteq> Panic" using Cons by simp
  show ?case
  proof (cases "map_of lengths l")
    case (Some len)
    have "unat len \<le> usize_max" using unsigned_less [of len, where 'a = nat] by (simp add: usize_max_def)
    moreover have "length bufs = pr_total ?pf" "\<forall>b. Some b \<in> set bufs \<longrightarrow> length b < usize_max"
      using Cons.prems(3) by (simp_all add: g fits_def)
    ultimately have dec: "decode_object L ?pf (unat len) bufs \<noteq> Panic"
      using isal_contract.decode_object_total [OF assms, of "unat len" bufs] by auto
    show ?thesis
    proof (cases "decode_object L ?pf (unat len) bufs")
      case (Ok obj)
      let ?es = "\<lparr>es_data = map (shard_of ?pf obj) [0..<pr_data ?pf], es_parity = map (shard_of ?pf obj) [pr_data ?pf..<pr_total ?pf]\<rparr>"
      have enc: "encode_object L ?pf obj = Ok ?es" by (rule isal_contract.encode_object_eq [OF assms])
      obtain st1 r1 where p: "persist_slots crc MO CO (rx_container input) l (rx_ec input) len ?es (rx_missing_slots input) st [] = (st1, r1)"
        by fastforce
      have "mwf (dn_meta st1)" "live (mabs (dn_meta st1)) (rx_container input)"
        using persist_slots_frame [OF Cons.prems(1,2) p] by simp_all
      then have "snd (rebuild_groups L crc MO CO input lengths groups st1 (rebuilt @ [l])) \<noteq> Panic" using Cons by simp
      moreover have "r1 \<noteq> Panic" using persist_slots_done [OF Cons.prems(1,2) p refl] by auto
      ultimately show ?thesis using skip Some Ok enc p by (cases r1) (auto simp: g Let_def)
    qed (use skip Some dec in \<open>auto simp: g Let_def\<close>)
  qed (use skip in \<open>simp add: g\<close>)
qed simp

lemma rollback_no_trace:
  assumes "mwf (dn_meta st)" "\<And>m. snd (mo_delete_container MO m c) = Ok ()" "\<And>k. snd (co_delete_container CO k c) = Ok ()"
  defines "st' \<equiv> rollback_created MO CO st c"
  shows "no_trace (mabs (dn_meta st')) (view (dn_chunks st')) c \<and>
    elsewhere_same (mabs (dn_meta st)) (view (dn_chunks st)) (mabs (dn_meta st')) (view (dn_chunks st')) c"
proof -
  obtain m' where m: "mo_delete_container MO (dn_meta st) c = (m', Ok ())"
    using assms(2) [of "dn_meta st"] by (cases "mo_delete_container MO (dn_meta st) c") simp
  obtain k' where k: "co_delete_container CO (dn_chunks st) c = (k', Ok ())"
    using assms(3) [of "dn_chunks st"] by (cases "co_delete_container CO (dn_chunks st) c") simp
  have st': "st' = st\<lparr>dn_meta := m', dn_chunks := k'\<rparr>" by (simp add: st'_def rollback_created_def m k Let_def)
  have "spec_delete_container (mabs (dn_meta st)) c = Ok (mabs m', ())"
    using meta.delete_container [OF assms(1) m] by (simp add: refines_step_def)
  then have v: "mabs m' = (mabs (dn_meta st))\<lparr>mv_containers := (mv_containers (mabs (dn_meta st)))(c := None),
      mv_blocks := (\<lambda>b. if bid_container b = c then None else mv_blocks (mabs (dn_meta st)) b)\<rparr>"
    by (simp add: spec_delete_container_def)
  have "view k' = (\<lambda>(b, n). if bid_container b = c then None else view (dn_chunks st) (b, n))"
    by (rule chunk.delete_container_Ok [OF k])
  with v show ?thesis by (auto simp: st' no_trace_def elsewhere_same_def committed_def)
qed

lemma provision_absent:
  assumes "mwf (dn_meta st)" "mv_containers (mabs (dn_meta st)) (rx_container input) = None" "provision MO st input = (st', r)"
  shows "mwf (dn_meta st') \<and> dn_chunks st' = dn_chunks st \<and> mv_blocks (mabs (dn_meta st')) = mv_blocks (mabs (dn_meta st)) \<and>
    (r = Ok (Some True) \<and> live (mabs (dn_meta st')) (rx_container input) \<or>
     (\<exists>e. r = Err e) \<and> mabs (dn_meta st') = mabs (dn_meta st))"
proof (cases "mo_get_container MO (dn_meta st) (rx_container input)")
  case (Ok found)
  with meta.get_container [OF assms(1), of "rx_container input"] assms(2) have "found = None"
    by (simp add: refines_read_def)
  let ?info = "container_info_new_open (rx_container input) (rx_ec input)"
  obtain m' r' where m: "mo_create_container MO (dn_meta st) ?info = (m', r')" by fastforce
  have spec: "spec_create_container (mabs (dn_meta st)) ?info =
      Ok ((mabs (dn_meta st))\<lparr>mv_containers := (mv_containers (mabs (dn_meta st)))(rx_container input \<mapsto> (?info, 0))\<rparr>, ())"
    using assms(2) by (simp add: spec_create_container_def container_info_new_open_def)
  note law = meta.create_container [OF assms(1) m, unfolded spec]
  have "(st', r) = (st\<lparr>dn_meta := m'\<rparr>, map_err RepairStorage (rbind r' (\<lambda>_. Ok (Some True))))"
    using assms(3) Ok \<open>found = None\<close> m by (cases r') (simp_all add: provision_def rp_meta_def)
  then show ?thesis
    using law by (cases r') (auto simp: refines_step_def live_def container_info_new_open_def dest!: sym [of _ "mabs m'"])
next
  case (Err e)
  with assms show ?thesis by (auto simp: provision_def)
next
  case Panic
  with meta.get_container [OF assms(1), of "rx_container input"] show ?thesis by (simp add: refines_read_def)
qed

lemma close_outcome:
  assumes "mwf (dn_meta st)" "live (mabs (dn_meta st)) c" "mo_set_container_state MO (dn_meta st) c Closed = (m', r)"
  shows "mv_blocks (mabs m') = mv_blocks (mabs (dn_meta st)) \<and>
    (r = Ok () \<and> (\<exists>info i. mv_containers (mabs m') c = Some (info, i) \<and> cinfo_state info = Closed) \<or>
     (\<exists>e. r = Err e \<and> backend_error e \<and> mabs m' = mabs (dn_meta st)))"
proof -
  obtain info i where c: "mv_containers (mabs (dn_meta st)) c = Some (info, i)" using assms(2) by (auto simp: live_def)
  show ?thesis
    using meta.set_container_state [OF assms(1,3)] c
    by (cases r) (auto simp: refines_step_def spec_set_container_state_def dest!: sym [of _ "mabs m'"])
qed

end

text \<open>How a reconstruction into an absent container may end.\<close>

definition settled ::
    "'m meta_ops \<Rightarrow> meta_view \<Rightarrow> chunk_view \<Rightarrow> container_id \<Rightarrow> (repair_error, u64 list) result \<Rightarrow> bool" where
  "settled MO v ch c r \<longleftrightarrow>
     (case r of
        Ok [] \<Rightarrow> no_trace v ch c
      | Ok (_ # _) \<Rightarrow> \<exists>info i. mv_containers v c = Some (info, i) \<and> cinfo_state info = Closed
      | Err e \<Rightarrow> no_trace v ch c \<or>
          live v c \<and> (\<exists>e' m. e = RepairStorage e' \<and> backend_error e' \<and> snd (mo_set_container_state MO m c Closed) = Err e')
      | Panic \<Rightarrow> False)"

context repair_stores begin

lemma finish_settled:
  assumes "mwf (dn_meta st)" "live (mabs (dn_meta st)) c" "r \<noteq> Panic"
    "\<And>m. snd (mo_delete_container MO m c) = Ok ()" "\<And>k. snd (co_delete_container CO k c) = Ok ()"
    "finish_rebuild MO CO c True (st, r) = (st', r')"
  shows "settled MO (mabs (dn_meta st')) (view (dn_chunks st')) c r' \<and>
    elsewhere_same (mabs (dn_meta st)) (view (dn_chunks st)) (mabs (dn_meta st')) (view (dn_chunks st')) c"
proof -
  note roll = rollback_no_trace [OF assms(1,4,5)]
  consider (closes) x xs where "r = Ok (x # xs)" | (nothing) "r = Ok []" | (fails) e where "r = Err e"
    using assms(3) by (cases r) (auto, metis list.exhaust)
  then show ?thesis
  proof cases
    case closes
    obtain m' rc where m: "mo_set_container_state MO (dn_meta st) c Closed = (m', rc)" by fastforce
    note out = close_outcome [OF assms(1,2) m]
    have run: "(st', r') = (st\<lparr>dn_meta := m'\<rparr>, map_err RepairStorage (rbind rc (\<lambda>_. Ok (x # xs))))"
      using assms(6) closes m by (cases rc) (simp_all add: finish_rebuild_def rp_meta_def)
    have "snd (mo_set_container_state MO (dn_meta st) c Closed) = rc" by (simp add: m)
    with out run assms(2) show ?thesis
      by (auto simp: settled_def elsewhere_same_def)
  qed (use assms(6) roll in \<open>auto simp: finish_rebuild_def settled_def\<close>)
qed

lemma reconstruct_absent:
  assumes "isal_contract L" "profile_ok (repair_profile (rx_ec input))" "answers_fit net" "mwf (dn_meta st)"
    "no_trace (mabs (dn_meta st)) (view (dn_chunks st)) (rx_container input)"
    "\<And>m. snd (mo_delete_container MO m (rx_container input)) = Ok ()"
    "\<And>k. snd (co_delete_container CO k (rx_container input)) = Ok ()"
    "reconstruct_from_survivors L crc MO CO net n st input = Some (st', r)"
  shows "settled MO (mabs (dn_meta st')) (view (dn_chunks st')) (rx_container input) r \<and>
    elsewhere_same (mabs (dn_meta st)) (view (dn_chunks st)) (mabs (dn_meta st')) (view (dn_chunks st')) (rx_container input)"
proof -
  let ?c = "rx_container input" and ?t = "pr_total (repair_profile (rx_ec input))"
  obtain sv where sv: "survey_sources net n ?c (rx_missing_slots input) ?t (rx_sources input) \<lparr>sv_shards = [], sv_lengths = []\<rparr> = Some sv"
    and run: "rebuild_container L crc MO CO st input sv = (st', r)"
    using assms(8) by (auto simp: reconstruct_from_survivors_def Let_def)
  have fit: "\<forall>g\<in>set (sv_shards sv). fits ?t (snd g)" using survey_fits [OF assms(3) sv] by simp
  obtain st1 r1 where p: "provision MO st input = (st1, r1)" by fastforce
  have "mv_containers (mabs (dn_meta st)) ?c = None" using assms(5) by (simp add: no_trace_def)
  note prov = provision_absent [OF assms(4) this p]
  show ?thesis
  proof (cases "sv_shards sv = [] \<or> (\<exists>e. r1 = Err e)")
    case True
    then have "mabs (dn_meta st') = mabs (dn_meta st) \<and> dn_chunks st' = dn_chunks st \<and> (r = Ok [] \<or> (\<exists>e. r = Err e))"
      using run p prov by (auto simp: rebuild_container_def split: if_splits)
    with assms(5) show ?thesis by (auto simp: settled_def)
  next
    case False
    with prov have r1: "r1 = Ok (Some True)" "live (mabs (dn_meta st1)) ?c" "mwf (dn_meta st1)" by auto
    obtain st2 r2 where g: "rebuild_groups L crc MO CO input (sv_lengths sv) (sv_shards sv) st1 [] = (st2, r2)" by fastforce
    note fr = rebuild_groups_frame [OF r1(3,2) g]
    have np: "r2 \<noteq> Panic" using rebuild_groups_total [OF assms(1,2) r1(3,2) fit] g by (metis snd_conv)
    have "finish_rebuild MO CO ?c True (st2, r2) = (st', r)"
      using run p r1 g False by (simp add: rebuild_container_def)
    note fin = finish_settled [OF _ _ np assms(6,7) this]
    have "elsewhere_same (mabs (dn_meta st)) (view (dn_chunks st)) (mabs (dn_meta st2)) (view (dn_chunks st2)) ?c"
      using fr prov by (auto simp: elsewhere_same_def untouched_def rebuilt_ids_def)
    with fin fr show ?thesis using elsewhere_same_trans by blast
  qed
qed

end

text \<open>
  C23: a reconstruction into a container this datanode does not have is all or nothing. Let removing
  the container work, its metadata and its directory both (every other call to the disk and to the
  metadata may fail), let the configuration be one the codec accepts and no peer answer with more bytes
  than the address space. Then the run does not panic, and it ends in one of these ways: it rebuilt
  something and the container is closed; it rebuilt nothing, or it failed, and no record and no byte of
  the container is left; or closing the rebuilt container failed, the error says so, and the container
  is left open. Blocks and chunks of other containers are as before in every case.
\<close>

theorem reconstruct_all_or_nothing:
  assumes "isal_contract L" "profile_ok (repair_profile (rx_ec input))" "answers_fit net"
    and "fjall_contract F P kv" "fj_wf P (kv (dn_meta st))"
    and "no_trace (fj_abs P (kv (dn_meta st))) (file_view root (dn_chunks st)) (rx_container input)"
    and "\<forall>m. snd (fjall_delete_container F P m (rx_container input)) = Ok ()"
    and "io_fail io (RemoveDir (container_dir root (rx_container input))) = None"
    and "reconstruct_from_survivors L crc (fjall_meta_store F P) (file_chunk_store io pid root) net n st input = Some (st', r)"
  shows "(case r of
      Ok [] \<Rightarrow> no_trace (fj_abs P (kv (dn_meta st'))) (file_view root (dn_chunks st')) (rx_container input)
    | Ok (_ # _) \<Rightarrow> \<exists>info i. mv_containers (fj_abs P (kv (dn_meta st'))) (rx_container input) = Some (info, i) \<and> cinfo_state info = Closed
    | Err e \<Rightarrow> no_trace (fj_abs P (kv (dn_meta st'))) (file_view root (dn_chunks st')) (rx_container input) \<or>
        live (fj_abs P (kv (dn_meta st'))) (rx_container input) \<and>
        (\<exists>e' m. e = RepairStorage e' \<and> backend_error e' \<and> snd (fjall_set_container_state F P m (rx_container input) Closed) = Err e')
    | Panic \<Rightarrow> False) \<and>
    (\<forall>b nm. bid_container b \<noteq> rx_container input \<longrightarrow>
      mv_blocks (fj_abs P (kv (dn_meta st'))) b = mv_blocks (fj_abs P (kv (dn_meta st))) b \<and>
      file_view root (dn_chunks st') (b, nm) = file_view root (dn_chunks st) (b, nm))"
proof -
  have "snd (mo_delete_container (fjall_meta_store F P) m (rx_container input)) = Ok ()" for m
    using assms(7) by (simp add: fjall_meta_store_def)
  moreover have "snd (co_delete_container (file_chunk_store io pid root) k (rx_container input)) = Ok ()" for k
    using assms(8) by (simp add: file_chunk_store_def file_delete_container_def Let_def)
  ultimately have "settled (fjall_meta_store F P) (fj_abs P (kv (dn_meta st'))) (file_view root (dn_chunks st')) (rx_container input) r \<and>
      elsewhere_same (fj_abs P (kv (dn_meta st))) (file_view root (dn_chunks st)) (fj_abs P (kv (dn_meta st')))
        (file_view root (dn_chunks st')) (rx_container input)"
    by (rule repair_stores.reconstruct_absent [OF deployed_stores [OF assms(4)] assms(1-3,5,6) _ _ assms(9)])
  moreover have "mo_set_container_state (fjall_meta_store F P) = fjall_set_container_state F P" by (simp add: fjall_meta_store_def)
  ultimately show ?thesis unfolding settled_def elsewhere_same_def by (simp only: simp_thms) simp
qed

lemma mem_delete_ok: "snd (fjall_delete_container mem_keyspace mem_postcard m c) = Ok ()"
proof -
  have "rmap_list (\<lambda>kv. rbind (fj kv) (\<lambda>(k, _). Ok (Remove Blocks k :: mem_value batch_op))) (map Ok xs) =
      Ok (map (\<lambda>(k, _). Remove Blocks k) xs)" for xs :: "(bytes \<times> mem_value) list"
    by (induction xs) (auto simp: fj_def)
  then show ?thesis
    unfolding fjall_delete_container_def mem_prefix Let_def by (simp add: mem_keyspace_def fj_upd_def fj_def)
qed

lemma sample_net_fits: "answers_fit sample_net"
proof -
  have "length bytes < usize_max" if "client_read_chunk (fst (stocked_peer slot shard)) (snd (stocked_peer slot shard)) b ci True = Ok bytes"
    "length shard < usize_max" for slot shard b ci bytes
    using that by (auto simp: stocked_peer_def Let_def client_read_chunk_local sample_svc_def res_simps file_chunk_store_def
        file_read_chunk_def empty_fs_def split: option.splits if_splits)
  note small = this
  show ?thesis
    unfolding answers_fit_def
  proof (intro allI impI)
    fix endpoint rpc s b ci bytes
    assume "sample_net endpoint = Some (rpc, s)" and r: "client_read_chunk rpc s b ci True = Ok bytes"
    then have "stocked_peer 2 [3, 4] = (rpc, s) \<or> stocked_peer 3 [7, 7] = (rpc, s)"
      by (auto simp: sample_net_def split: if_splits)
    then show "length bytes < usize_max"
      using small [of 2 "[3, 4]" b ci bytes] small [of 3 "[7, 7]" b ci bytes] r by (auto simp: usize_max_def)
  qed
qed

theorem reconstruct_all_or_nothing_witness:
  "\<exists>st' r. reconstruct_from_survivors isal_ref sum_digest (fjall_meta_store mem_keyspace mem_postcard)
      (file_chunk_store io_norename 7 ''/d'') sample_net 3 \<lparr>dn_meta = mem_empty, dn_chunks = empty_fs\<rparr> sample_reconstruct = Some (st', r) \<and>
     (case r of
        Ok [] \<Rightarrow> no_trace (fj_abs mem_postcard (mem_kv (dn_meta st'))) (file_view ''/d'' (dn_chunks st')) 1
      | Ok (_ # _) \<Rightarrow> \<exists>info i. mv_containers (fj_abs mem_postcard (mem_kv (dn_meta st'))) 1 = Some (info, i) \<and> cinfo_state info = Closed
      | Err e \<Rightarrow> no_trace (fj_abs mem_postcard (mem_kv (dn_meta st'))) (file_view ''/d'' (dn_chunks st')) 1 \<or>
          live (fj_abs mem_postcard (mem_kv (dn_meta st'))) 1 \<and>
          (\<exists>e' m. e = RepairStorage e' \<and> backend_error e' \<and> snd (fjall_set_container_state mem_keyspace mem_postcard m 1 Closed) = Err e')
      | Panic \<Rightarrow> False)"
proof -
  let ?st = "\<lparr>dn_meta = mem_empty, dn_chunks = empty_fs\<rparr>"
  obtain st' r where run: "reconstruct_from_survivors isal_ref sum_digest (fjall_meta_store mem_keyspace mem_postcard)
      (file_chunk_store io_norename 7 ''/d'') sample_net 3 ?st sample_reconstruct = Some (st', r)"
    by (rule sample_run)
  have wf: "fj_wf mem_postcard (mem_kv (dn_meta ?st))" using mem_empty_wf by simp
  have gn: "no_trace (fj_abs mem_postcard (mem_kv (dn_meta ?st))) (file_view ''/d'' (dn_chunks ?st)) (rx_container sample_reconstruct)"
    by (simp add: no_trace_def committed_def fj_abs_def mem_kv_def mem_empty_def file_view_def empty_fs_def)
  have pf: "profile_ok (repair_profile (rx_ec sample_reconstruct))" by (simp add: ec_2_1_profile rs_2_1_ok(1))
  have rm: "io_fail io_norename (RemoveDir p) = None" for p by (simp add: io_norename_def io_ok_def)
  have c: "rx_container sample_reconstruct = 1" by (simp add: sample_reconstruct_def)
  show ?thesis
    using reconstruct_all_or_nothing [OF isal_ref_contract pf sample_net_fits mem.fjall_contract_axioms, of ?st, OF wf gn _ rm run, unfolded c] run
    by (intro exI [of _ st'] exI [of _ r] conjI) (simp_all add: mem_delete_ok)
qed

end
