(* ===== verification/Om_Client.thy ===== *)
theory Om_Client
  imports Wire_Conv Dn_Server
begin

text \<open>
  \<open>crates/ozone-om-client/src/compliant.rs\<close>: the gateway's client of the Ozone Manager. The messages
  of \<open>OmClientProtocol.proto\<close> and \<open>hdds.proto\<close> carry the fields the client sets or reads. A request
  or response has at most one typed body, as the client sends and the manager answers. The channel
  is a function that takes the manager's state and a request to its new state and the answer, so a
  manager may fail, lie or change its mind at every call.
\<close>

type_synonym i64 = "64 word"

text \<open>\<open>{:02x}\<close> of each byte in turn.\<close>

definition hex_digit :: "nat \<Rightarrow> char" where
  "hex_digit d = char_of (if d < 10 then 48 + d else 87 + d)"

definition hex_byte :: "u8 \<Rightarrow> string" where
  "hex_byte b = [hex_digit (unat b div 16), hex_digit (unat b mod 16)]"

definition hex :: "bytes \<Rightarrow> string" where
  "hex bs = concat (map hex_byte bs)"

section \<open>Messages\<close>

record ec_proto =
  ep_data :: i32
  ep_parity :: i32
  ep_codec :: string
  ep_chunk_size :: i32

record om_port =
  port_name :: string
  port_value :: u32

record datanode_details =
  dd_ip_address :: string
  dd_ports :: "om_port list"

record om_pipeline =
  pl_members :: "datanode_details list"
  pl_member_replica_indexes :: "u32 list"
  pl_ec :: "ec_proto option"

record key_location =
  kl_container_id :: i64
  kl_local_id :: i64
  kl_offset :: u64
  kl_length :: u64
  kl_pipeline :: "om_pipeline option"

type_synonym key_value = "string \<times> string option"

record key_info =
  ki_volume :: string
  ki_bucket :: string
  ki_key :: string
  ki_data_size :: u64
  ki_key_location_list :: "key_location list list"
  ki_modification_time :: u64
  ki_metadata :: "key_value list"
  ki_ec :: "ec_proto option"

record key_args =
  ka_volume :: string
  ka_bucket :: string
  ka_key :: string
  ka_data_size :: "u64 option"
  ka_ec :: "ec_proto option"
  ka_key_locations :: "key_location list"
  ka_is_multipart_key :: "bool option"
  ka_multipart_upload_id :: "string option"
  ka_multipart_number :: "u32 option"
  ka_metadata :: "key_value list"
  ka_tags :: "key_value list"

definition key_args_of :: "string \<Rightarrow> string \<Rightarrow> string \<Rightarrow> key_args" where
  "key_args_of v b k =
     \<lparr>ka_volume = v, ka_bucket = b, ka_key = k, ka_data_size = None, ka_ec = None, ka_key_locations = [],
      ka_is_multipart_key = None, ka_multipart_upload_id = None, ka_multipart_number = None,
      ka_metadata = [], ka_tags = []\<rparr>"

record om_part =
  pt_part_number :: u32
  pt_part_name :: string
  pt_e_tag :: "string option"

record part_info =
  pi_part_number :: u32
  pi_part_name :: string
  pi_size :: u64
  pi_e_tag :: "string option"

record upload_info =
  ui_volume :: string
  ui_bucket :: string
  ui_key :: string
  ui_upload_id :: string

datatype om_type =
    CreateBucket | InfoBucket | DeleteBucket | ListBuckets
  | CreateKey | AllocateBlock | CommitKey | GetKeyInfo | DeleteKey | ListKeys
  | InitiateMultiPartUpload | CommitMultiPartUpload | CompleteMultiPartUpload | AbortMultiPartUpload
  | ListMultiPartUploadParts | ListMultipartUploads
  | PutObjectTagging | GetObjectTagging | DeleteObjectTagging
  | OtherType i32

datatype om_sub_request =
    CreateBucketRequest string string
  | InfoBucketRequest string string
  | DeleteBucketRequest string string
  | ListBucketsRequest string "i32 option"
  | CreateKeyRequest key_args
  | AllocateBlockRequest key_args u64
  | CommitKeyRequest key_args u64
  | GetKeyInfoRequest key_args
  | DeleteKeyRequest key_args
  | ListKeysRequest string string "string option" "string option" "i32 option"
  | InitiateMultiPartUploadRequest key_args
  | CommitMultiPartUploadRequest key_args u64
  | CompleteMultiPartUploadRequest key_args "om_part list"
  | AbortMultiPartUploadRequest key_args
  | ListMultipartUploadPartsRequest string string string string "u32 option"
  | ListMultipartUploadsRequest string string string
  | PutObjectTaggingRequest key_args
  | GetObjectTaggingRequest key_args
  | DeleteObjectTaggingRequest key_args

datatype om_sub_response =
    CreateBucketResponse
  | InfoBucketResponse string string
  | DeleteBucketResponse
  | ListBucketsResponse "(string \<times> string) list"
  | CreateKeyResponse "key_info option" "u64 option"
  | AllocateBlockResponse "key_location option"
  | CommitKeyResponse
  | GetKeyInfoResponse "key_info option"
  | DeleteKeyResponse
  | ListKeysResponse "key_info list" bool
  | InitiateMultiPartUploadResponse string
  | CommitMultiPartUploadResponse "string option" "string option"
  | CompleteMultiPartUploadResponse "string option"
  | AbortMultiPartUploadResponse
  | ListMultipartUploadPartsResponse "part_info list"
  | ListMultipartUploadsResponse "upload_info list"
  | PutObjectTaggingResponse
  | GetObjectTaggingResponse "key_value list"
  | DeleteObjectTaggingResponse

record om_request =
  rq_cmd_type :: om_type
  rq_client_id :: string
  rq_version :: "u32 option"
  rq_access_id :: "string option"
  rq_sub :: "om_sub_request option"

record om_response =
  rs_cmd_type :: om_type
  rs_status :: i32
  rs_success :: "bool option"
  rs_message :: "string option"
  rs_sub :: "om_sub_response option"

text \<open>
  An enum field travels as its number, so a status is any 32-bit number. These are the values of Status
  that the client or the manager names; the client treats every other number alike.
\<close>

type_synonym om_status = i32

definition St_Ok :: om_status where
  "St_Ok = 1"

definition St_BucketNotFound :: om_status where
  "St_BucketNotFound = 8"

definition St_KeyNotFound :: om_status where
  "St_KeyNotFound = 12"

definition St_NoSuchMultipartUploadError :: om_status where
  "St_NoSuchMultipartUploadError = 26"

definition St_EntityTooSmall :: om_status where
  "St_EntityTooSmall = 30"

definition St_InvalidRequest :: om_status where
  "St_InvalidRequest = 39"

definition St_InvalidPart :: om_status where
  "St_InvalidPart = 55"

definition St_InvalidPartOrder :: om_status where
  "St_InvalidPartOrder = 56"

lemmas om_status_simps [simp] =
  St_Ok_def St_BucketNotFound_def St_KeyNotFound_def St_NoSuchMultipartUploadError_def St_EntityTooSmall_def St_InvalidRequest_def St_InvalidPart_def St_InvalidPartOrder_def

section \<open>Domain values\<close>

record datanode_slot =
  ds_replica_index :: u8
  ds_endpoint :: string

record block_location =
  bl_container_id :: u64
  bl_local_id :: u64
  bl_offset :: u64
  bl_length :: u64
  bl_ec :: ec_replication_config
  bl_members :: "datanode_slot list"

record open_key =
  ok_client_id :: u64
  ok_blocks :: "block_location list"

record key_meta =
  km_size :: u64
  km_etag :: "string option"
  km_metadata :: "(string \<times> string) list"
  km_modification_time :: u64
  km_blocks :: "block_location list"

record key_listing =
  kg_key :: string
  kg_size :: u64
  kg_etag :: "string option"

record part_listing =
  pg_part_number :: u32
  pg_etag :: "string option"
  pg_size :: u64

record upload_listing =
  ug_key :: string
  ug_upload_id :: string

datatype om_error =
    OmRpc status
  | OmNotFound
  | OmBucketNotFound
  | OmNoSuchUpload
  | OmInvalidPart
  | OmInvalidPartOrder
  | OmEntityTooSmall
  | OmStatus i32 string
  | OmMissing string

section \<open>Conversions\<close>

definition u8_of_i32 :: "i32 \<Rightarrow> u8 option" where
  "u8_of_i32 w = (if 0 \<le> sint w \<and> sint w < 256 then Some (ucast w) else None)"

definition u32_of_i32 :: "i32 \<Rightarrow> u32 option" where
  "u32_of_i32 w = (if 0 \<le> sint w then Some w else None)"

definition u64_of_i64 :: "i64 \<Rightarrow> u64 option" where
  "u64_of_i64 w = (if 0 \<le> sint w then Some w else None)"

definition ec_config_from_proto :: "ec_proto \<Rightarrow> (om_error, ec_replication_config) result" where
  "ec_config_from_proto e =
     rbind (map_err (\<lambda>_. OmMissing ''ec.codec'') (ec_codec_from_str (ep_codec e))) (\<lambda>codec.
     rbind (ok_or (u8_of_i32 (ep_data e)) (OmMissing ''ec.data'')) (\<lambda>data.
     rbind (ok_or (u8_of_i32 (ep_parity e)) (OmMissing ''ec.parity'')) (\<lambda>parity.
     rbind (ok_or (u32_of_i32 (ep_chunk_size e)) (OmMissing ''ec.chunkSize'')) (\<lambda>chunk.
     Ok \<lparr>ec_data = data, ec_parity = parity, ec_chunk_size = chunk, ec_codec = codec\<rparr>))))"

definition REPLICATION_PORT_NAME :: string where
  "REPLICATION_PORT_NAME = ''REPLICATION''"

definition member_slot :: "datanode_details \<times> u32 \<Rightarrow> (om_error, datanode_slot) result" where
  "member_slot m =
     (case m of (dd, idx) \<Rightarrow>
      rbind (ok_or (u8_try_from idx) (OmMissing ''replica_index'')) (\<lambda>ri.
      rbind (ok_or (find (\<lambda>p. port_name p = REPLICATION_PORT_NAME) (dd_ports dd)) (OmMissing ''REPLICATION port'')) (\<lambda>port.
      Ok \<lparr>ds_replica_index = ri,
          ds_endpoint = ''http://'' @ dd_ip_address dd @ '':'' @ nat_to_dec (unat (port_value port))\<rparr>)))"

definition key_location_to_block :: "key_location \<Rightarrow> (om_error, block_location) result" where
  "key_location_to_block loc =
     rbind (ok_or (u64_of_i64 (kl_container_id loc)) (OmMissing ''container_id'')) (\<lambda>c.
     rbind (ok_or (u64_of_i64 (kl_local_id loc)) (OmMissing ''local_id'')) (\<lambda>l.
     rbind (ok_or (kl_pipeline loc) (OmMissing ''pipeline'')) (\<lambda>pipeline.
     rbind (ok_or (pl_ec pipeline) (OmMissing ''pipeline.ec'')) (\<lambda>ep.
     rbind (ec_config_from_proto ep) (\<lambda>ec.
     if length (pl_members pipeline) \<noteq> length (pl_member_replica_indexes pipeline)
     then Err (OmMissing ''pipeline.member_replica_indexes'')
     else
       rbind (rmap_list member_slot (zip (pl_members pipeline) (pl_member_replica_indexes pipeline))) (\<lambda>members.
       Ok \<lparr>bl_container_id = c, bl_local_id = l, bl_offset = kl_offset loc, bl_length = kl_length loc,
           bl_ec = ec, bl_members = members\<rparr>))))))"

definition block_to_key_location :: "block_location \<Rightarrow> key_location" where
  "block_to_key_location b =
     \<lparr>kl_container_id = bl_container_id b, kl_local_id = bl_local_id b, kl_offset = bl_offset b,
      kl_length = bl_length b, kl_pipeline = None\<rparr>"

definition blocks_of_key_info :: "key_info \<Rightarrow> (om_error, block_location list) result" where
  "blocks_of_key_info ki =
     (case ki_key_location_list ki of
        [] \<Rightarrow> Ok []
      | ls \<Rightarrow> rmap_list key_location_to_block (last ls))"

section \<open>The client\<close>

record 'o om_client =
  oc_submit :: "'o \<Rightarrow> om_request \<Rightarrow> 'o \<times> (status, om_response) result"
  oc_client_id :: string
  oc_principal :: string

definition om_envelope :: "'o om_client \<Rightarrow> om_type \<Rightarrow> om_sub_request \<Rightarrow> om_request" where
  "om_envelope cl ty sub =
     \<lparr>rq_cmd_type = ty, rq_client_id = oc_client_id cl, rq_version = Some 1,
      rq_access_id = Some (oc_principal cl), rq_sub = Some sub\<rparr>"

definition om_check :: "om_response \<Rightarrow> (om_error, om_response) result" where
  "om_check resp =
     (let s = rs_status resp in
      if s = St_Ok then Ok resp
      else if s = St_KeyNotFound then Err OmNotFound
      else if s = St_BucketNotFound then Err OmBucketNotFound
      else if s = St_NoSuchMultipartUploadError then Err OmNoSuchUpload
      else if s = St_InvalidPart then Err OmInvalidPart
      else if s = St_InvalidPartOrder then Err OmInvalidPartOrder
      else if s = St_EntityTooSmall then Err OmEntityTooSmall
      else Err (OmStatus s (case rs_message resp of Some m \<Rightarrow> m | None \<Rightarrow> [])))"

text \<open>A handler that panics drops its connection; the caller sees a transport status.\<close>

definition om_transport :: "(status, om_response) result \<Rightarrow> (status, om_response) result" where
  "om_transport r = (if r = Panic then Err \<lparr>status_code = Unknown, status_text = Text ''transport error''\<rparr> else r)"

definition om_call :: "'o om_client \<Rightarrow> 'o \<Rightarrow> om_type \<Rightarrow> om_sub_request \<Rightarrow> 'o \<times> (om_error, om_response) result" where
  "om_call cl o' ty sub =
     (case oc_submit cl o' (om_envelope cl ty sub) of (o1, r) \<Rightarrow> (o1, rbind (map_err OmRpc (om_transport r)) om_check))"

definition om_head_bucket :: "'o om_client \<Rightarrow> 'o \<Rightarrow> string \<Rightarrow> string \<Rightarrow> 'o \<times> (om_error, bool) result" where
  "om_head_bucket cl o' v b =
     (case om_call cl o' InfoBucket (InfoBucketRequest v b) of
        (o1, Ok _) \<Rightarrow> (o1, Ok True)
      | (o1, Err OmBucketNotFound) \<Rightarrow> (o1, Ok False)
      | (o1, Err e) \<Rightarrow> (o1, Err e)
      | (o1, Panic) \<Rightarrow> (o1, Panic))"

definition om_create_bucket :: "'o om_client \<Rightarrow> 'o \<Rightarrow> string \<Rightarrow> string \<Rightarrow> 'o \<times> (om_error, unit) result" where
  "om_create_bucket cl o' v b =
     try_upd (om_call cl o' CreateBucket (CreateBucketRequest v b)) (\<lambda>o1 _. (o1, Ok ()))"

definition om_delete_bucket :: "'o om_client \<Rightarrow> 'o \<Rightarrow> string \<Rightarrow> string \<Rightarrow> 'o \<times> (om_error, unit) result" where
  "om_delete_bucket cl o' v b =
     try_upd (om_call cl o' DeleteBucket (DeleteBucketRequest v b)) (\<lambda>o1 _. (o1, Ok ()))"

definition om_list_buckets :: "'o om_client \<Rightarrow> 'o \<Rightarrow> string \<Rightarrow> 'o \<times> (om_error, string list) result" where
  "om_list_buckets cl o' v =
     try_upd (om_call cl o' ListBuckets (ListBucketsRequest v (Some 1024))) (\<lambda>o1 resp.
     (o1, case rs_sub resp of
            Some (ListBucketsResponse infos) \<Rightarrow> Ok (map snd infos)
          | _ \<Rightarrow> Err (OmMissing ''list_buckets_response'')))"

definition ec_to_proto :: "ec_replication_config \<Rightarrow> ec_proto" where
  "ec_to_proto ec =
     \<lparr>ep_data = ucast (ec_data ec), ep_parity = ucast (ec_parity ec), ep_codec = ec_codec_to_string (ec_codec ec),
      ep_chunk_size = ec_chunk_size ec\<rparr>"

definition open_key_of :: "om_response \<Rightarrow> (om_error, open_key) result" where
  "open_key_of resp =
     (case rs_sub resp of
        Some (CreateKeyResponse info cid) \<Rightarrow>
          rbind (ok_or cid (OmMissing ''create_key_response.id'')) (\<lambda>client_id.
          rbind (ok_or info (OmMissing ''create_key_response.key_info'')) (\<lambda>ki.
          rbind (blocks_of_key_info ki) (\<lambda>blocks.
          Ok \<lparr>ok_client_id = client_id, ok_blocks = blocks\<rparr>)))
      | _ \<Rightarrow> Err (OmMissing ''create_key_response''))"

definition om_create_key ::
    "'o om_client \<Rightarrow> 'o \<Rightarrow> string \<Rightarrow> string \<Rightarrow> string \<Rightarrow> ec_replication_config option \<Rightarrow> u64 \<Rightarrow> 'o \<times> (om_error, open_key) result" where
  "om_create_key cl o' v b k ec len =
     (let args = (key_args_of v b k)\<lparr>ka_data_size := Some len, ka_ec := map_option ec_to_proto ec\<rparr> in
      try_upd (om_call cl o' CreateKey (CreateKeyRequest args)) (\<lambda>o1 resp. (o1, open_key_of resp)))"

definition om_allocate_block ::
    "'o om_client \<Rightarrow> 'o \<Rightarrow> string \<Rightarrow> string \<Rightarrow> string \<Rightarrow> u64 \<Rightarrow> 'o \<times> (om_error, block_location) result" where
  "om_allocate_block cl o' v b k client_id =
     try_upd (om_call cl o' AllocateBlock (AllocateBlockRequest (key_args_of v b k) client_id)) (\<lambda>o1 resp.
     (o1, case rs_sub resp of
            Some (AllocateBlockResponse (Some loc)) \<Rightarrow> key_location_to_block loc
          | _ \<Rightarrow> Err (OmMissing ''allocate_block_response.key_location'')))"

definition om_commit_key ::
    "'o om_client \<Rightarrow> 'o \<Rightarrow> string \<Rightarrow> string \<Rightarrow> string \<Rightarrow> u64 \<Rightarrow> block_location list \<Rightarrow> u64 \<Rightarrow> string option
       \<Rightarrow> (string \<times> string) list \<Rightarrow> 'o \<times> (om_error, unit) result" where
  "om_commit_key cl o' v b k client_id blocks len etag metadata =
     (let md = map (\<lambda>(k, v). (k, Some v)) metadata @ (case etag of Some e \<Rightarrow> [(''ETAG'', Some e)] | None \<Rightarrow> []);
          args = (key_args_of v b k)\<lparr>ka_data_size := Some len,
                   ka_key_locations := map block_to_key_location blocks, ka_metadata := md\<rparr> in
      try_upd (om_call cl o' CommitKey (CommitKeyRequest args client_id)) (\<lambda>o1 _. (o1, Ok ())))"

definition key_meta_of :: "key_info \<Rightarrow> (om_error, key_meta) result" where
  "key_meta_of ki =
     (let metadata = map (\<lambda>(k, v). (k, case v of Some s \<Rightarrow> s | None \<Rightarrow> [])) (ki_metadata ki);
          etag = map_option snd (find (\<lambda>(k, _). k = ''ETAG'') metadata) in
      rbind (blocks_of_key_info ki) (\<lambda>blocks.
      Ok \<lparr>km_size = ki_data_size ki, km_etag = etag, km_metadata = metadata,
          km_modification_time = ki_modification_time ki, km_blocks = blocks\<rparr>))"

definition om_get_key_info ::
    "'o om_client \<Rightarrow> 'o \<Rightarrow> string \<Rightarrow> string \<Rightarrow> string \<Rightarrow> 'o \<times> (om_error, key_meta) result" where
  "om_get_key_info cl o' v b k =
     try_upd (om_call cl o' GetKeyInfo (GetKeyInfoRequest (key_args_of v b k))) (\<lambda>o1 resp.
     (o1, case rs_sub resp of
            Some (GetKeyInfoResponse (Some ki)) \<Rightarrow> key_meta_of ki
          | _ \<Rightarrow> Err (OmMissing ''get_key_info_response.key_info'')))"

definition om_delete_key :: "'o om_client \<Rightarrow> 'o \<Rightarrow> string \<Rightarrow> string \<Rightarrow> string \<Rightarrow> 'o \<times> (om_error, unit) result" where
  "om_delete_key cl o' v b k =
     try_upd (om_call cl o' DeleteKey (DeleteKeyRequest (key_args_of v b k))) (\<lambda>o1 _. (o1, Ok ()))"

definition om_initiate_multipart ::
    "'o om_client \<Rightarrow> 'o \<Rightarrow> string \<Rightarrow> string \<Rightarrow> string \<Rightarrow> 'o \<times> (om_error, string) result" where
  "om_initiate_multipart cl o' v b k =
     try_upd (om_call cl o' InitiateMultiPartUpload (InitiateMultiPartUploadRequest (key_args_of v b k))) (\<lambda>o1 resp.
     (o1, case rs_sub resp of
            Some (InitiateMultiPartUploadResponse uid) \<Rightarrow> Ok uid
          | _ \<Rightarrow> Err (OmMissing ''initiate_multi_part_upload_response'')))"

definition om_create_multipart_part_key ::
    "'o om_client \<Rightarrow> 'o \<Rightarrow> string \<Rightarrow> string \<Rightarrow> string \<Rightarrow> string \<Rightarrow> u32 \<Rightarrow> ec_replication_config option \<Rightarrow> u64
       \<Rightarrow> 'o \<times> (om_error, open_key) result" where
  "om_create_multipart_part_key cl o' v b k uid part_number ec len =
     (let args = (key_args_of v b k)\<lparr>ka_data_size := Some len, ka_is_multipart_key := Some True,
                   ka_multipart_upload_id := Some uid, ka_multipart_number := Some part_number,
                   ka_ec := map_option ec_to_proto ec\<rparr> in
      try_upd (om_call cl o' CreateKey (CreateKeyRequest args)) (\<lambda>o1 resp. (o1, open_key_of resp)))"

definition om_commit_part ::
    "'o om_client \<Rightarrow> 'o \<Rightarrow> string \<Rightarrow> string \<Rightarrow> string \<Rightarrow> string \<Rightarrow> u32 \<Rightarrow> u64 \<Rightarrow> block_location list \<Rightarrow> u64 \<Rightarrow> string
       \<Rightarrow> 'o \<times> (om_error, string) result" where
  "om_commit_part cl o' v b k uid part_number client_id blocks len etag_hex =
     (let args = (key_args_of v b k)\<lparr>ka_data_size := Some len,
                   ka_key_locations := map block_to_key_location blocks, ka_is_multipart_key := Some True,
                   ka_multipart_upload_id := Some uid, ka_multipart_number := Some part_number,
                   ka_metadata := [(''ETAG'', Some etag_hex)]\<rparr> in
      try_upd (om_call cl o' CommitMultiPartUpload (CommitMultiPartUploadRequest args client_id)) (\<lambda>o1 resp.
      (o1, case rs_sub resp of
             Some (CommitMultiPartUploadResponse name _) \<Rightarrow>
               ok_or name (OmMissing ''commit_multi_part_upload_response.part_name'')
           | _ \<Rightarrow> Err (OmMissing ''commit_multi_part_upload_response''))))"

definition om_complete_multipart ::
    "'o om_client \<Rightarrow> 'o \<Rightarrow> string \<Rightarrow> string \<Rightarrow> string \<Rightarrow> string \<Rightarrow> (u32 \<times> string \<times> string) list
       \<Rightarrow> 'o \<times> (om_error, string \<times> u64) result" where
  "om_complete_multipart cl o' v b k uid parts =
     (let parts_list = map (\<lambda>(pn, name, etag). \<lparr>pt_part_number = pn, pt_part_name = name, pt_e_tag = Some etag\<rparr>) parts;
          args = (key_args_of v b k)\<lparr>ka_is_multipart_key := Some True, ka_multipart_upload_id := Some uid\<rparr> in
      try_upd (om_call cl o' CompleteMultiPartUpload (CompleteMultiPartUploadRequest args parts_list)) (\<lambda>o1 resp.
      try_st o1 (case rs_sub resp of
          Some (CompleteMultiPartUploadResponse h) \<Rightarrow> ok_or h (OmMissing ''complete_multi_part_upload_response.hash'')
        | _ \<Rightarrow> Err (OmMissing ''complete_multi_part_upload_response'')) (\<lambda>etag.
      try_upd (om_get_key_info cl o1 v b k) (\<lambda>o2 meta. (o2, Ok (etag, km_size meta))))))"

definition om_abort_multipart ::
    "'o om_client \<Rightarrow> 'o \<Rightarrow> string \<Rightarrow> string \<Rightarrow> string \<Rightarrow> string \<Rightarrow> 'o \<times> (om_error, unit) result" where
  "om_abort_multipart cl o' v b k uid =
     try_upd (om_call cl o' AbortMultiPartUpload
       (AbortMultiPartUploadRequest ((key_args_of v b k)\<lparr>ka_multipart_upload_id := Some uid\<rparr>))) (\<lambda>o1 _. (o1, Ok ()))"

definition om_list_parts ::
    "'o om_client \<Rightarrow> 'o \<Rightarrow> string \<Rightarrow> string \<Rightarrow> string \<Rightarrow> string \<Rightarrow> u32 \<Rightarrow> 'o \<times> (om_error, part_listing list) result" where
  "om_list_parts cl o' v b k uid marker =
     try_upd (om_call cl o' ListMultiPartUploadParts (ListMultipartUploadPartsRequest v b k uid (Some marker))) (\<lambda>o1 resp.
     (o1, case rs_sub resp of
            Some (ListMultipartUploadPartsResponse parts) \<Rightarrow>
              Ok (map (\<lambda>p. \<lparr>pg_part_number = pi_part_number p, pg_etag = pi_e_tag p, pg_size = pi_size p\<rparr>) parts)
          | _ \<Rightarrow> Err (OmMissing ''list_multipart_upload_parts_response'')))"

definition om_list_multipart_uploads ::
    "'o om_client \<Rightarrow> 'o \<Rightarrow> string \<Rightarrow> string \<Rightarrow> string \<Rightarrow> 'o \<times> (om_error, upload_listing list) result" where
  "om_list_multipart_uploads cl o' v b pre =
     try_upd (om_call cl o' ListMultipartUploads (ListMultipartUploadsRequest v b pre)) (\<lambda>o1 resp.
     (o1, case rs_sub resp of
            Some (ListMultipartUploadsResponse uploads) \<Rightarrow>
              Ok (map (\<lambda>u. \<lparr>ug_key = ui_key u, ug_upload_id = ui_upload_id u\<rparr>) uploads)
          | _ \<Rightarrow> Err (OmMissing ''list_multipart_uploads_response'')))"

definition key_listing_of :: "key_info \<Rightarrow> key_listing" where
  "key_listing_of ki =
     \<lparr>kg_key = ki_key ki, kg_size = ki_data_size ki,
      kg_etag = Option.bind (find (\<lambda>kv. fst kv = ''ETAG'') (ki_metadata ki)) snd\<rparr>"

definition om_list_keys ::
    "'o om_client \<Rightarrow> 'o \<Rightarrow> string \<Rightarrow> string \<Rightarrow> string \<Rightarrow> string \<Rightarrow> i32 \<Rightarrow> 'o \<times> (om_error, key_listing list) result" where
  "om_list_keys cl o' v b pre start_after limit =
     try_upd (om_call cl o' ListKeys (ListKeysRequest v b (Some start_after) (Some pre) (Some limit))) (\<lambda>o1 resp.
     (o1, case rs_sub resp of
            Some (ListKeysResponse infos _) \<Rightarrow> Ok (map key_listing_of infos)
          | _ \<Rightarrow> Err (OmMissing ''list_keys_response'')))"

definition om_get_object_tagging ::
    "'o om_client \<Rightarrow> 'o \<Rightarrow> string \<Rightarrow> string \<Rightarrow> string \<Rightarrow> 'o \<times> (om_error, (string \<times> string) list) result" where
  "om_get_object_tagging cl o' v b k =
     try_upd (om_call cl o' GetObjectTagging (GetObjectTaggingRequest (key_args_of v b k))) (\<lambda>o1 resp.
     (o1, case rs_sub resp of
            Some (GetObjectTaggingResponse tags) \<Rightarrow> Ok (map (\<lambda>(k, v). (k, case v of Some s \<Rightarrow> s | None \<Rightarrow> [])) tags)
          | _ \<Rightarrow> Err (OmMissing ''get_object_tagging_response'')))"

definition om_put_object_tagging ::
    "'o om_client \<Rightarrow> 'o \<Rightarrow> string \<Rightarrow> string \<Rightarrow> string \<Rightarrow> (string \<times> string) list \<Rightarrow> 'o \<times> (om_error, unit) result" where
  "om_put_object_tagging cl o' v b k tags =
     try_upd (om_call cl o' PutObjectTagging
       (PutObjectTaggingRequest ((key_args_of v b k)\<lparr>ka_tags := map (\<lambda>(k, v). (k, Some v)) tags\<rparr>))) (\<lambda>o1 _. (o1, Ok ()))"

end
