(* ===== verification/Om_Fixture.thy ===== *)
theory Om_Fixture
  imports Om_Client "HOL-Library.Sublist" "HOL-Library.Product_Lexorder" "HOL-Library.List_Lexorder" "HOL-Library.Char_ord"
begin

text \<open>
  \<open>crates/test-fixtures/src/compliant_om.rs\<close>: the in-memory Ozone Manager the repository tests its
  gateway against. Its hash maps are kept sorted by key: every answer that depends on their order is
  sorted by the code. The MD5 digest is a parameter. The record of the requests received is left
  out; nothing reads it but tests.

  The fixture only ever runs under the test profile, where an arithmetic overflow panics: the
  counters are checked.
\<close>

definition FIXTURE_OBJECT_TIME_MS :: u64 where
  "FIXTURE_OBJECT_TIME_MS = 1609459200000"

definition ETAG_METADATA_KEY :: string where
  "ETAG_METADATA_KEY = ''ETAG''"

definition FIXTURE_TAG_META_PREFIX :: string where
  "FIXTURE_TAG_META_PREFIX = ''x-amz-tag-''"

definition MIN_PART_SIZE :: u64 where
  "MIN_PART_SIZE = 5 * 1024 * 1024"

definition FIXTURE_MAX_PART_NUMBER :: u32 where
  "FIXTURE_MAX_PART_NUMBER = 10000"

definition DEFAULT_LIST_KEYS_LIMIT :: nat where
  "DEFAULT_LIST_KEYS_LIMIT = 1000"

record stored_part =
  sp_locations :: "key_location list"
  sp_size :: u64
  sp_etag_hex :: string

type_synonym vbk = "string \<times> string \<times> string"

record stored_upload =
  su_vbk :: vbk
  su_parts :: "(u32, stored_part) btree_map"

fun hex_decode_pairs :: "string \<Rightarrow> bytes option" where
  "hex_decode_pairs (a # b # s) =
     (case to_digit 16 a of
        None \<Rightarrow> None
      | Some hi \<Rightarrow>
          (case to_digit 16 b of
             None \<Rightarrow> None
           | Some lo \<Rightarrow> map_option ((#) (of_nat (hi * 16 + lo))) (hex_decode_pairs s)))"
| "hex_decode_pairs _ = Some []"

definition hex_decode :: "string \<Rightarrow> bytes option" where
  "hex_decode s = (if length s mod 2 \<noteq> 0 then None else hex_decode_pairs s)"

record om_config =
  cp_datanodes :: "datanode_details list"
  cp_ec :: ec_proto

record om_state =
  om_buckets :: "(string \<times> string) list"
  om_keys :: "(vbk, key_info) btree_map"
  om_next_local_id :: i64
  om_next_client_id :: u64
  om_next_container_id :: i64
  om_uploads :: "(string, stored_upload) btree_map"
  om_next_upload_id :: u64

definition om_state_new :: om_state where
  "om_state_new =
     \<lparr>om_buckets = [], om_keys = [], om_next_local_id = 1, om_next_client_id = 1, om_next_container_id = 1,
      om_uploads = [], om_next_upload_id = 1\<rparr>"

definition pipeline_message :: "om_config \<Rightarrow> om_pipeline" where
  "pipeline_message cfg =
     \<lparr>pl_members = cp_datanodes cfg,
      pl_member_replica_indexes = map of_nat [1..<Suc (length (cp_datanodes cfg))],
      pl_ec = Some (cp_ec cfg)\<rparr>"

definition inc_i64 :: "i64 \<Rightarrow> ('e, i64) result" where
  "inc_i64 w = (if sint w = 2 ^ 63 - 1 then Panic else Ok (w + 1))"

definition inc_u64 :: "u64 \<Rightarrow> ('e, u64) result" where
  "inc_u64 w = (if w = - 1 then Panic else Ok (w + 1))"

definition alloc_block :: "om_config \<Rightarrow> om_state \<Rightarrow> i64 \<Rightarrow> om_state \<times> ('e, key_location) result" where
  "alloc_block cfg st c =
     (let l = om_next_local_id st in
      try_st st (inc_i64 l) (\<lambda>l'.
      (st\<lparr>om_next_local_id := l'\<rparr>,
       Ok \<lparr>kl_container_id = c, kl_local_id = l, kl_offset = 0, kl_length = 0,
           kl_pipeline = Some (pipeline_message cfg)\<rparr>)))"

definition ok_response :: "om_type \<Rightarrow> om_sub_response \<Rightarrow> om_response" where
  "ok_response ty sub =
     \<lparr>rs_cmd_type = ty, rs_status = St_Ok, rs_success = Some True, rs_message = None, rs_sub = Some sub\<rparr>"

definition err_response :: "om_type \<Rightarrow> om_status \<Rightarrow> string \<Rightarrow> om_response" where
  "err_response ty s msg =
     \<lparr>rs_cmd_type = ty, rs_status = s, rs_success = Some False, rs_message = Some msg, rs_sub = None\<rparr>"

definition invalid_argument :: "string \<Rightarrow> status" where
  "invalid_argument what = \<lparr>status_code = InvalidArgument, status_text = Text what\<rparr>"

definition fx_create_bucket :: "om_state \<Rightarrow> string \<Rightarrow> string \<Rightarrow> om_state \<times> om_response" where
  "fx_create_bucket st v b = (st\<lparr>om_buckets := List.insert (v, b) (om_buckets st)\<rparr>, ok_response CreateBucket CreateBucketResponse)"

definition fx_info_bucket :: "om_state \<Rightarrow> string \<Rightarrow> string \<Rightarrow> om_response" where
  "fx_info_bucket st v b =
     (if (v, b) \<in> set (om_buckets st) then ok_response InfoBucket (InfoBucketResponse v b)
      else err_response InfoBucket St_BucketNotFound ''bucket not found'')"

definition fx_delete_bucket :: "om_state \<Rightarrow> string \<Rightarrow> string \<Rightarrow> om_state \<times> om_response" where
  "fx_delete_bucket st v b = (st\<lparr>om_buckets := removeAll (v, b) (om_buckets st)\<rparr>, ok_response DeleteBucket DeleteBucketResponse)"

definition fx_list_buckets :: "om_state \<Rightarrow> string \<Rightarrow> om_response" where
  "fx_list_buckets st v =
     ok_response ListBuckets (ListBucketsResponse (sort_key snd (filter (\<lambda>(v', _). v' = v) (om_buckets st))))"

definition fx_create_key :: "om_config \<Rightarrow> om_state \<Rightarrow> key_args \<Rightarrow> om_state \<times> (status, om_response) result" where
  "fx_create_key cfg st ka =
     (let client_id = om_next_client_id st; c = om_next_container_id st in
      try_st st (inc_u64 client_id) (\<lambda>client_id'.
      let st1 = st\<lparr>om_next_client_id := client_id'\<rparr> in
      try_st st1 (inc_i64 c) (\<lambda>c'.
      let st2 = st1\<lparr>om_next_container_id := c'\<rparr> in
      try_upd (alloc_block cfg st2 c) (\<lambda>st3 location.
      let ki = \<lparr>ki_volume = ka_volume ka, ki_bucket = ka_bucket ka, ki_key = ka_key ka,
                ki_data_size = (case ka_data_size ka of Some n \<Rightarrow> n | None \<Rightarrow> 0),
                ki_key_location_list = [[location]], ki_modification_time = FIXTURE_OBJECT_TIME_MS,
                ki_metadata = [],
                ki_ec = (case ka_ec ka of Some e \<Rightarrow> Some e | None \<Rightarrow> Some (cp_ec cfg))\<rparr> in
      (st3, Ok (ok_response CreateKey (CreateKeyResponse (Some ki) (Some client_id))))))))"

definition fx_allocate_block :: "om_config \<Rightarrow> om_state \<Rightarrow> key_args \<Rightarrow> om_state \<times> (status, om_response) result" where
  "fx_allocate_block cfg st ka =
     (let c = (case ka_key_locations ka of [] \<Rightarrow> 1 | l # _ \<Rightarrow> kl_container_id l) in
      try_upd (alloc_block cfg st c) (\<lambda>st1 location.
      (st1, Ok (ok_response AllocateBlock (AllocateBlockResponse (Some location))))))"

definition attach_pipeline :: "om_config \<Rightarrow> key_location \<Rightarrow> key_location" where
  "attach_pipeline cfg loc = loc\<lparr>kl_pipeline := Some (pipeline_message cfg)\<rparr>"

definition fx_commit_key :: "om_config \<Rightarrow> om_state \<Rightarrow> key_args \<Rightarrow> om_state \<times> om_response" where
  "fx_commit_key cfg st ka =
     (let ki = \<lparr>ki_volume = ka_volume ka, ki_bucket = ka_bucket ka, ki_key = ka_key ka,
                ki_data_size = (case ka_data_size ka of Some n \<Rightarrow> n | None \<Rightarrow> 0),
                ki_key_location_list = [map (attach_pipeline cfg) (ka_key_locations ka)],
                ki_modification_time = FIXTURE_OBJECT_TIME_MS, ki_metadata = ka_metadata ka,
                ki_ec = (case ka_ec ka of Some e \<Rightarrow> Some e | None \<Rightarrow> Some (cp_ec cfg))\<rparr> in
      (st\<lparr>om_keys := btree_insert (ka_volume ka, ka_bucket ka, ka_key ka) ki (om_keys st)\<rparr>,
       ok_response CommitKey CommitKeyResponse))"

definition fx_get_key_info :: "om_state \<Rightarrow> key_args \<Rightarrow> om_response" where
  "fx_get_key_info st ka =
     (case map_of (om_keys st) (ka_volume ka, ka_bucket ka, ka_key ka) of
        Some ki \<Rightarrow> ok_response GetKeyInfo (GetKeyInfoResponse (Some ki))
      | None \<Rightarrow> err_response GetKeyInfo St_KeyNotFound ''key not found'')"

definition fx_delete_key :: "om_state \<Rightarrow> key_args \<Rightarrow> om_state \<times> om_response" where
  "fx_delete_key st ka =
     (st\<lparr>om_keys := btree_remove (ka_volume ka, ka_bucket ka, ka_key ka) (om_keys st)\<rparr>,
      ok_response DeleteKey DeleteKeyResponse)"

section \<open>Multipart uploads\<close>

definition fx_initiate_multipart :: "om_state \<Rightarrow> key_args \<Rightarrow> om_state \<times> (status, om_response) result" where
  "fx_initiate_multipart st ka =
     (let n = om_next_upload_id st in
      try_st st (inc_u64 n) (\<lambda>n'.
      let uid = ''upload-'' @ nat_to_dec (unat n) in
      (st\<lparr>om_next_upload_id := n',
          om_uploads := btree_insert uid \<lparr>su_vbk = (ka_volume ka, ka_bucket ka, ka_key ka), su_parts = []\<rparr> (om_uploads st)\<rparr>,
       Ok (ok_response InitiateMultiPartUpload (InitiateMultiPartUploadResponse uid)))))"

definition fx_commit_part :: "om_state \<Rightarrow> key_args \<Rightarrow> om_state \<times> om_response" where
  "fx_commit_part st ka =
     (let uid = (case ka_multipart_upload_id ka of Some s \<Rightarrow> s | None \<Rightarrow> []);
          pn = (case ka_multipart_number ka of Some n \<Rightarrow> n | None \<Rightarrow> 0) in
      if \<not> (1 \<le> pn \<and> pn \<le> FIXTURE_MAX_PART_NUMBER)
      then (st, err_response CommitMultiPartUpload St_InvalidRequest ''part number out of range (1..=10000)'')
      else
        let etag_hex = (case Option.bind (find (\<lambda>kv. fst kv = ETAG_METADATA_KEY) (ka_metadata ka)) snd of
                          Some s \<Rightarrow> s | None \<Rightarrow> []);
            part_name = ka_key ka @ ''-'' @ uid @ ''-'' @ nat_to_dec (unat pn);
            part = \<lparr>sp_locations = ka_key_locations ka,
                    sp_size = (case ka_data_size ka of Some n \<Rightarrow> n | None \<Rightarrow> 0), sp_etag_hex = etag_hex\<rparr> in
        case map_of (om_uploads st) uid of
          Some upload \<Rightarrow>
            (st\<lparr>om_uploads := btree_insert uid (upload\<lparr>su_parts := btree_insert pn part (su_parts upload)\<rparr>) (om_uploads st)\<rparr>,
             ok_response CommitMultiPartUpload (CommitMultiPartUploadResponse (Some part_name) (Some etag_hex)))
        | None \<Rightarrow> (st, err_response CommitMultiPartUpload St_NoSuchMultipartUploadError ''no such multipart upload''))"

text \<open>The loop over the listed parts: the total size, the locations and the bytes fed to the digest.\<close>

fun complete_parts ::
    "(u32, stored_part) btree_map \<Rightarrow> om_part list \<Rightarrow> u64 \<times> key_location list \<times> bytes
       \<Rightarrow> (om_status \<times> string, u64 \<times> key_location list \<times> bytes) result" where
  "complete_parts parts [] acc = Ok acc"
| "complete_parts parts (p # ps) (len, locs, raw) =
     (case map_of parts (pt_part_number p) of
        None \<Rightarrow> Err (St_InvalidPart, ''part was not uploaded'')
      | Some sp \<Rightarrow>
          if ps \<noteq> [] \<and> sp_size sp < MIN_PART_SIZE
          then Err (St_EntityTooSmall, ''non-last part smaller than 5 MiB'')
          else
            let etag_hex = (case pt_e_tag p of Some s \<Rightarrow> if s \<noteq> [] then s else sp_etag_hex sp | None \<Rightarrow> sp_etag_hex sp);
                digest = (case hex_decode etag_hex of Some bs \<Rightarrow> bs | None \<Rightarrow> []) in
            if unat len + unat (sp_size sp) \<ge> 2 ^ 64 then Panic
            else complete_parts parts ps (len + sp_size sp, locs @ sp_locations sp, raw @ digest))"

definition fx_complete_multipart ::
    "(bytes \<Rightarrow> bytes) \<Rightarrow> om_config \<Rightarrow> om_state \<Rightarrow> key_args \<Rightarrow> om_part list \<Rightarrow> om_state \<times> (status, om_response) result" where
  "fx_complete_multipart md5 cfg st ka parts_list =
     (let uid = (case ka_multipart_upload_id ka of Some s \<Rightarrow> s | None \<Rightarrow> []);
          order = map pt_part_number parts_list;
          fail = (\<lambda>s msg. (st, Ok (err_response CompleteMultiPartUpload s msg))) in
      if order = [] then fail St_InvalidPart ''no parts to complete''
      else if \<not> sorted_wrt (<) order then fail St_InvalidPartOrder ''parts must be ascending with no duplicates''
      else case map_of (om_uploads st) uid of
          None \<Rightarrow> fail St_NoSuchMultipartUploadError ''no such multipart upload''
        | Some upload \<Rightarrow>
            (case complete_parts (su_parts upload) parts_list (0, [], []) of
               Err (s, msg) \<Rightarrow> fail s msg
             | Panic \<Rightarrow> (st, Panic)
             | Ok (len, locs, raw) \<Rightarrow>
                 let etag = hex (md5 raw) @ ''-'' @ nat_to_dec (length order);
                     ki = \<lparr>ki_volume = ka_volume ka, ki_bucket = ka_bucket ka, ki_key = ka_key ka, ki_data_size = len,
                           ki_key_location_list = [map (attach_pipeline cfg) locs],
                           ki_modification_time = FIXTURE_OBJECT_TIME_MS,
                           ki_metadata = [(ETAG_METADATA_KEY, Some etag)], ki_ec = Some (cp_ec cfg)\<rparr> in
                 (st\<lparr>om_uploads := btree_remove uid (om_uploads st),
                     om_keys := btree_insert (ka_volume ka, ka_bucket ka, ka_key ka) ki (om_keys st)\<rparr>,
                  Ok (ok_response CompleteMultiPartUpload (CompleteMultiPartUploadResponse (Some etag))))))"

definition fx_abort_multipart :: "om_state \<Rightarrow> key_args \<Rightarrow> om_state \<times> om_response" where
  "fx_abort_multipart st ka =
     (st\<lparr>om_uploads := btree_remove (case ka_multipart_upload_id ka of Some s \<Rightarrow> s | None \<Rightarrow> []) (om_uploads st)\<rparr>,
      ok_response AbortMultiPartUpload AbortMultiPartUploadResponse)"

definition fx_list_parts :: "om_state \<Rightarrow> string \<Rightarrow> string \<Rightarrow> u32 option \<Rightarrow> om_response" where
  "fx_list_parts st k uid marker =
     (case map_of (om_uploads st) uid of
        None \<Rightarrow> err_response ListMultiPartUploadParts St_NoSuchMultipartUploadError ''no such multipart upload''
      | Some upload \<Rightarrow>
          ok_response ListMultiPartUploadParts (ListMultipartUploadPartsResponse
            (map (\<lambda>(pn, p). \<lparr>pi_part_number = pn, pi_part_name = k @ ''-'' @ uid @ ''-'' @ nat_to_dec (unat pn),
                    pi_size = sp_size p, pi_e_tag = Some (sp_etag_hex p)\<rparr>)
              (filter (\<lambda>(pn, _). pn > (case marker of Some n \<Rightarrow> n | None \<Rightarrow> 0)) (su_parts upload)))))"

definition fx_list_uploads :: "om_state \<Rightarrow> string \<Rightarrow> string \<Rightarrow> string \<Rightarrow> om_response" where
  "fx_list_uploads st v b pre =
     ok_response ListMultipartUploads (ListMultipartUploadsResponse
       (sort_key (\<lambda>u. (ui_key u, ui_upload_id u))
         (map (\<lambda>(uid, u). case su_vbk u of (v', b', k) \<Rightarrow> \<lparr>ui_volume = v', ui_bucket = b', ui_key = k, ui_upload_id = uid\<rparr>)
           (filter (\<lambda>(_, u). case su_vbk u of (v', b', k) \<Rightarrow> v' = v \<and> b' = b \<and> prefix pre k) (om_uploads st)))))"

section \<open>Listing and tagging\<close>

definition fx_list_keys ::
    "om_state \<Rightarrow> string \<Rightarrow> string \<Rightarrow> string option \<Rightarrow> string option \<Rightarrow> i32 option \<Rightarrow> om_response" where
  "fx_list_keys st v b start_key pre cnt =
     (let pre' = (case pre of Some s \<Rightarrow> s | None \<Rightarrow> []);
          start = (case start_key of Some s \<Rightarrow> s | None \<Rightarrow> []);
          limit = (case cnt of Some c \<Rightarrow> if 0 < sint c then unat c else DEFAULT_LIST_KEYS_LIMIT | None \<Rightarrow> DEFAULT_LIST_KEYS_LIMIT);
          matches = sort_key ki_key (map snd
            (filter (\<lambda>((v', b', k), _). v' = v \<and> b' = b \<and> prefix pre' k \<and> start < k) (om_keys st))) in
      ok_response ListKeys (ListKeysResponse (take limit matches) (limit < length matches)))"

definition drop_tags :: "key_value list \<Rightarrow> key_value list" where
  "drop_tags md = filter (\<lambda>kv. \<not> prefix FIXTURE_TAG_META_PREFIX (fst kv)) md"

definition fx_put_tagging :: "om_state \<Rightarrow> key_args \<Rightarrow> om_state \<times> om_response" where
  "fx_put_tagging st ka =
     (let key = (ka_volume ka, ka_bucket ka, ka_key ka) in
      case map_of (om_keys st) key of
        Some ki \<Rightarrow>
          (st\<lparr>om_keys := btree_insert key
                (ki\<lparr>ki_metadata := drop_tags (ki_metadata ki) @
                    map (\<lambda>(k, v). (FIXTURE_TAG_META_PREFIX @ k, v)) (ka_tags ka)\<rparr>) (om_keys st)\<rparr>,
           ok_response PutObjectTagging PutObjectTaggingResponse)
      | None \<Rightarrow> (st, err_response PutObjectTagging St_KeyNotFound ''key not found''))"

definition strip_tag :: "key_value \<Rightarrow> key_value option" where
  "strip_tag kv =
     (if prefix FIXTURE_TAG_META_PREFIX (fst kv)
      then Some (drop (length FIXTURE_TAG_META_PREFIX) (fst kv), snd kv) else None)"

definition fx_get_tagging :: "om_state \<Rightarrow> key_args \<Rightarrow> om_response" where
  "fx_get_tagging st ka =
     (case map_of (om_keys st) (ka_volume ka, ka_bucket ka, ka_key ka) of
        Some ki \<Rightarrow> ok_response GetObjectTagging (GetObjectTaggingResponse
            (sort_key fst (List.map_filter strip_tag (ki_metadata ki))))
      | None \<Rightarrow> err_response GetObjectTagging St_KeyNotFound ''key not found'')"

definition fx_delete_tagging :: "om_state \<Rightarrow> key_args \<Rightarrow> om_state \<times> om_response" where
  "fx_delete_tagging st ka =
     (let key = (ka_volume ka, ka_bucket ka, ka_key ka) in
      case map_of (om_keys st) key of
        Some ki \<Rightarrow> (st\<lparr>om_keys := btree_insert key (ki\<lparr>ki_metadata := drop_tags (ki_metadata ki)\<rparr>) (om_keys st)\<rparr>,
                    ok_response DeleteObjectTagging DeleteObjectTaggingResponse)
      | None \<Rightarrow> (st, err_response DeleteObjectTagging St_KeyNotFound ''key not found''))"

section \<open>Dispatch\<close>

definition answer :: "om_state \<times> om_response \<Rightarrow> om_state \<times> (status, om_response) result" where
  "answer m = (case m of (st, r) \<Rightarrow> (st, Ok r))"

definition om_submit_request ::
    "(bytes \<Rightarrow> bytes) \<Rightarrow> om_config \<Rightarrow> om_state \<Rightarrow> om_request \<Rightarrow> om_state \<times> (status, om_response) result" where
  "om_submit_request md5 cfg st req =
     (let lost = (\<lambda>what. (st, Err (invalid_argument (''missing '' @ what)))); sub = rq_sub req in
      case rq_cmd_type req of
        CreateBucket \<Rightarrow> (case sub of Some (CreateBucketRequest v b) \<Rightarrow> answer (fx_create_bucket st v b)
                        | _ \<Rightarrow> lost ''createBucketRequest'')
      | InfoBucket \<Rightarrow> (case sub of Some (InfoBucketRequest v b) \<Rightarrow> (st, Ok (fx_info_bucket st v b))
                      | _ \<Rightarrow> lost ''infoBucketRequest'')
      | DeleteBucket \<Rightarrow> (case sub of Some (DeleteBucketRequest v b) \<Rightarrow> answer (fx_delete_bucket st v b)
                        | _ \<Rightarrow> lost ''deleteBucketRequest'')
      | ListBuckets \<Rightarrow> (case sub of Some (ListBucketsRequest v _) \<Rightarrow> (st, Ok (fx_list_buckets st v))
                       | _ \<Rightarrow> lost ''listBucketsRequest'')
      | CreateKey \<Rightarrow> (case sub of Some (CreateKeyRequest ka) \<Rightarrow> fx_create_key cfg st ka
                     | _ \<Rightarrow> lost ''createKeyRequest'')
      | AllocateBlock \<Rightarrow> (case sub of Some (AllocateBlockRequest ka _) \<Rightarrow> fx_allocate_block cfg st ka
                         | _ \<Rightarrow> lost ''allocateBlockRequest'')
      | CommitKey \<Rightarrow> (case sub of Some (CommitKeyRequest ka _) \<Rightarrow> answer (fx_commit_key cfg st ka)
                     | _ \<Rightarrow> lost ''commitKeyRequest'')
      | GetKeyInfo \<Rightarrow> (case sub of Some (GetKeyInfoRequest ka) \<Rightarrow> (st, Ok (fx_get_key_info st ka))
                      | _ \<Rightarrow> lost ''getKeyInfoRequest'')
      | DeleteKey \<Rightarrow> (case sub of Some (DeleteKeyRequest ka) \<Rightarrow> answer (fx_delete_key st ka)
                     | _ \<Rightarrow> lost ''deleteKeyRequest'')
      | InitiateMultiPartUpload \<Rightarrow>
          (case sub of Some (InitiateMultiPartUploadRequest ka) \<Rightarrow> fx_initiate_multipart st ka
           | _ \<Rightarrow> lost ''initiateMultiPartUploadRequest'')
      | CommitMultiPartUpload \<Rightarrow>
          (case sub of Some (CommitMultiPartUploadRequest ka _) \<Rightarrow> answer (fx_commit_part st ka)
           | _ \<Rightarrow> lost ''commitMultiPartUploadRequest'')
      | CompleteMultiPartUpload \<Rightarrow>
          (case sub of Some (CompleteMultiPartUploadRequest ka parts) \<Rightarrow> fx_complete_multipart md5 cfg st ka parts
           | _ \<Rightarrow> lost ''completeMultiPartUploadRequest'')
      | AbortMultiPartUpload \<Rightarrow>
          (case sub of Some (AbortMultiPartUploadRequest ka) \<Rightarrow> answer (fx_abort_multipart st ka)
           | _ \<Rightarrow> lost ''abortMultiPartUploadRequest'')
      | ListMultiPartUploadParts \<Rightarrow>
          (case sub of Some (ListMultipartUploadPartsRequest _ _ k uid marker) \<Rightarrow> (st, Ok (fx_list_parts st k uid marker))
           | _ \<Rightarrow> lost ''listMultiPartUploadPartsRequest'')
      | ListMultipartUploads \<Rightarrow>
          (case sub of Some (ListMultipartUploadsRequest v b pre) \<Rightarrow> (st, Ok (fx_list_uploads st v b pre))
           | _ \<Rightarrow> lost ''listMultipartUploadsRequest'')
      | ListKeys \<Rightarrow>
          (case sub of Some (ListKeysRequest v b start pre cnt) \<Rightarrow> (st, Ok (fx_list_keys st v b start pre cnt))
           | _ \<Rightarrow> lost ''listKeysRequest'')
      | PutObjectTagging \<Rightarrow> (case sub of Some (PutObjectTaggingRequest ka) \<Rightarrow> answer (fx_put_tagging st ka)
                            | _ \<Rightarrow> lost ''putObjectTaggingRequest'')
      | GetObjectTagging \<Rightarrow> (case sub of Some (GetObjectTaggingRequest ka) \<Rightarrow> (st, Ok (fx_get_tagging st ka))
                            | _ \<Rightarrow> lost ''getObjectTaggingRequest'')
      | DeleteObjectTagging \<Rightarrow> (case sub of Some (DeleteObjectTaggingRequest ka) \<Rightarrow> answer (fx_delete_tagging st ka)
                               | _ \<Rightarrow> lost ''deleteObjectTaggingRequest'')
      | OtherType t \<Rightarrow> (st, Ok (err_response (OtherType t) St_InvalidRequest ''cmdType not implemented by CompliantOm'')))"

end
