(* ===== verification/Gateway_Backend.thy ===== *)
theory Gateway_Backend
  imports Om_Client Repair Rust_Str
begin

text \<open>
  \<open>crates/ozone-s3-gw/src/backend.rs\<close>: the data path behind the S3 front end. The world of a gateway
  is the state of the Ozone Manager, the network of datanodes and the endpoints whose channels it has
  cached. The libraries it calls (the erasure coder, CRC32C, MD5) are a record of functions, together
  with the order in which a hash map happens to be iterated; a hash map is a sorted association list.
  An internal error keeps its text without the part the transport contributes.
\<close>

definition S3_VOLUME :: string where
  "S3_VOLUME = ''s3v''"

definition OM_CLIENT_ID :: string where
  "OM_CLIENT_ID = ''rust-s3g''"

definition FAKE_BUCKET_TIME_MS :: u64 where
  "FAKE_BUCKET_TIME_MS = 1609459200000"

definition FAKE_OBJECT_TIME_MS :: u64 where
  "FAKE_OBJECT_TIME_MS = 1609459200000"

definition TAG_META_PREFIX :: string where
  "TAG_META_PREFIX = ''x-amz-tag-''"

definition MAX_PART_NUMBER :: u32 where
  "MAX_PART_NUMBER = 10000"

definition DEFAULT_BLOCK_GROUP_SIZE :: nat where
  "DEFAULT_BLOCK_GROUP_SIZE = 256 * 1024 * 1024"

section \<open>Errors\<close>

datatype gateway_error =
    NoSuchKey
  | NoSuchBucket
  | NoSuchUpload
  | BadRequest string
  | GwOm om_error
  | GwDn dn_client_error
  | GwEc ec_error
  | GwInternal string

definition s3_code :: "gateway_error \<Rightarrow> string" where
  "s3_code e =
     (case e of
        NoSuchKey \<Rightarrow> ''NoSuchKey''
      | NoSuchBucket \<Rightarrow> ''NoSuchBucket''
      | NoSuchUpload \<Rightarrow> ''NoSuchUpload''
      | BadRequest _ \<Rightarrow> ''InvalidRequest''
      | _ \<Rightarrow> ''InternalError'')"

definition gw_of_om :: "om_error \<Rightarrow> gateway_error" where
  "gw_of_om e =
     (case e of
        OmNotFound \<Rightarrow> NoSuchKey
      | OmBucketNotFound \<Rightarrow> NoSuchBucket
      | OmNoSuchUpload \<Rightarrow> NoSuchUpload
      | OmInvalidPart \<Rightarrow> BadRequest ''invalid multipart part''
      | OmInvalidPartOrder \<Rightarrow> BadRequest ''invalid multipart part order''
      | OmEntityTooSmall \<Rightarrow> BadRequest ''multipart part too small''
      | other \<Rightarrow> GwOm other)"

section \<open>The gateway and its world\<close>

record object_entry =
  oe_key :: string
  oe_size :: u64
  oe_etag :: string
  oe_last_modified_ms :: u64

record listing =
  ls_name :: string
  ls_prefix :: string
  ls_delimiter :: string
  ls_max_keys :: u32
  ls_is_truncated :: bool
  ls_next_continuation_token :: string
  ls_contents :: "object_entry list"
  ls_common_prefixes :: "string list"

type_synonym string_map = "(string, string) btree_map"

record copy_directives =
  cpd_replace_metadata :: bool
  cpd_metadata :: string_map
  cpd_replace_tags :: bool
  cpd_tags :: "(string \<times> string) list"

record gw_libs =
  lib_isal :: isal
  lib_crc :: "bytes \<Rightarrow> u32"
  lib_md5 :: "bytes \<Rightarrow> bytes"
  lib_hash_order :: "(string \<times> string) list \<Rightarrow> (string \<times> string) list"

record 'o gateway =
  gw_om_channel :: "'o \<Rightarrow> om_request \<Rightarrow> 'o \<times> (status, om_response) result"
  gw_client_id :: string
  gw_region :: string
  gw_block_group_size :: nat

record ('o, 's) world =
  w_om :: 'o
  w_net :: "'s network"
  w_channels :: "string list"

definition gateway_connect :: "('o \<Rightarrow> om_request \<Rightarrow> 'o \<times> (status, om_response) result) \<Rightarrow> string \<Rightarrow> 'o gateway" where
  "gateway_connect channel region =
     \<lparr>gw_om_channel = channel, gw_client_id = OM_CLIENT_ID, gw_region = region,
      gw_block_group_size = DEFAULT_BLOCK_GROUP_SIZE\<rparr>"

definition set_block_group_size :: "'o gateway \<Rightarrow> nat \<Rightarrow> 'o gateway" where
  "set_block_group_size gw n = gw\<lparr>gw_block_group_size := max n 1\<rparr>"

definition gw_om :: "'o gateway \<Rightarrow> string \<Rightarrow> 'o om_client" where
  "gw_om gw who = \<lparr>oc_submit = gw_om_channel gw, oc_client_id = gw_client_id gw, oc_principal = who\<rparr>"

text \<open>An OM call with \<open>?\<close>: the manager's state moves on and the error is mapped.\<close>

definition on_om :: "('o, 's) world \<Rightarrow> 'o \<times> (om_error, 'a) result \<Rightarrow> ('o, 's) world \<times> (gateway_error, 'a) result" where
  "on_om w m = (w\<lparr>w_om := fst m\<rparr>, map_err gw_of_om (snd m))"

definition gw_dn :: "('o, 's) world \<Rightarrow> string \<Rightarrow> ('o, 's) world \<times> (gateway_error, unit) result" where
  "gw_dn w endpoint =
     (if endpoint \<in> set (w_channels w) then (w, Ok ())
      else case w_net w endpoint of
          None \<Rightarrow> (w, Err (GwInternal (''DN connect '' @ endpoint)))
        | Some _ \<Rightarrow> (w\<lparr>w_channels := endpoint # w_channels w\<rparr>, Ok ()))"

text \<open>A call over a channel: the peer's state moves on; a peer that has gone answers \<open>Unavailable\<close>.\<close>

definition dn_unavailable :: dn_client_error where
  "dn_unavailable = Rpc \<lparr>status_code = Unavailable, status_text = Text ''transport error''\<rparr>"

definition dn_call ::
    "('o, 's) world \<Rightarrow> string \<Rightarrow> ('s dn_rpc \<Rightarrow> 's \<Rightarrow> 's \<times> (dn_client_error, 'a) result) \<Rightarrow> ('o, 's) world \<times> (dn_client_error, 'a) result" where
  "dn_call w endpoint f =
     (case w_net w endpoint of
        None \<Rightarrow> (w, Err dn_unavailable)
      | Some (rpc, s) \<Rightarrow> (w\<lparr>w_net := (w_net w)(endpoint \<mapsto> (rpc, fst (f rpc s)))\<rparr>, snd (f rpc s)))"

definition dn_query ::
    "('o, 's) world \<Rightarrow> string \<Rightarrow> ('s dn_rpc \<Rightarrow> 's \<Rightarrow> (dn_client_error, 'a) result) \<Rightarrow> (dn_client_error, 'a) result" where
  "dn_query w endpoint f = (case w_net w endpoint of None \<Rightarrow> Err dn_unavailable | Some (rpc, s) \<Rightarrow> f rpc s)"

section \<open>Buckets\<close>

definition gw_head_bucket :: "'o gateway \<Rightarrow> ('o, 's) world \<Rightarrow> string \<Rightarrow> string \<Rightarrow> ('o, 's) world \<times> (gateway_error, unit) result" where
  "gw_head_bucket gw w bucket who =
     try_upd (on_om w (om_head_bucket (gw_om gw who) (w_om w) S3_VOLUME bucket)) (\<lambda>w' present.
     (w', if present then Ok () else Err NoSuchBucket))"

definition gw_create_bucket :: "'o gateway \<Rightarrow> ('o, 's) world \<Rightarrow> string \<Rightarrow> string \<Rightarrow> ('o, 's) world \<times> (gateway_error, bool) result" where
  "gw_create_bucket gw w bucket who =
     try_upd (on_om w (om_head_bucket (gw_om gw who) (w_om w) S3_VOLUME bucket)) (\<lambda>w1 existed.
     try_upd (on_om w1 (om_create_bucket (gw_om gw who) (w_om w1) S3_VOLUME bucket)) (\<lambda>w2 _.
     (w2, Ok (\<not> existed))))"

definition gw_delete_bucket :: "'o gateway \<Rightarrow> ('o, 's) world \<Rightarrow> string \<Rightarrow> string \<Rightarrow> ('o, 's) world \<times> (gateway_error, unit) result" where
  "gw_delete_bucket gw w bucket who =
     on_om w (om_delete_bucket (gw_om gw who) (w_om w) S3_VOLUME bucket)"

definition gw_list_buckets :: "'o gateway \<Rightarrow> ('o, 's) world \<Rightarrow> string \<Rightarrow> ('o, 's) world \<times> (gateway_error, (string \<times> u64) list) result" where
  "gw_list_buckets gw w who =
     try_upd (on_om w (om_list_buckets (gw_om gw who) (w_om w) S3_VOLUME)) (\<lambda>w' names.
     (w', Ok (map (\<lambda>name. (name, FAKE_BUCKET_TIME_MS)) names)))"

section \<open>Listing\<close>

record page =
  pg_contents :: "object_entry list"
  pg_common_prefixes :: "string list"
  pg_cnt :: u32
  pg_resume_key :: string
  pg_truncated :: bool

definition page_empty :: page where
  "page_empty = \<lparr>pg_contents = [], pg_common_prefixes = [], pg_cnt = 0, pg_resume_key = [], pg_truncated = False\<rparr>"

definition folded_prefix :: "string \<Rightarrow> string \<Rightarrow> string \<Rightarrow> string option" where
  "folded_prefix pre delimiter key =
     (if delimiter = [] then None
      else
        let rest = (case strip_prefix pre key of Some r \<Rightarrow> r | None \<Rightarrow> key) in
        map_option (\<lambda>i. pre @ take (i + length delimiter) rest) (str_find delimiter rest))"

text \<open>The loop over one batch of keys; it stops at the key that trips truncation.\<close>

fun fold_keys :: "string \<Rightarrow> string \<Rightarrow> u32 \<Rightarrow> key_listing list \<Rightarrow> page \<Rightarrow> page" where
  "fold_keys pre delimiter max_keys [] pg = pg"
| "fold_keys pre delimiter max_keys (k # ks) pg =
     (case folded_prefix pre delimiter (kg_key k) of
        Some p \<Rightarrow>
          if p \<in> set (pg_common_prefixes pg)
          then fold_keys pre delimiter max_keys ks (pg\<lparr>pg_resume_key := kg_key k\<rparr>)
          else if pg_cnt pg = max_keys then pg\<lparr>pg_truncated := True\<rparr>
          else fold_keys pre delimiter max_keys ks
            (pg\<lparr>pg_resume_key := kg_key k, pg_common_prefixes := pg_common_prefixes pg @ [p], pg_cnt := pg_cnt pg + 1\<rparr>)
      | None \<Rightarrow>
          if pg_cnt pg = max_keys then pg\<lparr>pg_truncated := True\<rparr>
          else fold_keys pre delimiter max_keys ks
            (pg\<lparr>pg_resume_key := kg_key k,
                pg_contents := pg_contents pg @
                  [\<lparr>oe_key = kg_key k, oe_size = kg_size k,
                    oe_etag = (case kg_etag k of Some e \<Rightarrow> e | None \<Rightarrow> []), oe_last_modified_ms = FAKE_OBJECT_TIME_MS\<rparr>],
                pg_cnt := pg_cnt pg + 1\<rparr>))"

text \<open>The loop over the batches, for at most the given number of calls to the manager.\<close>

fun list_batches ::
    "'o gateway \<Rightarrow> string \<Rightarrow> string \<Rightarrow> string \<Rightarrow> string \<Rightarrow> u32 \<Rightarrow> nat \<Rightarrow> ('o, 's) world \<Rightarrow> string \<Rightarrow> page
       \<Rightarrow> (('o, 's) world \<times> (gateway_error, page) result) option" where
  "list_batches gw bucket who pre delimiter max_keys 0 w start_after pg = None"
| "list_batches gw bucket who pre delimiter max_keys (Suc n) w start_after pg =
     (case on_om w (om_list_keys (gw_om gw who) (w_om w) S3_VOLUME bucket pre start_after max_keys) of
        (w', Ok keys) \<Rightarrow>
          if keys = [] then Some (w', Ok pg)
          else
            let start_after' = kg_key (last keys);
                pg' = fold_keys pre delimiter max_keys keys pg in
            if pg_truncated pg' then Some (w', Ok pg')
            else if length keys < unat (scast max_keys :: u64) then Some (w', Ok pg')
            else list_batches gw bucket who pre delimiter max_keys n w' start_after' pg'
      | (w', Err e) \<Rightarrow> Some (w', Err e)
      | (w', Panic) \<Rightarrow> Some (w', Panic))"

definition listing_of :: "string \<Rightarrow> string \<Rightarrow> string \<Rightarrow> u32 \<Rightarrow> page \<Rightarrow> listing" where
  "listing_of bucket pre delimiter max_keys pg =
     \<lparr>ls_name = bucket, ls_prefix = pre, ls_delimiter = delimiter, ls_max_keys = max_keys,
      ls_is_truncated = pg_truncated pg,
      ls_next_continuation_token = (if pg_truncated pg then pg_resume_key pg else []),
      ls_contents = pg_contents pg, ls_common_prefixes = pg_common_prefixes pg\<rparr>"

definition gw_list_objects ::
    "'o gateway \<Rightarrow> nat \<Rightarrow> ('o, 's) world \<Rightarrow> string \<Rightarrow> string \<Rightarrow> string \<Rightarrow> string \<Rightarrow> u32 \<Rightarrow> string
       \<Rightarrow> (('o, 's) world \<times> (gateway_error, listing) result) option" where
  "gw_list_objects gw n w bucket who pre delimiter max_keys token =
     (if max_keys = 0 then Some (w, Ok (listing_of bucket pre delimiter max_keys page_empty))
      else
        map_option (\<lambda>(w', r). (w', rbind r (\<lambda>pg. Ok (listing_of bucket pre delimiter max_keys pg))))
          (list_batches gw bucket who pre delimiter max_keys n w token page_empty))"

section \<open>Writing\<close>

definition ec_profile :: "ec_replication_config \<Rightarrow> profile" where
  "ec_profile ec =
     \<lparr>pr_data = unat (ec_data ec), pr_parity = unat (ec_parity ec), pr_chunk_size = unat (ec_chunk_size ec)\<rparr>"

definition endpoint_for_slot :: "block_location \<Rightarrow> u8 \<Rightarrow> (gateway_error, string) result" where
  "endpoint_for_slot block slot =
     (case find (\<lambda>m. ds_replica_index m = slot) (bl_members block) of
        Some m \<Rightarrow> Ok (ds_endpoint m)
      | None \<Rightarrow> Err (GwInternal (''block has no member for slot '' @ u8_to_string slot)))"

definition ensure_container ::
    "('o, 's) world \<Rightarrow> string \<Rightarrow> container_id \<Rightarrow> ec_replication_config \<Rightarrow> ('o, 's) world \<times> (gateway_error, unit) result" where
  "ensure_container w endpoint c ec =
     (case dn_call w endpoint (\<lambda>rpc s. client_create_container rpc s c ec) of
        (w', Ok _) \<Rightarrow> (w', Ok ())
      | (w', Err (Rpc s)) \<Rightarrow> (w', if status_code s = AlreadyExists then Ok () else Err (GwDn (Rpc s)))
      | (w', Err e) \<Rightarrow> (w', Err (GwDn e))
      | (w', Panic) \<Rightarrow> (w', Panic))"

definition gw_of_dn :: "('o, 's) world \<times> (dn_client_error, 'a) result \<Rightarrow> ('o, 's) world \<times> (gateway_error, 'a) result" where
  "gw_of_dn m = (fst m, map_err GwDn (snd m))"

definition write_shard ::
    "gw_libs \<Rightarrow> block_location \<Rightarrow> ec_replication_config \<Rightarrow> nat \<Rightarrow> encoded_shards \<Rightarrow> nat \<Rightarrow> ('o, 's) world
       \<Rightarrow> ('o, 's) world \<times> (gateway_error, unit) result" where
  "write_shard lib block ec seg_len shards slot w =
     (let k = unat (ec_data ec); c = bl_container_id block in
      try_st w (if slot \<le> k then index (es_data shards) (slot - 1) else index (es_parity shards) (slot - 1 - k)) (\<lambda>shard.
      try_st w (endpoint_for_slot block (of_nat slot)) (\<lambda>endpoint.
      try_upd (gw_dn w endpoint) (\<lambda>w1 _.
      try_upd (ensure_container w1 endpoint c ec) (\<lambda>w2 _.
      try_st w2 (map_err (\<lambda>_. GwInternal ''checksum'') (compute (lib_crc lib) shard (ec_chunk_size ec) Crc32c)) (\<lambda>cd.
      let chunk = \<lparr>ci_chunk_name = ''0'', ci_offset = 0, ci_len = of_nat (length shard), ci_checksum_data = Some cd,
                   ci_stripe_checksum = None\<rparr>;
          bslot = block_id_ec c (bl_local_id block) (of_nat slot) in
      try_upd (gw_of_dn (dn_call w2 endpoint (\<lambda>rpc s. client_write_chunk rpc s bslot chunk shard))) (\<lambda>w3 _.
      let bd = block_data_new bslot;
          bd1 = bd\<lparr>bd_chunks := bd_chunks bd @ [chunk]\<rparr>;
          bd2 = set_block_group_len bd1 (of_nat seg_len) in
      try_upd (gw_of_dn (dn_call w3 endpoint (\<lambda>rpc s. client_put_block rpc s bd2 True))) (\<lambda>w4 _. (w4, Ok ())))))))))"

fun write_shards ::
    "gw_libs \<Rightarrow> block_location \<Rightarrow> ec_replication_config \<Rightarrow> nat \<Rightarrow> encoded_shards \<Rightarrow> nat list \<Rightarrow> ('o, 's) world
       \<Rightarrow> ('o, 's) world \<times> (gateway_error, unit) result" where
  "write_shards lib block ec seg_len shards [] w = (w, Ok ())"
| "write_shards lib block ec seg_len shards (slot # slots) w =
     try_upd (write_shard lib block ec seg_len shards slot w) (\<lambda>w' _. write_shards lib block ec seg_len shards slots w')"

definition write_block_group ::
    "gw_libs \<Rightarrow> ('o, 's) world \<Rightarrow> block_location \<Rightarrow> ec_replication_config \<Rightarrow> bytes \<Rightarrow> ('o, 's) world \<times> (gateway_error, block_location) result" where
  "write_block_group lib w block ec segment =
     try_st w (map_err GwEc (encode_object (lib_isal lib) (ec_profile ec) segment)) (\<lambda>shards.
     try_upd (write_shards lib block ec (length segment) shards [1..<Suc (unat (ec_data ec) + unat (ec_parity ec))] w) (\<lambda>w' _.
     (w', Ok (block\<lparr>bl_length := of_nat (length segment)\<rparr>))))"

fun write_segments ::
    "gw_libs \<Rightarrow> 'o gateway \<Rightarrow> string \<Rightarrow> string \<Rightarrow> string \<Rightarrow> u64 \<Rightarrow> ec_replication_config option \<Rightarrow> bytes list
       \<Rightarrow> block_location list \<Rightarrow> ('o, 's) world \<Rightarrow> block_location list \<Rightarrow> ('o, 's) world \<times> (gateway_error, block_location list) result" where
  "write_segments lib gw bucket key who client_id ec [] pre_allocated w blocks = (w, Ok blocks)"
| "write_segments lib gw bucket key who client_id ec (segment # segments) pre_allocated w blocks =
     try_upd (case pre_allocated of
         b # _ \<Rightarrow> (w, Ok b)
       | [] \<Rightarrow> on_om w (om_allocate_block (gw_om gw who) (w_om w) S3_VOLUME bucket key client_id)) (\<lambda>w1 block.
     try_st w1 (ok_or ec (GwInternal ''open key has no EC block'')) (\<lambda>ec'.
     try_upd (write_block_group lib w1 block ec' segment) (\<lambda>w2 written.
     write_segments lib gw bucket key who client_id ec segments (tl pre_allocated) w2 (blocks @ [written]))))"

definition allocate_and_write ::
    "gw_libs \<Rightarrow> 'o gateway \<Rightarrow> ('o, 's) world \<Rightarrow> string \<Rightarrow> string \<Rightarrow> string \<Rightarrow> bytes \<Rightarrow> (string \<times> u32) option
       \<Rightarrow> ('o, 's) world \<times> (gateway_error, block_location list \<times> u64) result" where
  "allocate_and_write lib gw w bucket key who body multipart =
     try_upd (on_om w (case multipart of
         None \<Rightarrow> om_create_key (gw_om gw who) (w_om w) S3_VOLUME bucket key None (of_nat (length body))
       | Some (uid, part_number) \<Rightarrow>
           om_create_multipart_part_key (gw_om gw who) (w_om w) S3_VOLUME bucket key uid part_number None
             (of_nat (length body)))) (\<lambda>w1 opened.
     try_upd (write_segments lib gw bucket key who (ok_client_id opened)
         (case ok_blocks opened of [] \<Rightarrow> None | b # _ \<Rightarrow> Some (bl_ec b))
         (chunks (gw_block_group_size gw) body) (ok_blocks opened) w1 []) (\<lambda>w2 blocks.
     (w2, Ok (blocks, ok_client_id opened))))"

definition md5_hex :: "gw_libs \<Rightarrow> bytes \<Rightarrow> string" where
  "md5_hex lib data = hex (lib_md5 lib data)"

definition gw_put_object ::
    "gw_libs \<Rightarrow> 'o gateway \<Rightarrow> ('o, 's) world \<Rightarrow> string \<Rightarrow> string \<Rightarrow> string \<Rightarrow> bytes \<Rightarrow> string_map \<Rightarrow> (string \<times> string) list
       \<Rightarrow> ('o, 's) world \<times> (gateway_error, string) result" where
  "gw_put_object lib gw w bucket key who body metadata tags =
     try_upd (allocate_and_write lib gw w bucket key who body None) (\<lambda>w1 (blocks, client_id).
     let metadata' = foldl (\<lambda>m (k, v). btree_insert (TAG_META_PREFIX @ k) v m) metadata tags;
         etag = md5_hex lib body in
     try_upd (on_om w1 (om_commit_key (gw_om gw who) (w_om w1) S3_VOLUME bucket key client_id blocks
         (of_nat (length body)) (Some etag) (lib_hash_order lib metadata'))) (\<lambda>w2 _.
     (w2, Ok etag)))"

section \<open>Reading\<close>

definition read_shard :: "block_location \<Rightarrow> nat \<Rightarrow> ('o, 's) world \<times> bytes option list \<Rightarrow> ('o, 's) world \<times> bytes option list" where
  "read_shard block slot wb =
     (case wb of (w, bufs) \<Rightarrow>
      case endpoint_for_slot block (of_nat slot) of
        Ok endpoint \<Rightarrow>
          (case gw_dn w endpoint of
             (w', Ok _) \<Rightarrow>
               (case dn_query w' endpoint (\<lambda>rpc s. client_read_chunk rpc s
                   (block_id_ec (bl_container_id block) (bl_local_id block) (of_nat slot)) shard_probe True) of
                  Ok b \<Rightarrow> (w', bufs[slot - 1 := Some b])
                | _ \<Rightarrow> (w', bufs))
           | (w', _) \<Rightarrow> (w', bufs))
      | _ \<Rightarrow> (w, bufs))"

definition read_block_group ::
    "gw_libs \<Rightarrow> ('o, 's) world \<Rightarrow> block_location \<Rightarrow> ('o, 's) world \<times> (gateway_error, bytes) result" where
  "read_block_group lib w block =
     (let pf = ec_profile (bl_ec block); nslots = pr_data pf + pr_parity pf;
          (w', bufs) = foldl (\<lambda>wb slot. read_shard block slot wb) (w, replicate nslots None) [1..<Suc nslots] in
      (w', map_err GwEc (decode_object (lib_isal lib) pf (unat (bl_length block)) bufs)))"

fun read_blocks ::
    "gw_libs \<Rightarrow> block_location list \<Rightarrow> ('o, 's) world \<Rightarrow> bytes \<Rightarrow> ('o, 's) world \<times> (gateway_error, bytes) result" where
  "read_blocks lib [] w out = (w, Ok out)"
| "read_blocks lib (block # blocks) w out =
     try_upd (read_block_group lib w block) (\<lambda>w' part. read_blocks lib blocks w' (out @ part))"

text \<open>A vector whose requested capacity exceeds \<open>isize::MAX\<close> bytes panics.\<close>

definition with_capacity :: "u64 \<Rightarrow> ('e, unit) result" where
  "with_capacity n = (if unat n < 2 ^ 63 then Ok () else Panic)"

definition gw_get_object ::
    "gw_libs \<Rightarrow> 'o gateway \<Rightarrow> ('o, 's) world \<Rightarrow> string \<Rightarrow> string \<Rightarrow> string
       \<Rightarrow> ('o, 's) world \<times> (gateway_error, bytes \<times> string \<times> string_map \<times> u64) result" where
  "gw_get_object lib gw w bucket key who =
     try_upd (on_om w (om_get_key_info (gw_om gw who) (w_om w) S3_VOLUME bucket key)) (\<lambda>w1 meta.
     try_st w1 (with_capacity (km_size meta)) (\<lambda>_.
     try_upd (read_blocks lib (km_blocks meta) w1 []) (\<lambda>w2 out.
     (w2, Ok (out, (case km_etag meta of Some e \<Rightarrow> e | None \<Rightarrow> []), btree_collect (km_metadata meta),
       km_modification_time meta)))))"

definition gw_head_object ::
    "'o gateway \<Rightarrow> ('o, 's) world \<Rightarrow> string \<Rightarrow> string \<Rightarrow> string
       \<Rightarrow> ('o, 's) world \<times> (gateway_error, u64 \<times> string \<times> string_map \<times> u64) result" where
  "gw_head_object gw w bucket key who =
     try_upd (on_om w (om_get_key_info (gw_om gw who) (w_om w) S3_VOLUME bucket key)) (\<lambda>w1 meta.
     (w1, Ok (km_size meta, (case km_etag meta of Some e \<Rightarrow> e | None \<Rightarrow> []), btree_collect (km_metadata meta),
       km_modification_time meta)))"

definition gw_object_attributes ::
    "'o gateway \<Rightarrow> ('o, 's) world \<Rightarrow> string \<Rightarrow> string \<Rightarrow> string
       \<Rightarrow> ('o, 's) world \<times> (gateway_error, string \<times> u64 \<times> u64) result" where
  "gw_object_attributes gw w bucket key who =
     try_upd (on_om w (om_get_key_info (gw_om gw who) (w_om w) S3_VOLUME bucket key)) (\<lambda>w1 meta.
     (w1, Ok ((case km_etag meta of Some e \<Rightarrow> e | None \<Rightarrow> []), km_size meta, km_modification_time meta)))"

text \<open>Splitting an object's stored metadata into what the user set and its tags.\<close>

definition split_metadata :: "(string \<times> string) list \<Rightarrow> string_map \<times> (string \<times> string) list" where
  "split_metadata md =
     foldl (\<lambda>(user_meta, tags) (k, v).
       case strip_prefix TAG_META_PREFIX k of
         Some tag_key \<Rightarrow> (user_meta, tags @ [(tag_key, v)])
       | None \<Rightarrow> (btree_insert k v user_meta, tags)) ([], []) md"

definition gw_copy_object ::
    "gw_libs \<Rightarrow> 'o gateway \<Rightarrow> ('o, 's) world \<Rightarrow> string \<Rightarrow> string \<Rightarrow> string \<Rightarrow> string \<Rightarrow> string \<Rightarrow> copy_directives
       \<Rightarrow> ('o, 's) world \<times> (gateway_error, string \<times> u64) result" where
  "gw_copy_object lib gw w dest_bucket dest_key src_bucket src_key who directives =
     try_upd (gw_get_object lib gw w src_bucket src_key who) (\<lambda>w1 (body, _, src_metadata, _).
     let (user_meta, src_tags) = split_metadata (lib_hash_order lib src_metadata);
         metadata = (if cpd_replace_metadata directives then cpd_metadata directives else user_meta);
         tags = (if cpd_replace_tags directives then cpd_tags directives else src_tags) in
     try_upd (gw_put_object lib gw w1 dest_bucket dest_key who body metadata tags) (\<lambda>w2 etag.
     (w2, Ok (etag, of_nat (length body)))))"

definition gw_put_object_tagging ::
    "'o gateway \<Rightarrow> ('o, 's) world \<Rightarrow> string \<Rightarrow> string \<Rightarrow> string \<Rightarrow> (string \<times> string) list
       \<Rightarrow> ('o, 's) world \<times> (gateway_error, unit) result" where
  "gw_put_object_tagging gw w bucket key who tags =
     on_om w (om_put_object_tagging (gw_om gw who) (w_om w) S3_VOLUME bucket key tags)"

definition gw_get_object_tagging ::
    "'o gateway \<Rightarrow> ('o, 's) world \<Rightarrow> string \<Rightarrow> string \<Rightarrow> string
       \<Rightarrow> ('o, 's) world \<times> (gateway_error, (string \<times> string) list) result" where
  "gw_get_object_tagging gw w bucket key who =
     on_om w (om_get_object_tagging (gw_om gw who) (w_om w) S3_VOLUME bucket key)"

section \<open>Deleting\<close>

definition delete_shard :: "block_location \<Rightarrow> nat \<Rightarrow> ('o, 's) world \<Rightarrow> ('o, 's) world" where
  "delete_shard block slot w =
     (case endpoint_for_slot block (of_nat slot) of
        Ok endpoint \<Rightarrow>
          (case gw_dn w endpoint of
             (w', Ok _) \<Rightarrow> fst (dn_call w' endpoint (\<lambda>rpc s. client_delete_block rpc s
                 (block_id_ec (bl_container_id block) (bl_local_id block) (of_nat slot))))
           | (w', _) \<Rightarrow> w')
      | _ \<Rightarrow> w)"

definition delete_blocks :: "block_location list \<Rightarrow> ('o, 's) world \<Rightarrow> ('o, 's) world" where
  "delete_blocks blocks w =
     foldl (\<lambda>w block. foldl (\<lambda>w slot. delete_shard block slot w) w
       [1..<Suc (unat (ec_data (bl_ec block) + ec_parity (bl_ec block)))]) w blocks"

definition gw_delete_object ::
    "'o gateway \<Rightarrow> ('o, 's) world \<Rightarrow> string \<Rightarrow> string \<Rightarrow> string \<Rightarrow> ('o, 's) world \<times> (gateway_error, unit) result" where
  "gw_delete_object gw w bucket key who =
     (let (o1, r) = om_get_key_info (gw_om gw who) (w_om w) S3_VOLUME bucket key;
          w1 = w\<lparr>w_om := o1\<rparr>;
          w2 = (case r of Ok meta \<Rightarrow> delete_blocks (km_blocks meta) w1 | _ \<Rightarrow> w1) in
      on_om w2 (om_delete_key (gw_om gw who) (w_om w2) S3_VOLUME bucket key))"

text \<open>The text of an error is a parameter: it includes what the transport and the libraries print.\<close>

fun gw_delete_objects ::
    "(gateway_error \<Rightarrow> string) \<Rightarrow> 'o gateway \<Rightarrow> ('o, 's) world \<Rightarrow> string \<Rightarrow> string list \<Rightarrow> string
       \<Rightarrow> ('o, 's) world \<times> (gateway_error, (string \<times> (string \<times> string) option) list) result" where
  "gw_delete_objects display gw w bucket [] who = (w, Ok [])"
| "gw_delete_objects display gw w bucket (key # keys) who =
     (case gw_delete_object gw w bucket key who of
        (w', Ok _) \<Rightarrow> try_upd (gw_delete_objects display gw w' bucket keys who) (\<lambda>w2 rs. (w2, Ok ((key, None) # rs)))
      | (w', Err e) \<Rightarrow> try_upd (gw_delete_objects display gw w' bucket keys who) (\<lambda>w2 rs.
          (w2, Ok ((key, Some (s3_code e, display e)) # rs)))
      | (w', Panic) \<Rightarrow> (w', Panic))"

section \<open>Multipart uploads\<close>

definition gw_initiate_multipart ::
    "'o gateway \<Rightarrow> ('o, 's) world \<Rightarrow> string \<Rightarrow> string \<Rightarrow> string \<Rightarrow> ('o, 's) world \<times> (gateway_error, string) result" where
  "gw_initiate_multipart gw w bucket key who =
     on_om w (om_initiate_multipart (gw_om gw who) (w_om w) S3_VOLUME bucket key)"

definition gw_upload_part ::
    "gw_libs \<Rightarrow> 'o gateway \<Rightarrow> ('o, 's) world \<Rightarrow> string \<Rightarrow> string \<Rightarrow> string \<Rightarrow> string \<Rightarrow> u32 \<Rightarrow> bytes
       \<Rightarrow> ('o, 's) world \<times> (gateway_error, string) result" where
  "gw_upload_part lib gw w bucket key who uid part_number body =
     (if \<not> (1 \<le> part_number \<and> part_number \<le> MAX_PART_NUMBER)
      then (w, Err (BadRequest (''part number '' @ nat_to_dec (unat part_number) @ '' out of range (1..=10000)'')))
      else
        try_upd (allocate_and_write lib gw w bucket key who body (Some (uid, part_number))) (\<lambda>w1 (blocks, client_id).
        let etag_hex = md5_hex lib body in
        try_upd (on_om w1 (om_commit_part (gw_om gw who) (w_om w1) S3_VOLUME bucket key uid part_number client_id blocks
            (of_nat (length body)) etag_hex)) (\<lambda>w2 _.
        (w2, Ok etag_hex))))"

definition gw_complete_multipart ::
    "'o gateway \<Rightarrow> ('o, 's) world \<Rightarrow> string \<Rightarrow> string \<Rightarrow> string \<Rightarrow> string \<Rightarrow> u32 list
       \<Rightarrow> ('o, 's) world \<times> (gateway_error, string) result" where
  "gw_complete_multipart gw w bucket key who uid part_numbers =
     (if part_numbers = [] then (w, Err (BadRequest ''complete with no parts''))
      else if \<not> sorted_wrt (<) part_numbers
      then (w, Err (BadRequest ''parts must be in ascending order with no duplicates''))
      else
        try_upd (on_om w (om_complete_multipart (gw_om gw who) (w_om w) S3_VOLUME bucket key uid
            (map (\<lambda>pn. (pn, [], [])) part_numbers))) (\<lambda>w1 (etag, _). (w1, Ok etag)))"

definition gw_abort_multipart ::
    "'o gateway \<Rightarrow> ('o, 's) world \<Rightarrow> string \<Rightarrow> string \<Rightarrow> string \<Rightarrow> string \<Rightarrow> ('o, 's) world \<times> (gateway_error, unit) result" where
  "gw_abort_multipart gw w bucket key who uid =
     on_om w (om_abort_multipart (gw_om gw who) (w_om w) S3_VOLUME bucket key uid)"

definition gw_list_parts ::
    "'o gateway \<Rightarrow> ('o, 's) world \<Rightarrow> string \<Rightarrow> string \<Rightarrow> string \<Rightarrow> string
       \<Rightarrow> ('o, 's) world \<times> (gateway_error, (u32 \<times> string \<times> u64) list) result" where
  "gw_list_parts gw w bucket key who uid =
     try_upd (on_om w (om_list_parts (gw_om gw who) (w_om w) S3_VOLUME bucket key uid 0)) (\<lambda>w1 parts.
     (w1, Ok (map (\<lambda>p. (pg_part_number p, (case pg_etag p of Some e \<Rightarrow> e | None \<Rightarrow> []), pg_size p)) parts)))"

definition gw_list_multipart_uploads ::
    "'o gateway \<Rightarrow> ('o, 's) world \<Rightarrow> string \<Rightarrow> string \<Rightarrow> ('o, 's) world \<times> (gateway_error, (string \<times> string) list) result" where
  "gw_list_multipart_uploads gw w bucket who =
     try_upd (on_om w (om_list_multipart_uploads (gw_om gw who) (w_om w) S3_VOLUME bucket [])) (\<lambda>w1 uploads.
     (w1, Ok (map (\<lambda>u. (ug_upload_id u, ug_key u)) uploads)))"

end
