(* ===== verification/Om_Laws.thy ===== *)
theory Om_Laws
  imports Om_Fixture Gateway_Backend
begin

text \<open>
  What the gateway relies on from the Ozone Manager, as laws of its client's calls: a block is handed
  out once, the blocks of one open key share their erasure-coding configuration, and a committed key
  is read back with the blocks, size and metadata it was committed with, the manager supplying the
  placement. The manager of the repository's test fixtures keeps them.
\<close>

record om_view =
  ov_keys :: "vbk \<rightharpoonup> key_meta"
  ov_alloc :: "u64 \<times> u64 \<rightharpoonup> ec_replication_config \<times> datanode_slot list"
  ov_session :: "u64 \<rightharpoonup> ec_replication_config"

definition bl_key :: "block_location \<Rightarrow> u64 \<times> u64" where
  "bl_key b = (bl_container_id b, bl_local_id b)"

definition placed :: "om_view \<Rightarrow> block_location \<Rightarrow> bool" where
  "placed v b \<longleftrightarrow> ov_alloc v (bl_key b) = Some (bl_ec b, bl_members b)"

definition handed_out :: "om_view \<Rightarrow> om_view \<Rightarrow> u64 \<Rightarrow> block_location list \<Rightarrow> bool" where
  "handed_out v v' client_id bs \<longleftrightarrow>
     ov_keys v' = ov_keys v \<and> ov_alloc v \<subseteq>\<^sub>m ov_alloc v' \<and> distinct (map bl_key bs) \<and>
     (\<forall>b\<in>set bs. ov_alloc v (bl_key b) = None \<and> placed v' b \<and> ov_session v' client_id = Some (bl_ec b))"

definition committed_meta :: "block_location list \<Rightarrow> u64 \<Rightarrow> string option \<Rightarrow> (string \<times> string) list \<Rightarrow> u64 \<Rightarrow> key_meta" where
  "committed_meta blocks len etag metadata t =
     (let md = metadata @ (case etag of Some e \<Rightarrow> [(''ETAG'', e)] | None \<Rightarrow> []) in
      \<lparr>km_size = len, km_etag = map_option snd (find (\<lambda>(k, _). k = ''ETAG'') md), km_metadata = md,
       km_modification_time = t, km_blocks = blocks\<rparr>)"

locale om_laws =
  fixes ch :: "'o \<Rightarrow> om_request \<Rightarrow> 'o \<times> (status, om_response) result"
    and oabs :: "'o \<Rightarrow> om_view" and owf :: "'o \<Rightarrow> bool"
  assumes create_key: "oc_submit cl = ch \<Longrightarrow> owf s \<Longrightarrow> om_create_key cl s v b k None n = (s', r) \<Longrightarrow>
      owf s' \<and> r \<noteq> Panic \<and> (\<forall>opened. r = Ok opened \<longrightarrow> handed_out (oabs s) (oabs s') (ok_client_id opened) (ok_blocks opened))"
    and create_part: "oc_submit cl = ch \<Longrightarrow> owf s \<Longrightarrow> om_create_multipart_part_key cl s v b k uid pn None n = (s', r) \<Longrightarrow>
      owf s' \<and> r \<noteq> Panic \<and> (\<forall>opened. r = Ok opened \<longrightarrow> handed_out (oabs s) (oabs s') (ok_client_id opened) (ok_blocks opened))"
    and allocate: "oc_submit cl = ch \<Longrightarrow> owf s \<Longrightarrow> om_allocate_block cl s v b k client_id = (s', r2) \<Longrightarrow>
      owf s' \<and> r2 \<noteq> Panic \<and> (\<forall>block. r2 = Ok block \<longrightarrow> ov_session (oabs s') = ov_session (oabs s) \<and>
        (\<forall>ec. ov_session (oabs s) client_id = Some ec \<longrightarrow> handed_out (oabs s) (oabs s') client_id [block]))"
    and commit_key: "oc_submit cl = ch \<Longrightarrow> owf s \<Longrightarrow> \<forall>b\<in>set blocks. placed (oabs s) b \<Longrightarrow>
      om_commit_key cl s v b k client_id blocks n etag metadata = (s', r3) \<Longrightarrow>
      owf s' \<and> r3 \<noteq> Panic \<and> (r3 = Ok () \<longrightarrow>
        (\<exists>t. oabs s' = (oabs s)\<lparr>ov_keys := (ov_keys (oabs s))((v, b, k) \<mapsto> committed_meta blocks n etag metadata t)\<rparr>))"
    and get_key_info: "oc_submit cl = ch \<Longrightarrow> owf s \<Longrightarrow> om_get_key_info cl s v b k = (s', r4) \<Longrightarrow>
      owf s' \<and> oabs s' = oabs s \<and> r4 \<noteq> Panic \<and> (\<forall>meta. r4 = Ok meta \<longrightarrow> ov_keys (oabs s) (v, b, k) = Some meta) \<and>
      (r4 = Err OmNotFound \<longrightarrow> ov_keys (oabs s) (v, b, k) = None)"
    and delete_key: "oc_submit cl = ch \<Longrightarrow> owf s \<Longrightarrow> om_delete_key cl s v b k = (s', r3) \<Longrightarrow>
      owf s' \<and> r3 \<noteq> Panic \<and> ov_alloc (oabs s') = ov_alloc (oabs s) \<and>
      (ov_keys (oabs s') = (ov_keys (oabs s))((v, b, k) := None) \<or> ov_keys (oabs s') = ov_keys (oabs s) \<and> r3 \<noteq> Ok ())"
    and keys_placed: "owf s \<Longrightarrow> ov_keys (oabs s) kx = Some meta \<Longrightarrow> b' \<in> set (km_blocks meta) \<Longrightarrow> placed (oabs s) b'"
    and profiles: "owf s \<Longrightarrow> ov_alloc (oabs s) x = Some (ec, ms) \<Longrightarrow> profile_ok (ec_profile ec)"

section \<open>The fixture keeps the laws\<close>

text \<open>A pipeline the client accepts: a valid configuration and a data port on each of at most 255 datanodes.\<close>

definition cfg_slots :: "om_config \<Rightarrow> (om_error, datanode_slot list) result" where
  "cfg_slots cfg = rmap_list member_slot (zip (cp_datanodes cfg) (map of_nat [1..<Suc (length (cp_datanodes cfg))]))"

definition cfg_valid :: "om_config \<Rightarrow> ec_replication_config \<Rightarrow> datanode_slot list \<Rightarrow> bool" where
  "cfg_valid cfg ec members \<longleftrightarrow>
     ec_config_from_proto (cp_ec cfg) = Ok ec \<and> profile_ok (ec_profile ec) \<and> cfg_slots cfg = Ok members"

text \<open>Local ids are handed out in order and never reused, whatever the container.\<close>

definition fx_abs :: "ec_replication_config \<Rightarrow> datanode_slot list \<Rightarrow> om_state \<Rightarrow> om_view" where
  "fx_abs ec members st =
     \<lparr>ov_keys = (\<lambda>x. case map_of (om_keys st) x of
          None \<Rightarrow> None
        | Some ki \<Rightarrow> (case key_meta_of ki of Ok meta \<Rightarrow> Some meta | _ \<Rightarrow> None)),
      ov_alloc = (\<lambda>(c, l). if 0 \<le> sint c \<and> 1 \<le> sint l \<and> sint l < sint (om_next_local_id st) then Some (ec, members) else None),
      ov_session = (\<lambda>_. Some ec)\<rparr>"

definition fx_wf :: "ec_replication_config \<Rightarrow> datanode_slot list \<Rightarrow> om_state \<Rightarrow> bool" where
  "fx_wf ec members st \<longleftrightarrow> 1 \<le> sint (om_next_local_id st) \<and> 1 \<le> sint (om_next_container_id st) \<and> btree_wf (om_keys st) \<and>
     (\<forall>x ki. map_of (om_keys st) x = Some ki \<longrightarrow>
        (\<exists>meta. key_meta_of ki = Ok meta \<and> (\<forall>b\<in>set (km_blocks meta). placed (fx_abs ec members st) b)))"

lemma fx_abs_ids [simp]:
  "fx_abs ec members (st\<lparr>om_next_client_id := i\<rparr>) = fx_abs ec members st"
  "fx_abs ec members (st\<lparr>om_next_container_id := c\<rparr>) = fx_abs ec members st"
  by (simp_all add: fx_abs_def)

lemma placed_mono: "ov_alloc v \<subseteq>\<^sub>m ov_alloc v' \<Longrightarrow> placed v b \<Longrightarrow> placed v' b"
  unfolding placed_def map_le_def by (metis domI)

lemma fx_wf_mono:
  assumes "fx_wf ec members st" "ov_alloc (fx_abs ec members st) \<subseteq>\<^sub>m ov_alloc (fx_abs ec members st')" "om_keys st' = om_keys st"
    "1 \<le> sint (om_next_local_id st')" "1 \<le> sint (om_next_container_id st')"
  shows "fx_wf ec members st'"
  using assms placed_mono [OF assms(2)] unfolding fx_wf_def by metis

lemma sint_inc:
  fixes w :: i64
  assumes "sint w \<noteq> 2 ^ 63 - 1"
  shows "sint (w + 1) = sint w + 1"
proof -
  have "sint w < 2 ^ 63" "- (2 ^ 63) \<le> sint w" using sint_lt [of w] sint_ge [of w] by simp_all
  with assms have "sint w + 1 < 2 ^ 63" "- (2 ^ 63) \<le> sint w + 1" by simp_all
  then show ?thesis
    by (simp add: sint_word_ariths(1) signed_take_bit_int_eq_self)
qed

lemma inc_i64_cases: "inc_i64 w = Ok (w + 1) \<and> sint (w + 1) = sint w + 1 \<or> inc_i64 w = Panic"
  using sint_inc [of w] by (auto simp: inc_i64_def)

lemma inc_u64_cases: "inc_u64 w = Ok (w + 1) \<or> inc_u64 w = Panic"
  by (simp add: inc_u64_def)

lemma fx_location_block:
  assumes "cfg_valid cfg ec members" "kl_pipeline loc = Some (pipeline_message cfg)"
    "0 \<le> sint (kl_container_id loc)" "0 \<le> sint (kl_local_id loc)"
  shows "key_location_to_block loc =
    Ok \<lparr>bl_container_id = kl_container_id loc, bl_local_id = kl_local_id loc, bl_offset = kl_offset loc,
        bl_length = kl_length loc, bl_ec = ec, bl_members = members\<rparr>"
  using assms by (simp add: key_location_to_block_def u64_of_i64_def pipeline_message_def cfg_valid_def cfg_slots_def
      del: upt_Suc)

lemma fx_committed_block:
  assumes "cfg_valid cfg ec members" "placed (fx_abs ec members st) b"
  shows "key_location_to_block (attach_pipeline cfg (block_to_key_location b)) = Ok b"
  using assms(2) fx_location_block [OF assms(1), of "attach_pipeline cfg (block_to_key_location b)"]
  by (auto simp: placed_def fx_abs_def bl_key_def attach_pipeline_def block_to_key_location_def split: if_splits)

lemma rmap_list_all_Ok: "\<forall>x\<in>set xs. f x = Ok (g x) \<Longrightarrow> rmap_list f xs = Ok (map g xs)"
  by (induction xs) auto

lemma fx_committed_blocks:
  assumes "cfg_valid cfg ec members" "\<forall>b\<in>set blocks. placed (fx_abs ec members st) b"
  shows "rmap_list key_location_to_block (map (attach_pipeline cfg) (map block_to_key_location blocks)) = Ok blocks"
proof -
  have "rmap_list (\<lambda>b. key_location_to_block (attach_pipeline cfg (block_to_key_location b))) blocks = Ok (map (\<lambda>b. b) blocks)"
    by (rule rmap_list_all_Ok) (use fx_committed_block [OF assms(1)] assms(2) in blast)
  moreover have "rmap_list f (map g xs) = rmap_list (\<lambda>x. f (g x)) xs" for f :: "key_location \<Rightarrow> (om_error, block_location) result"
    and g :: "block_location \<Rightarrow> key_location" and xs
    by (induction xs) simp_all
  ultimately show ?thesis by simp
qed

lemmas fx_call_defs = om_call_def om_envelope_def om_submit_request_def om_transport_def om_check_def
  ok_response_def err_response_def answer_def

text \<open>Opening a key, whatever its other arguments, hands out one block in a fresh container.\<close>

definition fx_block :: "ec_replication_config \<Rightarrow> datanode_slot list \<Rightarrow> i64 \<Rightarrow> i64 \<Rightarrow> block_location" where
  "fx_block ec members c l =
     \<lparr>bl_container_id = c, bl_local_id = l, bl_offset = 0, bl_length = 0, bl_ec = ec, bl_members = members\<rparr>"

lemma alloc_block_cases:
  fixes r :: "('e, key_location) result"
  assumes "cfg_valid cfg ec members" "fx_wf ec members st" "1 \<le> sint c" "alloc_block cfg st c = (st', r)"
  shows "fx_wf ec members st' \<and> (r = Panic \<or>
    (\<exists>loc block. r = Ok loc \<and> key_location_to_block loc = Ok block \<and> bl_ec block = ec \<and>
      handed_out (fx_abs ec members st) (fx_abs ec members st') client_id [block]))"
proof -
  let ?l = "om_next_local_id st"
  have wf: "1 \<le> sint ?l" using assms(2) by (simp add: fx_wf_def)
  show ?thesis
  proof (cases "inc_i64 ?l = (Panic :: ('e, i64) result)")
    case True
    then show ?thesis using assms(2,4) by (simp add: alloc_block_def Let_def)
  next
    case False
    then have inc: "inc_i64 ?l = (Ok (?l + 1) :: ('e, i64) result)" "sint (?l + 1) = sint ?l + 1"
      using sint_inc [of ?l] by (auto simp: inc_i64_def split: if_splits)
    let ?loc = "\<lparr>kl_container_id = c, kl_local_id = ?l, kl_offset = 0, kl_length = 0, kl_pipeline = Some (pipeline_message cfg)\<rparr>"
    have out: "st' = st\<lparr>om_next_local_id := ?l + 1\<rparr>" "r = Ok ?loc"
      using assms(4) inc by (simp_all add: alloc_block_def Let_def)
    have "key_location_to_block ?loc = Ok (fx_block ec members c ?l)"
      using fx_location_block [OF assms(1), of ?loc] wf assms(3) by (simp add: fx_block_def)
    moreover have "handed_out (fx_abs ec members st) (fx_abs ec members st') client_id [fx_block ec members c ?l]"
      using inc(2) wf assms(3) 
      by (auto simp: out handed_out_def placed_def fx_abs_def bl_key_def fx_block_def map_le_def split: if_splits)
    moreover have "fx_wf ec members st'"
      by (rule fx_wf_mono [OF assms(2)]) (use assms(2) inc(2) in \<open>auto simp: out fx_wf_def fx_abs_def map_le_def split: if_splits\<close>)
    ultimately show ?thesis using out(2) by (simp add: fx_block_def)
  qed
qed

lemma fx_create_key_cases:
  assumes "cfg_valid cfg ec members" "fx_wf ec members st" "fx_create_key cfg st ka = (st', r)"
  shows "fx_wf ec members st' \<and> (r = Panic \<or>
    (\<exists>ki client_id block. r = Ok (ok_response CreateKey (CreateKeyResponse (Some ki) (Some client_id))) \<and>
       blocks_of_key_info ki = Ok [block] \<and> handed_out (fx_abs ec members st) (fx_abs ec members st') client_id [block]))"
proof (cases "inc_u64 (om_next_client_id st) = (Panic :: (status, u64) result) \<or>
    inc_i64 (om_next_container_id st) = (Panic :: (status, i64) result)")
  case True
  then show ?thesis
    using assms(2,3) by (auto simp: fx_create_key_def Let_def fx_wf_def inc_u64_def split: if_splits)
next
  case False
  let ?c = "om_next_container_id st"
  let ?st = "st\<lparr>om_next_client_id := om_next_client_id st + 1, om_next_container_id := ?c + 1\<rparr>"
  have inc: "inc_u64 (om_next_client_id st) = (Ok (om_next_client_id st + 1) :: (status, u64) result)"
    "inc_i64 ?c = (Ok (?c + 1) :: (status, i64) result)" "sint (?c + 1) = sint ?c + 1"
    using False sint_inc [of ?c] by (auto simp: inc_u64_def inc_i64_def split: if_splits)
  have wf: "fx_wf ec members ?st" "1 \<le> sint ?c" using assms(2) inc(3) by (simp_all add: fx_wf_def)
  have same: "fx_abs ec members ?st = fx_abs ec members st" by (simp add: fx_abs_def)
  obtain st1 and r1 :: "(status, key_location) result" where a: "alloc_block cfg ?st ?c = (st1, r1)" by fastforce
  note out = alloc_block_cases [OF assms(1) wf a, of "om_next_client_id st", unfolded same]
  show ?thesis
  proof (cases r1)
    case (Ok loc)
    with out obtain block where "key_location_to_block loc = Ok block"
      "handed_out (fx_abs ec members st) (fx_abs ec members st1) (om_next_client_id st) [block]" by auto
    with out assms(3) inc(1,2) a Ok show ?thesis
      by (auto simp: fx_create_key_def Let_def blocks_of_key_info_def)
  qed (use out assms(3) inc(1,2) a in \<open>auto simp: fx_create_key_def Let_def\<close>)
qed

lemma fx_open_key:
  assumes "cfg_valid cfg ec members" "oc_submit cl = om_submit_request md5 cfg" "fx_wf ec members st"
    "try_upd (om_call cl st CreateKey (CreateKeyRequest ka)) (\<lambda>s resp. (s, open_key_of resp)) = (st', r)"
  shows "fx_wf ec members st' \<and> r \<noteq> Panic \<and> (\<forall>opened. r = Ok opened \<longrightarrow>
    handed_out (fx_abs ec members st) (fx_abs ec members st') (ok_client_id opened) (ok_blocks opened))"
proof -
  obtain st1 r1 where c: "fx_create_key cfg st ka = (st1, r1)" by fastforce
  have call: "om_call cl st CreateKey (CreateKeyRequest ka) = (st1, rbind (map_err OmRpc (om_transport r1)) om_check)"
    using assms(2) c by (simp add: om_call_def om_envelope_def om_submit_request_def)
  from fx_create_key_cases [OF assms(1,3) c] show ?thesis
  proof (elim conjE disjE exE)
    assume "fx_wf ec members st1" "r1 = Panic"
    with assms(4) call show ?thesis by (auto simp: om_transport_def)
  next
    fix ki client_id block
    assume "fx_wf ec members st1" "r1 = Ok (ok_response CreateKey (CreateKeyResponse (Some ki) (Some client_id)))"
      "blocks_of_key_info ki = Ok [block]" "handed_out (fx_abs ec members st) (fx_abs ec members st1) client_id [block]"
    with assms(4) call show ?thesis by (auto simp: om_transport_def om_check_def ok_response_def open_key_of_def)
  qed
qed

lemma fx_allocate:
  assumes "cfg_valid cfg ec members" "oc_submit cl = om_submit_request md5 cfg" "fx_wf ec members st"
    "om_allocate_block cl st v b k client_id = (st', r)"
  shows "fx_wf ec members st' \<and> r \<noteq> Panic \<and> (\<forall>block. r = Ok block \<longrightarrow>
    handed_out (fx_abs ec members st) (fx_abs ec members st') client_id [block])"
proof -
  obtain st1 and r1 :: "(status, key_location) result" where a: "alloc_block cfg st 1 = (st1, r1)" by fastforce
  have call: "om_call cl st AllocateBlock (AllocateBlockRequest (key_args_of v b k) client_id) =
      (st1, rbind (map_err OmRpc (om_transport (rbind r1 (\<lambda>loc.
         Ok (ok_response AllocateBlock (AllocateBlockResponse (Some loc))))))) om_check)"
    using assms(2) a by (cases r1) (simp_all add: om_call_def om_envelope_def om_submit_request_def fx_allocate_block_def key_args_of_def)
  have one: "1 \<le> sint (1 :: i64)" by simp
  note out = alloc_block_cases [OF assms(1,3) one a, of client_id]
  show ?thesis
  proof (cases r1)
    case (Ok loc)
    with out assms(4) call show ?thesis
      by (auto simp: om_allocate_block_def om_transport_def om_check_def ok_response_def)
  qed (use out assms(4) call in \<open>auto simp: om_allocate_block_def om_transport_def\<close>)
qed

lemma fx_commit:
  assumes "cfg_valid cfg ec members" "oc_submit cl = om_submit_request md5 cfg" "fx_wf ec members st"
    "\<forall>b\<in>set blocks. placed (fx_abs ec members st) b"
    "om_commit_key cl st v b k client_id blocks n etag metadata = (st', r)"
  shows "fx_wf ec members st' \<and> r = Ok () \<and> fx_abs ec members st' = (fx_abs ec members st)
    \<lparr>ov_keys := (ov_keys (fx_abs ec members st))((v, b, k) \<mapsto> committed_meta blocks n etag metadata FIXTURE_OBJECT_TIME_MS)\<rparr>"
proof -
  define ki where "ki = \<lparr>ki_volume = v, ki_bucket = b, ki_key = k, ki_data_size = n,
      ki_key_location_list = [map (attach_pipeline cfg) (map block_to_key_location blocks)],
      ki_modification_time = FIXTURE_OBJECT_TIME_MS,
      ki_metadata = map (\<lambda>(k, v). (k, Some v)) metadata @ (case etag of Some e \<Rightarrow> [(''ETAG'', Some e)] | None \<Rightarrow> []),
      ki_ec = Some (cp_ec cfg)\<rparr>"
  have out: "st' = st\<lparr>om_keys := btree_insert (v, b, k) ki (om_keys st)\<rparr>" "r = Ok ()"
    using assms(2,5) by (auto simp: om_commit_key_def fx_call_defs fx_commit_key_def key_args_of_def Let_def ki_def)
  have blocks: "blocks_of_key_info ki = Ok blocks"
    using fx_committed_blocks [OF assms(1,4)] by (simp add: blocks_of_key_info_def ki_def)
  have md: "map (\<lambda>(k, v). (k, case v of Some s \<Rightarrow> s | None \<Rightarrow> [])) (ki_metadata ki) =
      metadata @ (case etag of Some e \<Rightarrow> [(''ETAG'', e)] | None \<Rightarrow> [])"
    by (simp add: ki_def case_prod_unfold o_def split: option.split)
  have meta: "key_meta_of ki = Ok (committed_meta blocks n etag metadata FIXTURE_OBJECT_TIME_MS)"
    unfolding key_meta_of_def md Let_def by (simp add: blocks committed_meta_def Let_def) (simp add: ki_def)
  have abs: "fx_abs ec members st' = (fx_abs ec members st)
    \<lparr>ov_keys := (ov_keys (fx_abs ec members st))((v, b, k) \<mapsto> committed_meta blocks n etag metadata FIXTURE_OBJECT_TIME_MS)\<rparr>"
    using meta by (auto simp: out fx_abs_def fun_eq_iff)
  then have pl: "placed (fx_abs ec members st') = placed (fx_abs ec members st)" by (simp add: placed_def fun_eq_iff)
  have "km_blocks (committed_meta blocks n etag metadata FIXTURE_OBJECT_TIME_MS) = blocks"
    by (simp add: committed_meta_def Let_def)
  then have "fx_wf ec members st'"
    unfolding fx_wf_def pl using assms(3,4) meta by (auto simp: out fx_wf_def btree_wf_insert)
  with abs out(2) show ?thesis by simp
qed

lemma fx_get:
  assumes "oc_submit cl = om_submit_request md5 cfg" "fx_wf ec members st" "om_get_key_info cl st v b k = (st', r)"
  shows "st' = st \<and> r = ok_or (ov_keys (fx_abs ec members st) (v, b, k)) OmNotFound"
proof (cases "map_of (om_keys st) (v, b, k)")
  case None
  then show ?thesis
    using assms(1,3) by (auto simp: om_get_key_info_def fx_call_defs fx_get_key_info_def key_args_of_def fx_abs_def)
next
  case (Some ki)
  then obtain meta where meta: "key_meta_of ki = Ok meta" using assms(2) unfolding fx_wf_def by blast
  show ?thesis
    using Some assms(1,3) by (auto simp: meta om_get_key_info_def fx_call_defs fx_get_key_info_def key_args_of_def fx_abs_def)
qed

lemma fx_delete:
  assumes "oc_submit cl = om_submit_request md5 cfg" "fx_wf ec members st" "om_delete_key cl st v b k = (st', r)"
  shows "fx_wf ec members st' \<and> r = Ok () \<and> fx_abs ec members st' =
    (fx_abs ec members st)\<lparr>ov_keys := (ov_keys (fx_abs ec members st))((v, b, k) := None)\<rparr>"
proof -
  have out: "st' = st\<lparr>om_keys := btree_remove (v, b, k) (om_keys st)\<rparr>" "r = Ok ()"
    using assms(1,3) by (auto simp: om_delete_key_def fx_call_defs fx_delete_key_def key_args_of_def)
  have abs: "fx_abs ec members st' = (fx_abs ec members st)\<lparr>ov_keys := (ov_keys (fx_abs ec members st))((v, b, k) := None)\<rparr>"
    by (simp add: out fx_abs_def fun_eq_iff)
  then have "placed (fx_abs ec members st') = placed (fx_abs ec members st)" by (simp add: placed_def fun_eq_iff)
  with assms(2) abs show ?thesis
    by (auto simp: fx_wf_def out btree_wf_remove split: if_splits)
qed

lemma fixture_om_laws:
  assumes "cfg_valid cfg ec members"
  shows "om_laws (om_submit_request md5 cfg) (fx_abs ec members) (fx_wf ec members)"
proof
  fix cl :: "om_state om_client" and s v b k n s' r
  assume "oc_submit cl = om_submit_request md5 cfg" "fx_wf ec members s" "om_create_key cl s v b k None n = (s', r)"
  then show "fx_wf ec members s' \<and> r \<noteq> Panic \<and> (\<forall>opened. r = Ok opened \<longrightarrow>
      handed_out (fx_abs ec members s) (fx_abs ec members s') (ok_client_id opened) (ok_blocks opened))"
    using fx_open_key [OF assms] by (simp add: om_create_key_def Let_def)
next
  fix cl :: "om_state om_client" and s v b k uid pn n s' r
  assume "oc_submit cl = om_submit_request md5 cfg" "fx_wf ec members s" "om_create_multipart_part_key cl s v b k uid pn None n = (s', r)"
  then show "fx_wf ec members s' \<and> r \<noteq> Panic \<and> (\<forall>opened. r = Ok opened \<longrightarrow>
      handed_out (fx_abs ec members s) (fx_abs ec members s') (ok_client_id opened) (ok_blocks opened))"
    using fx_open_key [OF assms] by (simp add: om_create_multipart_part_key_def Let_def)
next
  fix cl :: "om_state om_client" and s v b k client_id s' r
  assume "oc_submit cl = om_submit_request md5 cfg" "fx_wf ec members s" "om_allocate_block cl s v b k client_id = (s', r)"
  from fx_allocate [OF assms this] show "fx_wf ec members s' \<and> r \<noteq> Panic \<and> (\<forall>block. r = Ok block \<longrightarrow>
      ov_session (fx_abs ec members s') = ov_session (fx_abs ec members s) \<and>
      (\<forall>e. ov_session (fx_abs ec members s) client_id = Some e \<longrightarrow>
        handed_out (fx_abs ec members s) (fx_abs ec members s') client_id [block]))"
    by (auto simp: fx_abs_def)
next
  fix cl :: "om_state om_client" and s blocks v b k client_id n etag metadata s' r
  assume "oc_submit cl = om_submit_request md5 cfg" "fx_wf ec members s" "\<forall>b\<in>set blocks. placed (fx_abs ec members s) b"
    "om_commit_key cl s v b k client_id blocks n etag metadata = (s', r)"
  from fx_commit [OF assms this] show "fx_wf ec members s' \<and> r \<noteq> Panic \<and> (r = Ok () \<longrightarrow> (\<exists>t. fx_abs ec members s' =
      (fx_abs ec members s)\<lparr>ov_keys := (ov_keys (fx_abs ec members s))((v, b, k) \<mapsto> committed_meta blocks n etag metadata t)\<rparr>))"
    by auto
next
  fix cl :: "om_state om_client" and s v b k s' r
  assume "oc_submit cl = om_submit_request md5 cfg" "fx_wf ec members s" "om_get_key_info cl s v b k = (s', r)"
  from fx_get [OF this] \<open>fx_wf ec members s\<close> show "fx_wf ec members s' \<and> fx_abs ec members s' = fx_abs ec members s \<and> r \<noteq> Panic \<and>
      (\<forall>meta. r = Ok meta \<longrightarrow> ov_keys (fx_abs ec members s) (v, b, k) = Some meta) \<and>
      (r = Err OmNotFound \<longrightarrow> ov_keys (fx_abs ec members s) (v, b, k) = None)"
    by (cases "ov_keys (fx_abs ec members s) (v, b, k)") simp_all
next
  fix cl :: "om_state om_client" and s v b k s' and r :: "(om_error, unit) result"
  assume "oc_submit cl = om_submit_request md5 cfg" "fx_wf ec members s" "om_delete_key cl s v b k = (s', r)"
  from fx_delete [OF this] show "fx_wf ec members s' \<and> r \<noteq> Panic \<and> ov_alloc (fx_abs ec members s') = ov_alloc (fx_abs ec members s) \<and>
      (ov_keys (fx_abs ec members s') = (ov_keys (fx_abs ec members s))((v, b, k) := None) \<or>
       ov_keys (fx_abs ec members s') = ov_keys (fx_abs ec members s) \<and> r \<noteq> Ok ())"
    by simp
next
  show "placed (fx_abs ec members s) b" if "fx_wf ec members s" "ov_keys (fx_abs ec members s) x = Some meta"
    "b \<in> set (km_blocks meta)" for s x meta b
  proof -
    note committed = that
    obtain ki where "map_of (om_keys s) x = Some ki" "key_meta_of ki = Ok meta"
      using committed(2) by (auto simp: fx_abs_def split: option.splits result.splits)
    then show ?thesis using committed(1,3) unfolding fx_wf_def by fastforce
  qed
next
  show "profile_ok (ec_profile e)" if "fx_wf ec members s" "ov_alloc (fx_abs ec members s) x = Some (e, ms)" for s x e ms
    using that assms by (auto simp: fx_abs_def cfg_valid_def split: if_splits prod.splits)
qed

text \<open>A manager over three datanodes that code two data shards and one parity shard.\<close>

definition trio_ec :: ec_replication_config where
  "trio_ec = ec_rs 2 1 2"

definition trio_node :: "string \<Rightarrow> datanode_details" where
  "trio_node ip = \<lparr>dd_ip_address = ip, dd_ports = [\<lparr>port_name = REPLICATION_PORT_NAME, port_value = 9\<rparr>]\<rparr>"

definition trio_cfg :: om_config where
  "trio_cfg = \<lparr>cp_datanodes = map trio_node [''a'', ''b'', ''c''], cp_ec = ec_to_proto trio_ec\<rparr>"

definition trio_members :: "datanode_slot list" where
  "trio_members =
     [\<lparr>ds_replica_index = 1, ds_endpoint = ''http://a:9''\<rparr>,
      \<lparr>ds_replica_index = 2, ds_endpoint = ''http://b:9''\<rparr>,
      \<lparr>ds_replica_index = 3, ds_endpoint = ''http://c:9''\<rparr>]"

lemma trio_profile: "profile_ok (ec_profile trio_ec)" "ec_profile trio_ec = \<lparr>pr_data = 2, pr_parity = 1, pr_chunk_size = 2\<rparr>"
  by (simp_all add: ec_profile_def trio_ec_def ec_rs_def profile_ok_def cfg_ok_def inner_cfg_def)

lemma trio_cfg_valid: "cfg_valid trio_cfg trio_ec trio_members"
proof -
  have "ec_config_from_proto (cp_ec trio_cfg) = Ok trio_ec" by code_simp
  moreover have "cfg_slots trio_cfg = Ok trio_members" by code_simp
  ultimately show ?thesis by (simp add: cfg_valid_def trio_profile(1))
qed

interpretation trio: om_laws "om_submit_request md5 trio_cfg" "fx_abs trio_ec trio_members" "fx_wf trio_ec trio_members"
  by (rule fixture_om_laws [OF trio_cfg_valid])

end
