(* ===== verification/Shard_Peer.thy ===== *)
theory Shard_Peer
  imports Gateway_Backend Repair_Correct
begin

text \<open>
  What the gateway relies on from a datanode it writes shards to, as laws of the datanode client's
  calls: a shard is the chunk \<open>0\<close> of its block; a write changes the bytes of that block only, a put
  what is recorded for it; a delete leaves every other block alone; a verified read returns stored
  bytes that match the recorded checksum. The deployed datanode, called over its RPCs, keeps them.
\<close>

locale shard_peers =
  fixes crc :: "bytes \<Rightarrow> u32"
    and good :: "string \<Rightarrow> 's dn_rpc \<Rightarrow> 's \<Rightarrow> bool"
    and recorded :: "'s \<Rightarrow> block_id \<Rightarrow> checksum_data option"
    and stored :: "string \<Rightarrow> 's \<Rightarrow> block_id \<Rightarrow> bytes option"
  assumes create: "good e rpc s \<Longrightarrow> client_create_container rpc s c ec = (s', r) \<Longrightarrow>
      good e rpc s' \<and> recorded s' = recorded s \<and> stored e s' = stored e s"
    and write_chunk: "good e rpc s \<Longrightarrow> ci_chunk_name ci = ''0'' \<Longrightarrow> client_write_chunk rpc s b ci d = (s', r1) \<Longrightarrow>
      good e rpc s' \<and> recorded s' = recorded s \<and>
      stored e s' = (case r1 of Ok _ \<Rightarrow> (stored e s)(b \<mapsto> d) | _ \<Rightarrow> stored e s)"
    and put_block: "good e rpc s \<Longrightarrow> btree_wf (bd_metadata bd) \<Longrightarrow> map ci_chunk_name (bd_chunks bd) = [''0''] \<Longrightarrow>
      client_put_block rpc s bd eof = (s', r1) \<Longrightarrow>
      good e rpc s' \<and> stored e s' = stored e s \<and>
      recorded s' = (case r1 of Ok _ \<Rightarrow> (recorded s)(bd_block_id bd := ci_checksum_data (hd (bd_chunks bd))) | _ \<Rightarrow> recorded s)"
    and delete_block: "good e rpc s \<Longrightarrow> client_delete_block rpc s b = (s', r2) \<Longrightarrow>
      good e rpc s' \<and> (\<forall>b'. b' \<noteq> b \<longrightarrow> recorded s' b' = recorded s b' \<and> stored e s' b' = stored e s b')"
    and read_chunk: "good e rpc s \<Longrightarrow> client_read_chunk rpc s b shard_probe True = Ok d \<Longrightarrow>
      stored e s b = Some d \<and> (\<forall>cd. recorded s b = Some cd \<longrightarrow> verify crc d cd = Ok ())"

section \<open>The deployed datanode\<close>

definition recorded_in :: "meta_view \<Rightarrow> block_id \<Rightarrow> checksum_data option" where
  "recorded_in v b =
     Option.bind (mv_blocks v b) (\<lambda>bd.
     Option.bind (find (\<lambda>c. ci_chunk_name c = ''0'') (bd_chunks bd)) ci_checksum_data)"

definition names_ok :: "meta_view \<Rightarrow> bool" where
  "names_ok v \<longleftrightarrow> (\<forall>b bd. mv_blocks v b = Some bd \<longrightarrow> (\<forall>ci\<in>set (bd_chunks bd). ok_chunk_name (ci_chunk_name ci)))"

definition dn_good ::
    "(bytes \<Rightarrow> u32) \<Rightarrow> ('m, 'v) fjall \<Rightarrow> 'v postcard \<Rightarrow> ('m \<Rightarrow> partition \<Rightarrow> bytes \<rightharpoonup> 'v) \<Rightarrow> (string \<Rightarrow> string) \<Rightarrow> string
       \<Rightarrow> ('m, chunk_fs) dn_state dn_rpc \<Rightarrow> ('m, chunk_fs) dn_state \<Rightarrow> bool" where
  "dn_good crc F P kv root e rpc st \<longleftrightarrow>
     (\<exists>io pid build. rpc = local_rpc crc (dn_service F P io pid (root e) build)) \<and>
     fj_wf P (kv (dn_meta st)) \<and> names_ok (fj_abs P (kv (dn_meta st)))"

definition dn_recorded :: "'v postcard \<Rightarrow> ('m \<Rightarrow> partition \<Rightarrow> bytes \<rightharpoonup> 'v) \<Rightarrow> ('m, chunk_fs) dn_state \<Rightarrow> block_id \<Rightarrow> checksum_data option" where
  "dn_recorded P kv st = recorded_in (fj_abs P (kv (dn_meta st)))"

definition dn_stored :: "(string \<Rightarrow> string) \<Rightarrow> string \<Rightarrow> ('m, chunk_fs) dn_state \<Rightarrow> block_id \<Rightarrow> bytes option" where
  "dn_stored root e st b = file_view (root e) (dn_chunks st) (b, ''0'')"


lemma spec_create_container_blocks: "spec_create_container v info = Ok (v', x) \<Longrightarrow> mv_blocks v' = mv_blocks v"
  by (auto simp: spec_create_container_def split: if_splits)

lemma spec_delete_block_blocks:
  "spec_delete_block v b = Ok (v', x) \<Longrightarrow> mv_blocks v' = (mv_blocks v)(b := None)"
  by (auto simp: spec_delete_block_def split: option.splits)

context datanode begin

lemma create_container_keeps_blocks:
  assumes "mwf (dn_meta st)" "client_create_container (local_rpc crc svc) st c ec = (st', r)"
  shows "mwf (dn_meta st') \<and> dn_chunks st' = dn_chunks st \<and>
    mv_blocks (mabs (dn_meta st')) = mv_blocks (mabs (dn_meta st))"
proof (cases "ec_from_wire (ec_to_wire ec)")
  case (Ok ec')
  let ?info = "container_info_new_open c ec'"
  obtain m' r' where m: "mo_create_container (svc_meta svc) (dn_meta st) ?info = (m', r')" by fastforce
  note law = meta.create_container [OF assms(1) m]
  have "st' = st\<lparr>dn_meta := m'\<rparr>"
    using assms(2) Ok m by (cases r') (auto simp: client_create_container_def local_rpc_def dn_create_container_def rpc_upd_def
        on_meta_def container_id_from_wire_def container_id_to_wire_def Let_def)
  with law show ?thesis
    by (cases r') (auto simp: refines_step_def dest: spec_create_container_blocks)
qed (use assms in \<open>auto simp: client_create_container_def local_rpc_def dn_create_container_def rpc_upd_def Let_def\<close>)

lemma write_shard_chunk:
  assumes "ok_name (ci_chunk_name ci)" "client_write_chunk (local_rpc crc svc) st b ci d = (st', r)"
  shows "dn_meta st' = dn_meta st \<and>
    view (dn_chunks st') = (case r of Ok _ \<Rightarrow> (view (dn_chunks st))((b, ci_chunk_name ci) \<mapsto> d) | _ \<Rightarrow> view (dn_chunks st))"
proof -
  let ?check = "case ci_checksum_data ci of Some cd \<Rightarrow> map_err data_loss (verify crc d cd) | None \<Rightarrow> Ok ()"
  obtain k r' where k: "co_write (svc_chunks svc) (dn_chunks st) b ci d = (k, r')" by fastforce
  have np: "r' \<noteq> Panic" using chunk.write_total [of "dn_chunks st" b ci d] k by simp
  have W: "view k = (view (dn_chunks st))((b, ci_chunk_name ci) \<mapsto> d)" if "r' = Ok ()"
    using chunk.write_Ok [of "dn_chunks st" b ci d k "()"] k that assms(1) by simp
  have E: "view k = view (dn_chunks st)" if "r' = Err e" for e
    using chunk.write_Err [of "dn_chunks st" b ci d k e] k that by simp
  have run: "rpc_upd (try_st st ?check (\<lambda>_. try_upd (st\<lparr>dn_chunks := k\<rparr>, map_err storage_status r')
      (\<lambda>st' _. (st', Ok (of_nat (length d)))))) = (st', r)"
    using assms(2) k by (simp add: client_write_chunk_local on_chunks_def del: option.case_distrib)
  show ?thesis
  proof (cases ?check)
    case (Ok u)
    show ?thesis
    proof (cases r')
      case (Ok u')
      with run \<open>?check = Ok u\<close> W show ?thesis by (auto simp: rpc_upd_def)
    next
      case (Err e)
      with run \<open>?check = Ok u\<close> E show ?thesis by (auto simp: rpc_upd_def)
    qed (use np in simp)
  qed (use run in \<open>auto simp: rpc_upd_def\<close>)
qed

lemma put_block_outcome:
  assumes "mwf (dn_meta st)" "btree_wf (bd_metadata bd)" "client_put_block (local_rpc crc svc) st bd eof = (st', r)"
  shows "mwf (dn_meta st') \<and> dn_chunks st' = dn_chunks st \<and>
    mv_blocks (mabs (dn_meta st')) =
      (case r of Ok _ \<Rightarrow> (mv_blocks (mabs (dn_meta st)))(bd_block_id bd \<mapsto> bd) | _ \<Rightarrow> mv_blocks (mabs (dn_meta st)))"
proof -
  obtain m' r' where m: "mo_put_block (svc_meta svc) (dn_meta st) bd = (m', r')" by fastforce
  have st': "st' = st\<lparr>dn_meta := m'\<rparr>" "r = map_err Rpc (map_err storage_status r')"
    using assms(3) m block_data_from_wire_to_wire [OF assms(2)]
    by (cases r'; auto simp: client_put_block_def rpc_upd_def local_rpc_def dn_put_block_def on_meta_def res_simps)+
  have law: "mwf m'" "refines_step (spec_put_block (mabs (dn_meta st)) bd) (mabs (dn_meta st)) (mabs m') r'"
    using meta.put_block [OF assms(1) m] by simp_all
  show ?thesis
  proof (cases r')
    case (Ok n)
    with law have "spec_put_block (mabs (dn_meta st)) bd = Ok (mabs m', n)" by (simp add: refines_step_def)
    then have "mv_blocks (mabs m') = (mv_blocks (mabs (dn_meta st)))(bd_block_id bd \<mapsto> bd)" by (rule spec_put_block_Ok)
    with Ok st' law show ?thesis by simp
  next
    case (Err e)
    with law st' show ?thesis by (simp add: refines_step_def)
  qed (use law in \<open>simp add: refines_step_def\<close>)
qed

end


lemma recorded_in_cong: "mv_blocks v b = mv_blocks v' b \<Longrightarrow> recorded_in v b = recorded_in v' b"
  by (simp add: recorded_in_def)

lemma deployed_shard_peers:
  assumes "fjall_contract F P kv"
  shows "shard_peers crc (dn_good crc F P kv root) (dn_recorded P kv) (dn_stored root)"
proof -
  let ?svc = "\<lambda>e io pid build. dn_service F P io pid (root e) build" and ?abs = "\<lambda>st. fj_abs P (kv (dn_meta st))"
  note dn = dn_service_datanode [OF assms]
  have nm: "ok_chunk_name ''0''" by (simp add: ok_chunk_name_def)
  show ?thesis
  proof
    fix e rpc s s' c ec and r :: "(dn_client_error, container_state) result"
    assume g: "dn_good crc F P kv root e rpc s" and run: "client_create_container rpc s c ec = (s', r)"
    then obtain io pid build where rpc: "rpc = local_rpc crc (?svc e io pid build)" by (auto simp: dn_good_def)
    have "fj_wf P (kv (dn_meta s)) \<and> names_ok (?abs s)" using g by (simp add: dn_good_def)
    with datanode.create_container_keeps_blocks [OF dn, of s crc] run rpc
    have k: "fj_wf P (kv (dn_meta s')) \<and> dn_chunks s' = dn_chunks s \<and> mv_blocks (?abs s') = mv_blocks (?abs s)" by blast
    with g rpc show "dn_good crc F P kv root e rpc s' \<and> dn_recorded P kv s' = dn_recorded P kv s \<and>
        dn_stored root e s' = dn_stored root e s"
      by (auto simp: dn_good_def names_ok_def dn_recorded_def recorded_in_def dn_stored_def fun_eq_iff)
  next
    fix e rpc s s' ci b d and r :: "(dn_client_error, u64) result"
    assume g: "dn_good crc F P kv root e rpc s" and ci: "ci_chunk_name ci = ''0''"
      and run: "client_write_chunk rpc s b ci d = (s', r)"
    then obtain io pid build where rpc: "rpc = local_rpc crc (?svc e io pid build)" by (auto simp: dn_good_def)
    from datanode.write_shard_chunk [OF dn, of ci crc io pid "root e" build s b d s' r] run rpc ci nm
    have k: "dn_meta s' = dn_meta s \<and> file_view (root e) (dn_chunks s') =
      (case r of Ok _ \<Rightarrow> (file_view (root e) (dn_chunks s))((b, ''0'') \<mapsto> d) | _ \<Rightarrow> file_view (root e) (dn_chunks s))" by (cases r) simp_all
    with g show "dn_good crc F P kv root e rpc s' \<and> dn_recorded P kv s' = dn_recorded P kv s \<and>
        dn_stored root e s' = (case r of Ok _ \<Rightarrow> (dn_stored root e s)(b \<mapsto> d) | _ \<Rightarrow> dn_stored root e s)"
      by (cases r) (auto simp: dn_good_def dn_recorded_def dn_stored_def fun_eq_iff)
  next
    fix e rpc s s' b and r :: "(dn_client_error, unit) result"
    assume g: "dn_good crc F P kv root e rpc s" and run: "client_delete_block rpc s b = (s', r)"
    then obtain io pid build where rpc: "rpc = local_rpc crc (?svc e io pid build)" by (auto simp: dn_good_def)
    have "fj_wf P (kv (dn_meta s))" "names_ok (?abs s)" using g by (simp_all add: dn_good_def)
    with datanode.delete_block_outcome [OF dn, of s crc] run rpc
    have k: "fj_wf P (kv (dn_meta s'))" "?abs s' = ?abs s \<or> spec_delete_block (?abs s) b = Ok (?abs s', ())"
      "\<forall>b' n. b' \<noteq> b \<longrightarrow> file_view (root e) (dn_chunks s') (b', n) = file_view (root e) (dn_chunks s) (b', n)"
      unfolding names_ok_def by blast+
    from k(2) have bl: "\<forall>b'. b' \<noteq> b \<longrightarrow> mv_blocks (?abs s') b' = mv_blocks (?abs s) b'" and "names_ok (?abs s')"
      using \<open>names_ok (?abs s)\<close> by (auto dest!: spec_delete_block_blocks simp: names_ok_def split: if_splits)
    then show "dn_good crc F P kv root e rpc s' \<and>
        (\<forall>b'. b' \<noteq> b \<longrightarrow> dn_recorded P kv s' b' = dn_recorded P kv s b' \<and> dn_stored root e s' b' = dn_stored root e s b')"
      using k(1,3) rpc by (auto simp: dn_good_def dn_recorded_def dn_stored_def intro!: recorded_in_cong)
  next
    fix e rpc s b d
    assume g: "dn_good crc F P kv root e rpc s" and run: "client_read_chunk rpc s b shard_probe True = Ok d"
    then obtain io pid build where rpc: "rpc = local_rpc crc (?svc e io pid build)" by (auto simp: dn_good_def)
    have wf: "fj_wf P (kv (dn_meta s))" using g by (simp add: dn_good_def)
    from run rpc have rd: "co_read (svc_chunks (?svc e io pid build)) (dn_chunks s) b shard_probe = Ok d"
      and ck: "read_check crc (?svc e io pid build) s b shard_probe True d = Ok ()"
      by (auto simp: client_read_chunk_local res_simps)
    show "dn_stored root e s b = Some d \<and> (\<forall>cd. dn_recorded P kv s b = Some cd \<longrightarrow> verify crc d cd = Ok ())"
    proof
      show "dn_stored root e s b = Some d"
        using file_store.read_Ok [of io pid "root e" "dn_chunks s" b shard_probe d] rd nm
        by (simp add: dn_stored_def shard_probe_def)
      show "\<forall>cd. dn_recorded P kv s b = Some cd \<longrightarrow> verify crc d cd = Ok ()"
      proof (intro allI impI)
        fix cd assume "dn_recorded P kv s b = Some cd"
        then obtain bd c where "mv_blocks (?abs s) b = Some bd" "find (\<lambda>c. ci_chunk_name c = ''0'') (bd_chunks bd) = Some c"
          "ci_checksum_data c = Some cd"
          by (auto simp: dn_recorded_def recorded_in_def bind_eq_Some_conv)
        with datanode.read_check_recorded [OF dn wf, of b bd shard_probe c cd crc io pid "root e" build d] ck
        show "verify crc d cd = Ok ()" by (cases "verify crc d cd") (auto simp: shard_probe_def)
      qed
    qed
  next
    fix e rpc s s' bd eof and r :: "(dn_client_error, u64) result"
    assume g: "dn_good crc F P kv root e rpc s" and md: "btree_wf (bd_metadata bd)"
      and ch: "map ci_chunk_name (bd_chunks bd) = [''0'']" and run: "client_put_block rpc s bd eof = (s', r)"
    show "dn_good crc F P kv root e rpc s' \<and> dn_stored root e s' = dn_stored root e s \<and> dn_recorded P kv s' =
      (case r of Ok _ \<Rightarrow> (dn_recorded P kv s)(bd_block_id bd := ci_checksum_data (hd (bd_chunks bd))) | _ \<Rightarrow> dn_recorded P kv s)"
    proof -
      from g obtain io pid build where rpc: "rpc = local_rpc crc (?svc e io pid build)" by (auto simp: dn_good_def)
      have wf: "fj_wf P (kv (dn_meta s))" "names_ok (?abs s)" using g by (simp_all add: dn_good_def)
      have k: "fj_wf P (kv (dn_meta s'))" "dn_chunks s' = dn_chunks s" "mv_blocks (?abs s') =
          (case r of Ok _ \<Rightarrow> (mv_blocks (?abs s))(bd_block_id bd \<mapsto> bd) | _ \<Rightarrow> mv_blocks (?abs s))"
        using datanode.put_block_outcome [OF dn wf(1) md run [unfolded rpc]] by simp_all
      obtain ci where ci: "bd_chunks bd = [ci]" "ci_chunk_name ci = ''0''" using ch by (auto simp: map_eq_Cons_conv)
      have "names_ok (?abs s')" using k(3) wf(2) ci nm by (cases r) (auto simp: names_ok_def split: if_splits)
      moreover have "dn_recorded P kv s' =
        (case r of Ok _ \<Rightarrow> (dn_recorded P kv s)(bd_block_id bd := ci_checksum_data ci) | _ \<Rightarrow> dn_recorded P kv s)"
        using k(3) ci by (cases r) (auto simp: dn_recorded_def recorded_in_def)
      ultimately show ?thesis using k rpc ci by (cases r) (auto simp: dn_good_def dn_stored_def fun_eq_iff)
    qed
  qed
qed


interpretation mem_peers: shard_peers crc "dn_good crc mem_keyspace mem_postcard mem_kv root"
  "dn_recorded mem_postcard mem_kv" "dn_stored root"
  by (rule deployed_shard_peers [OF mem.fjall_contract_axioms])

end
