(* ===== verification/Gateway_Correct.thy ===== *)
theory Gateway_Correct
  imports Om_Laws Shard_Peer
begin

text \<open>
  The gateway's data path over any manager and datanodes that keep their contracts: what a put stores,
  what a get returns after shards were lost or damaged, and what put, copy and delete leave alone.
\<close>

section \<open>Composed steps\<close>

lemma try_upd_cases:
  assumes "try_upd m f = (st', r)"
  obtains (go) st1 x where "m = (st1, Ok x)" "f st1 x = (st', r)"
    | (stop) r1 where "m = (st', r1)" "\<forall>x. r1 \<noteq> Ok x" "\<forall>y. r \<noteq> Ok y"
proof (cases m)
  case (Pair st1 r1)
  with assms that show thesis by (cases r1) auto
qed

lemma try_st_cases:
  assumes "try_st st r0 f = (st', r)"
  obtains (go) x where "r0 = Ok x" "f x = (st', r)" | (stop) "st' = st" "\<forall>x. r0 \<noteq> Ok x" "\<forall>y. r \<noteq> Ok y"
  using assms by (cases r0) auto

section \<open>Shards on the network\<close>

definition shard_id :: "block_location \<Rightarrow> nat \<Rightarrow> block_id" where
  "shard_id block slot = block_id_ec (bl_container_id block) (bl_local_id block) (of_nat slot)"

text \<open>What a read of one slot returns, if anything.\<close>

definition peek :: "'s network \<Rightarrow> block_location \<Rightarrow> nat \<Rightarrow> bytes option" where
  "peek net block slot =
     (case endpoint_for_slot block (of_nat slot) of
        Ok e \<Rightarrow>
          (case net e of
             None \<Rightarrow> None
           | Some (rpc, s) \<Rightarrow> (case client_read_chunk rpc s (shard_id block slot) shard_probe True of Ok b \<Rightarrow> Some b | _ \<Rightarrow> None))
      | _ \<Rightarrow> None)"

definition pr_slots :: "block_location \<Rightarrow> nat" where
  "pr_slots block = pr_total (ec_profile (bl_ec block))"

text \<open>Enough shards of a block can be read to decode it.\<close>

definition decodable :: "'s network \<Rightarrow> block_location \<Rightarrow> bool" where
  "decodable net block \<longleftrightarrow>
     unat (ec_data (bl_ec block)) \<le> card {i. i < pr_slots block \<and> peek net block (Suc i) \<noteq> None}"

lemma gw_dn_world:
  assumes "gw_dn w e = (w', r)"
  shows "w_net w' = w_net w" "w_om w' = w_om w"
  using assms by (auto simp: gw_dn_def split: if_splits option.splits)

lemma read_shard_peek:
  assumes "read_shard block slot (w, bufs) = (w', bufs')"
  shows "w_net w' = w_net w \<and> w_om w' = w_om w \<and>
    bufs' = (case peek (w_net w) block slot of Some b \<Rightarrow> bufs[slot - 1 := Some b] | None \<Rightarrow> bufs)"
proof (cases "endpoint_for_slot block (of_nat slot)")
  case (Ok e)
  obtain w1 r where d: "gw_dn w e = (w1, r)" by fastforce
  note keeps = gw_dn_world [OF d]
  show ?thesis
  proof (cases "w_net w e")
    case None
    then show ?thesis using assms Ok d keeps by (cases r) (simp_all add: read_shard_def peek_def dn_query_def)
  next
    case (Some p)
    obtain rpc s where p: "p = (rpc, s)" by fastforce
    have "r = Ok ()" using d Some by (auto simp: gw_dn_def split: if_splits)
    then show ?thesis
      using assms Ok d keeps Some p
      by (cases "client_read_chunk rpc s (shard_id block slot) shard_probe True")
        (simp_all add: read_shard_def peek_def dn_query_def shard_id_def)
  qed
qed (use assms in \<open>auto simp: read_shard_def peek_def\<close>)

lemma read_shards_peek:
  assumes "m \<le> n"
  shows "\<exists>w' bufs. foldl (\<lambda>wb slot. read_shard block slot wb) (w, replicate n None) [1..<Suc m] = (w', bufs) \<and>
    w_net w' = w_net w \<and> w_om w' = w_om w \<and> length bufs = n \<and>
    (\<forall>i<n. bufs ! i = (if i < m then peek (w_net w) block (Suc i) else None))"
  using assms
proof (induction m)
  case (Suc m)
  then obtain w1 bufs where f: "foldl (\<lambda>wb slot. read_shard block slot wb) (w, replicate n None) [1..<Suc m] = (w1, bufs)"
    "w_net w1 = w_net w" "w_om w1 = w_om w" "length bufs = n"
    "\<forall>i<n. bufs ! i = (if i < m then peek (w_net w) block (Suc i) else None)"
    by auto
  obtain w2 bufs2 where r: "read_shard block (Suc m) (w1, bufs) = (w2, bufs2)" by fastforce
  note k = read_shard_peek [OF r]
  have "foldl (\<lambda>wb slot. read_shard block slot wb) (w, replicate n None) [1..<Suc (Suc m)] = (w2, bufs2)"
    using f(1) r by simp
  moreover have "bufs2 ! i = (if i < Suc m then peek (w_net w) block (Suc i) else None)" if "i < n" for i
    using k f(2,4,5) that Suc.prems by (cases "peek (w_net w) block (Suc m)") (auto simp: nth_list_update less_Suc_eq)
  moreover have "length bufs2 = n" using k f(4) by (cases "peek (w_net w1) block (Suc m)") simp_all
  ultimately show ?case using k f(2,3) by auto
qed simp

lemma read_block_group_peek:
  obtains w' where "read_block_group lib w block = (w', map_err GwEc (decode_object (lib_isal lib) (ec_profile (bl_ec block))
      (unat (bl_length block)) (map (\<lambda>i. peek (w_net w) block (Suc i)) [0..<pr_slots block])))"
    "w_net w' = w_net w" "w_om w' = w_om w"
proof -
  have n: "pr_data (ec_profile (bl_ec block)) + pr_parity (ec_profile (bl_ec block)) = pr_slots block"
    by (simp add: pr_slots_def pr_total_def)
  obtain w' bufs where f: "foldl (\<lambda>wb slot. read_shard block slot wb) (w, replicate (pr_slots block) None) [1..<Suc (pr_slots block)] = (w', bufs)"
    "w_net w' = w_net w" "w_om w' = w_om w" "length bufs = pr_slots block"
    "\<forall>i<pr_slots block. bufs ! i = peek (w_net w) block (Suc i)"
    using read_shards_peek [of "pr_slots block" "pr_slots block" block w] by auto
  then have "bufs = map (\<lambda>i. peek (w_net w) block (Suc i)) [0..<pr_slots block]" by (auto intro: nth_equalityI)
  with f show thesis using that by (simp add: read_block_group_def Let_def n del: upt_Suc)
qed


text \<open>
  A datanode holds a shard: its bytes are stored and the checksum computed from them is recorded.
  The datanodes of a group hold the shards the encoder makes of the group's bytes.
\<close>

type_synonym 's shard_view = "('s \<Rightarrow> block_id \<Rightarrow> checksum_data option) \<times> (string \<Rightarrow> 's \<Rightarrow> block_id \<Rightarrow> bytes option)"

definition shard_sum :: "(bytes \<Rightarrow> u32) \<Rightarrow> ec_replication_config \<Rightarrow> bytes \<Rightarrow> checksum_data" where
  "shard_sum crc ec d = the_ok (compute crc d (ec_chunk_size ec) Crc32c)"

definition holds :: "(bytes \<Rightarrow> u32) \<Rightarrow> 's shard_view \<Rightarrow> 's network \<Rightarrow> block_location \<Rightarrow> nat \<Rightarrow> bytes \<Rightarrow> bool" where
  "holds crc sv net block slot d \<longleftrightarrow>
     (\<exists>e rpc s. endpoint_for_slot block (of_nat slot) = Ok e \<and> net e = Some (rpc, s) \<and>
        snd sv e s (shard_id block slot) = Some d \<and> fst sv s (shard_id block slot) = Some (shard_sum crc (bl_ec block) d))"

definition group_held :: "(bytes \<Rightarrow> u32) \<Rightarrow> 's shard_view \<Rightarrow> 's network \<Rightarrow> block_location \<Rightarrow> bytes \<Rightarrow> bool" where
  "group_held crc sv net block D \<longleftrightarrow> bl_length block = of_nat (length D) \<and>
     (\<forall>i<pr_slots block. holds crc sv net block (Suc i) (shard_of (ec_profile (bl_ec block)) D i))"

text \<open>
  From one state of the network to a later one, a block may have lost datanodes and bytes: every
  datanode that still answers records the checksums it recorded, and the bytes it stores are the old
  ones or do not match the checksum.
\<close>

definition decayed ::
    "(bytes \<Rightarrow> u32) \<Rightarrow> (string \<Rightarrow> 's dn_rpc \<Rightarrow> 's \<Rightarrow> bool) \<Rightarrow> 's shard_view \<Rightarrow> 's network \<Rightarrow> 's network \<Rightarrow> block_location \<Rightarrow> bool" where
  "decayed crc good sv net net' block \<longleftrightarrow>
     (\<forall>slot e rpc' s'. endpoint_for_slot block (of_nat slot) = Ok e \<longrightarrow> net' e = Some (rpc', s') \<longrightarrow>
        good e rpc' s' \<and>
        (\<forall>rpc s. net e = Some (rpc, s) \<longrightarrow> fst sv s' (shard_id block slot) = fst sv s (shard_id block slot) \<and>
          (\<forall>d cd. snd sv e s' (shard_id block slot) = Some d \<longrightarrow> fst sv s (shard_id block slot) = Some cd \<longrightarrow>
             verify crc d cd = Ok () \<longrightarrow> snd sv e s (shard_id block slot) = Some d)))"

definition net_good :: "(string \<Rightarrow> 's dn_rpc \<Rightarrow> 's \<Rightarrow> bool) \<Rightarrow> 's network \<Rightarrow> bool" where
  "net_good good net \<longleftrightarrow> (\<forall>e rpc s. net e = Some (rpc, s) \<longrightarrow> good e rpc s)"

text \<open>The datanodes stay the same ones, and only the given blocks change on them.\<close>

definition changes_only :: "'s shard_view \<Rightarrow> block_id set \<Rightarrow> 's network \<Rightarrow> 's network \<Rightarrow> bool" where
  "changes_only sv B net net' \<longleftrightarrow>
     (\<forall>e. (net e = None \<longrightarrow> net' e = None) \<and>
        (\<forall>rpc s. net e = Some (rpc, s) \<longrightarrow> (\<exists>s'. net' e = Some (rpc, s') \<and>
           (\<forall>b. b \<notin> B \<longrightarrow> fst sv s' b = fst sv s b \<and> snd sv e s' b = snd sv e s b))))"

lemma changes_only_refl [simp]: "changes_only sv B net net"
  by (auto simp: changes_only_def)

lemma changes_only_trans:
  assumes "changes_only sv B n1 n2" "changes_only sv B n2 n3"
  shows "changes_only sv B n1 n3"
  unfolding changes_only_def
proof (intro allI conjI impI)
  fix e assume "n1 e = None"
  with assms show "n3 e = None" unfolding changes_only_def by blast
next
  fix e rpc s assume "n1 e = Some (rpc, s)"
  with assms(1) obtain s2 where 2: "n2 e = Some (rpc, s2)" "\<forall>b. b \<notin> B \<longrightarrow> fst sv s2 b = fst sv s b \<and> snd sv e s2 b = snd sv e s b"
    unfolding changes_only_def by blast
  with assms(2) obtain s3 where 3: "n3 e = Some (rpc, s3)" "\<forall>b. b \<notin> B \<longrightarrow> fst sv s3 b = fst sv s2 b \<and> snd sv e s3 b = snd sv e s2 b"
    unfolding changes_only_def by blast
  from 2 3 show "\<exists>s'. n3 e = Some (rpc, s') \<and> (\<forall>b. b \<notin> B \<longrightarrow> fst sv s' b = fst sv s b \<and> snd sv e s' b = snd sv e s b)" by simp
qed

lemma changes_only_mono: "changes_only sv B n1 n2 \<Longrightarrow> B \<subseteq> C \<Longrightarrow> changes_only sv C n1 n2"
  unfolding changes_only_def by (meson subsetD)

lemma holds_changes_only:
  assumes "changes_only sv B net net'" "holds crc sv net block slot d" "shard_id block slot \<notin> B"
  shows "holds crc sv net' block slot d"
proof -
  obtain e rpc s where h: "endpoint_for_slot block (of_nat slot) = Ok e" "net e = Some (rpc, s)"
    "snd sv e s (shard_id block slot) = Some d" "fst sv s (shard_id block slot) = Some (shard_sum crc (bl_ec block) d)"
    using assms(2) unfolding holds_def by blast
  obtain s' where "net' e = Some (rpc, s')" "\<forall>b. b \<notin> B \<longrightarrow> fst sv s' b = fst sv s b \<and> snd sv e s' b = snd sv e s b"
    using assms(1) h(2) unfolding changes_only_def by blast
  with h assms(3) show ?thesis unfolding holds_def by auto
qed

lemma group_held_changes_only:
  assumes "changes_only sv B net net'" "group_held crc sv net block D" "\<And>slot. shard_id block slot \<notin> B"
  shows "group_held crc sv net' block D"
  using assms(2) holds_changes_only [OF assms(1) _ assms(3)] unfolding group_held_def by blast


section \<open>The gateway's environment\<close>

locale gateway_env =
  om: om_laws ch oabs owf + peers: shard_peers "lib_crc lib" good recorded stored + coder: isal_contract "lib_isal lib"
  for ch :: "'o \<Rightarrow> om_request \<Rightarrow> 'o \<times> (status, om_response) result" and oabs :: "'o \<Rightarrow> om_view" and owf :: "'o \<Rightarrow> bool"
    and lib :: gw_libs and good :: "string \<Rightarrow> 's dn_rpc \<Rightarrow> 's \<Rightarrow> bool"
    and recorded :: "'s \<Rightarrow> block_id \<Rightarrow> checksum_data option" and stored :: "string \<Rightarrow> 's \<Rightarrow> block_id \<Rightarrow> bytes option"
begin

abbreviation held where
  "held \<equiv> group_held (lib_crc lib) (recorded, stored)"

abbreviation only where
  "only \<equiv> changes_only (recorded, stored)"

text \<open>Whatever decay leaves readable of a slot is the slot's shard.\<close>

lemma peek_held:
  assumes "held net block D" "decayed (lib_crc lib) good (recorded, stored) net net' block" "i < pr_slots block"
    "peek net' block (Suc i) = Some d"
  shows "d = shard_of (ec_profile (bl_ec block)) D i"
proof -
  let ?id = "shard_id block (Suc i)" and ?sh = "shard_of (ec_profile (bl_ec block)) D i"
  obtain e rpc s where h: "endpoint_for_slot block (of_nat (Suc i)) = Ok e" "net e = Some (rpc, s)" "stored e s ?id = Some ?sh"
    "recorded s ?id = Some (shard_sum (lib_crc lib) (bl_ec block) ?sh)"
    using assms(1,3) unfolding group_held_def holds_def by auto
  obtain rpc' s' where p: "net' e = Some (rpc', s')" "client_read_chunk rpc' s' ?id shard_probe True = Ok d"
    using assms(4) h(1) by (auto simp: peek_def split: option.splits result.splits)
  have k: "good e rpc' s'" "recorded s' ?id = recorded s ?id"
    "stored e s' ?id = Some d \<Longrightarrow> verify (lib_crc lib) d (shard_sum (lib_crc lib) (bl_ec block) ?sh) = Ok () \<Longrightarrow> stored e s ?id = Some d"
    using assms(2) h p(1) unfolding decayed_def by (auto simp del: of_nat_Suc)
  from peers.read_chunk [OF k(1) p(2)] k(2,3) h(3,4) show ?thesis by auto
qed

lemma read_block_group_held:
  assumes "held net block D" "decayed (lib_crc lib) good (recorded, stored) net (w_net w) block" "decodable (w_net w) block"
    "length D < 2 ^ 63" "profile_ok (ec_profile (bl_ec block))"
  obtains w' where "read_block_group lib w block = (w', Ok D)" "w_net w' = w_net w" "w_om w' = w_om w"
proof -
  let ?pf = "ec_profile (bl_ec block)" and ?peek = "\<lambda>i. peek (w_net w) block (Suc i)"
  obtain w' where r: "read_block_group lib w block = (w', map_err GwEc (decode_object (lib_isal lib) ?pf
      (unat (bl_length block)) (map ?peek [0..<pr_slots block])))" "w_net w' = w_net w" "w_om w' = w_om w"
    by (rule read_block_group_peek)
  have len: "unat (bl_length block) = length D"
    using assms(1,4) by (simp add: group_held_def unat_of_nat)
  have sound: "?peek i = Some (shard_of ?pf D i)" if "i < pr_slots block" "?peek i \<noteq> None" for i
    using peek_held [OF assms(1,2) that(1)] that(2) by auto
  have "{i. i < pr_slots block \<and> ?peek i \<noteq> None} = {i. i < pr_slots block \<and> ?peek i = Some (shard_of ?pf D i)}"
    using sound by auto
  then have enough: "pr_data ?pf \<le> card {i. i < pr_slots block \<and> ?peek i = Some (shard_of ?pf D i)}"
    using assms(3) by (simp add: decodable_def ec_profile_def)
  have "decode_object (lib_isal lib) ?pf (length D) (map ?peek [0..<pr_slots block]) = Ok D"
  proof (rule coder.decode_object_exact [OF assms(5,4)])
    have "{i. i < pr_slots block \<and> map ?peek [0..<pr_slots block] ! i = Some (shard_of ?pf D i)} =
        {i. i < pr_slots block \<and> ?peek i = Some (shard_of ?pf D i)}" by auto
    then show "pr_data ?pf \<le> card {i. i < pr_total ?pf \<and> map ?peek [0..<pr_slots block] ! i = Some (shard_of ?pf D i)}"
      using enough by (simp add: pr_slots_def)
    show "\<forall>i<pr_total ?pf. \<forall>b. map ?peek [0..<pr_slots block] ! i = Some b \<longrightarrow>
        b = shard_of ?pf D i \<or> length b \<noteq> length (shard_of ?pf D i)"
      using sound by (fastforce simp: pr_slots_def)
  qed (simp add: pr_slots_def)
  with r len show thesis using that by simp
qed

lemma read_blocks_held:
  assumes "list_all2 (held net) blocks parts"
    "\<forall>b\<in>set blocks. decayed (lib_crc lib) good (recorded, stored) net (w_net w) b \<and> decodable (w_net w) b \<and> profile_ok (ec_profile (bl_ec b))"
    "length (concat parts) < 2 ^ 63"
  shows "\<exists>w'. read_blocks lib blocks w out = (w', Ok (out @ concat parts)) \<and> w_net w' = w_net w \<and> w_om w' = w_om w"
  using assms
proof (induction blocks parts arbitrary: w out rule: list_all2_induct)
  case (Cons block blocks D parts)
  have "length D < 2 ^ 63" using Cons.prems(2) by simp
  with Cons obtain w1 where r: "read_block_group lib w block = (w1, Ok D)" "w_net w1 = w_net w" "w_om w1 = w_om w"
    using read_block_group_held [of net block D w] by auto
  with Cons.IH [of w1 "out @ D"] Cons.prems show ?case by auto
qed simp

end


section \<open>Writing shards\<close>

context gateway_env begin

abbreviation step where
  "step B w w' \<equiv> net_good good (w_net w') \<and> w_om w' = w_om w \<and> only B (w_net w) (w_net w')"

lemma dn_call_step:
  assumes "net_good good (w_net w)" "dn_call w e f = (w', r)"
    and "\<And>rpc s s' r'. good e rpc s \<Longrightarrow> f rpc s = (s', r') \<Longrightarrow> good e rpc s' \<and>
      (\<forall>b. b \<notin> B \<longrightarrow> recorded s' b = recorded s b \<and> stored e s' b = stored e s b)"
  shows "step B w w'" "r = Ok x \<Longrightarrow> \<exists>rpc s s'. w_net w e = Some (rpc, s) \<and> good e rpc s \<and> f rpc s = (s', Ok x) \<and> w_net w' e = Some (rpc, s')"
proof -
  have "step B w w' \<and> (r = Ok x \<longrightarrow> (\<exists>rpc s s'. w_net w e = Some (rpc, s) \<and> good e rpc s \<and> f rpc s = (s', Ok x) \<and> w_net w' e = Some (rpc, s')))"
  proof (cases "w_net w e")
    case None
    with assms(1,2) show ?thesis by (auto simp: dn_call_def)
  next
    case (Some p)
    obtain rpc s where p: "p = (rpc, s)" by fastforce
    obtain s' r' where f: "f rpc s = (s', r')" by fastforce
    have g: "good e rpc s" using assms(1) Some p by (simp add: net_good_def)
    have w': "w' = w\<lparr>w_net := (w_net w)(e \<mapsto> (rpc, s'))\<rparr>" "r = r'"
      using assms(2) Some p f by (simp_all add: dn_call_def)
    note k = assms(3) [OF g f]
    have "net_good good (w_net w')" using assms(1) k by (auto simp: w' net_good_def)
    moreover have "only B (w_net w) (w_net w')" using k Some p by (auto simp: w' changes_only_def)
    ultimately show ?thesis using w' Some p f g by auto
  qed
  then show "step B w w'" "r = Ok x \<Longrightarrow> \<exists>rpc s s'. w_net w e = Some (rpc, s) \<and> good e rpc s \<and> f rpc s = (s', Ok x) \<and> w_net w' e = Some (rpc, s')"
    by blast+
qed

lemma ensure_container_step:
  assumes "net_good good (w_net w)" "ensure_container w e c ec = (w', r)"
  shows "step B w w'"
proof -
  obtain w1 r1 where d: "dn_call w e (\<lambda>rpc s. client_create_container rpc s c ec) = (w1, r1)" by fastforce
  then have "w' = w1" using assms(2) by (auto simp: ensure_container_def split: result.splits dn_client_error.splits)
  moreover have "good e rpc s' \<and> (\<forall>b. b \<notin> B \<longrightarrow> recorded s' b = recorded s b \<and> stored e s' b = stored e s b)"
    if "good e rpc s" "client_create_container rpc s c ec = (s', r')" for rpc s s' r'
    using peers.create [OF that] by simp
  ultimately show ?thesis using dn_call_step(1) [OF assms(1) d, of B] by blast
qed

lemma write_chunk_step:
  assumes "net_good good (w_net w)" "ci_chunk_name ci = ''0''" "b \<in> B"
    "dn_call w e (\<lambda>rpc s. client_write_chunk rpc s b ci d) = (w', r)"
  shows "step B w w'" "r = Ok x \<Longrightarrow> \<exists>rpc s'. w_net w' e = Some (rpc, s') \<and> stored e s' b = Some d"
proof -
  have law: "good e rpc s' \<and> (\<forall>b. b \<notin> B \<longrightarrow> recorded s' b = recorded s b \<and> stored e s' b = stored e s b)"
    if "good e rpc s" "client_write_chunk rpc s b ci d = (s', r')" for rpc s s' r'
    using peers.write_chunk [OF that(1) assms(2) that(2)] assms(3) by (cases r') auto
  show "step B w w'" by (rule dn_call_step(1) [OF assms(1,4) law])
  show "\<exists>rpc s'. w_net w' e = Some (rpc, s') \<and> stored e s' b = Some d" if "r = Ok x"
    using dn_call_step(2) [OF assms(1,4) law that] peers.write_chunk [OF _ assms(2)] by fastforce
qed

lemma put_block_step:
  assumes "net_good good (w_net w)" "btree_wf (bd_metadata bd)" "map ci_chunk_name (bd_chunks bd) = [''0'']" "bd_block_id bd \<in> B"
    "dn_call w e (\<lambda>rpc s. client_put_block rpc s bd eof) = (w', r)"
  shows "step B w w'" "r = Ok x \<Longrightarrow> \<exists>rpc s s'. w_net w e = Some (rpc, s) \<and> w_net w' e = Some (rpc, s') \<and> stored e s' = stored e s \<and>
    recorded s' (bd_block_id bd) = ci_checksum_data (hd (bd_chunks bd))"
proof -
  have law: "good e rpc s' \<and> (\<forall>b. b \<notin> B \<longrightarrow> recorded s' b = recorded s b \<and> stored e s' b = stored e s b)"
    if "good e rpc s" "client_put_block rpc s bd eof = (s', r')" for rpc s s' r'
    using peers.put_block [OF that(1) assms(2,3) that(2)] assms(4) by (cases r') auto
  show "step B w w'" by (rule dn_call_step(1) [OF assms(1,5) law])
  show "\<exists>rpc s s'. w_net w e = Some (rpc, s) \<and> w_net w' e = Some (rpc, s') \<and> stored e s' = stored e s \<and>
    recorded s' (bd_block_id bd) = ci_checksum_data (hd (bd_chunks bd))" if "r = Ok x"
    using dn_call_step(2) [OF assms(1,5) law that] peers.put_block [OF _ assms(2,3)] by fastforce
qed

end


definition shard_at :: "encoded_shards \<Rightarrow> nat \<Rightarrow> nat \<Rightarrow> (gateway_error, bytes) result" where
  "shard_at shards k slot = (if slot \<le> k then index (es_data shards) (slot - 1) else index (es_parity shards) (slot - 1 - k))"

context gateway_env begin

lemma step_trans: "step B w w1 \<Longrightarrow> step B w1 w2 \<Longrightarrow> step B w w2"
  using changes_only_trans [of _ B] by fastforce

lemma gw_of_dn_Ok: "gw_of_dn m = (w', Ok x) \<longleftrightarrow> m = (w', Ok x)"
  by (cases m) (auto simp: gw_of_dn_def res_simps)

lemma gw_of_dn_run: "gw_of_dn m = (w', r) \<Longrightarrow> \<exists>r0. m = (w', r0) \<and> r = map_err GwDn r0"
  by (cases m) (auto simp: gw_of_dn_def)

lemma store_shard_step:
  assumes ng: "net_good good (w_net w)" and ci: "ci_chunk_name ci = ''0''"
    and bd: "btree_wf (bd_metadata bd)" "bd_chunks bd = [ci]" "bd_block_id bd \<in> B"
    and run: "try_upd (gw_of_dn (dn_call w e (\<lambda>rpc s. client_write_chunk rpc s (bd_block_id bd) ci d))) (\<lambda>w1 _.
      try_upd (gw_of_dn (dn_call w1 e (\<lambda>rpc s. client_put_block rpc s bd True))) (\<lambda>w2 _. (w2, Ok ()))) = (w', r)"
  shows "step B w w' \<and> (r = Ok u \<longrightarrow> (\<exists>rpc s'. w_net w' e = Some (rpc, s') \<and> stored e s' (bd_block_id bd) = Some d \<and>
    recorded s' (bd_block_id bd) = ci_checksum_data ci))"
proof (cases rule: try_upd_cases [OF run])
  case (1 w1 x)
  then have d1: "dn_call w e (\<lambda>rpc s. client_write_chunk rpc s (bd_block_id bd) ci d) = (w1, Ok x)"
    by (simp add: gw_of_dn_Ok)
  note s1 = write_chunk_step [OF ng ci bd(3) d1]
  have nm: "map ci_chunk_name (bd_chunks bd) = [''0'']" using bd(2) ci by simp
  obtain w2 r2 where d2: "dn_call w1 e (\<lambda>rpc s. client_put_block rpc s bd True) = (w2, r2)" by fastforce
  note s2 = put_block_step [OF conjunct1 [OF s1(1)] bd(1) nm bd(3) d2]
  have w': "w' = w2" "r = Ok u \<Longrightarrow> \<exists>y. r2 = Ok y"
    using 1(2) d2 by (cases r2; auto simp: gw_of_dn_def)+
  have "step B w w'" unfolding w'(1) by (rule step_trans [OF s1(1) s2(1)])
  moreover have "\<exists>rpc s'. w_net w' e = Some (rpc, s') \<and> stored e s' (bd_block_id bd) = Some d \<and>
      recorded s' (bd_block_id bd) = ci_checksum_data ci" if ok: "r = Ok u"
  proof -
    obtain y where "r2 = Ok y" using w'(2) ok by blast
    from s2(2) [OF this] obtain rpc s s' where 2: "w_net w1 e = Some (rpc, s)" "w_net w2 e = Some (rpc, s')"
      "stored e s' = stored e s" "recorded s' (bd_block_id bd) = ci_checksum_data (hd (bd_chunks bd))" by blast
    with s1(2) [OF refl] bd(2) w'(1) show ?thesis by auto
  qed
  ultimately show ?thesis by blast
next
  case (2 r1)
  then obtain r0 where d1: "dn_call w e (\<lambda>rpc s. client_write_chunk rpc s (bd_block_id bd) ci d) = (w', r0)"
    by (auto dest!: gw_of_dn_run)
  from write_chunk_step(1) [OF ng ci bd(3) d1] 2(3) show ?thesis by blast
qed

lemma write_shard_step:
  assumes ng: "net_good good (w_net w)" and run: "write_shard lib block ec seg_len shards slot w = (w', r)"
    and B: "shard_id block slot \<in> B" and sh: "shard_at shards (unat (ec_data ec)) slot = Ok shard" and ec: "bl_ec block = ec"
  shows "step B w w' \<and> (r = Ok u \<longrightarrow> holds (lib_crc lib) (recorded, stored) (w_net w') block slot shard)"
proof -
  let ?c = "bl_container_id block" and ?id = "shard_id block slot" and ?cd = "shard_sum (lib_crc lib) ec shard"
  let ?ci = "\<lparr>ci_chunk_name = ''0'', ci_offset = 0, ci_len = of_nat (length shard), ci_checksum_data = Some ?cd, ci_stripe_checksum = None\<rparr>"
  let ?bd = "set_block_group_len ((block_data_new ?id)\<lparr>bd_chunks := bd_chunks (block_data_new ?id) @ [?ci]\<rparr>) (of_nat seg_len)"
  have cd: "compute (lib_crc lib) shard (ec_chunk_size ec) Crc32c = Ok ?cd"
    unfolding shard_sum_def by (rule compute_crc32c)
  have bd: "btree_wf (bd_metadata ?bd)" "bd_chunks ?bd = [?ci]" "bd_block_id ?bd = ?id"
    by (simp_all add: set_block_group_len_def block_data_new_def btree_wf_insert btree_wf_def)
  have nm: "ci_chunk_name ?ci = ''0''" by simp
  have run': "try_st w (endpoint_for_slot block (of_nat slot)) (\<lambda>e.
      try_upd (gw_dn w e) (\<lambda>w1 _.
      try_upd (ensure_container w1 e ?c ec) (\<lambda>w2 _.
      try_upd (gw_of_dn (dn_call w2 e (\<lambda>rpc s. client_write_chunk rpc s ?id ?ci shard))) (\<lambda>w3 _.
      try_upd (gw_of_dn (dn_call w3 e (\<lambda>rpc s. client_put_block rpc s ?bd True))) (\<lambda>w4 _. (w4, Ok ())))))) = (w', r)"
    using run sh by (simp add: write_shard_def shard_at_def shard_id_def cd Let_def split: if_splits)
  show ?thesis
  proof (cases rule: try_st_cases [OF run'])
    case (1 e)
    obtain w1 r1 where d: "gw_dn w e = (w1, r1)" by fastforce
    note s1 = gw_dn_world [OF d]
    have ng1: "net_good good (w_net w1)" using ng s1 by simp
    show ?thesis
    proof (cases rule: try_upd_cases [OF 1(2)])
      case go: (1 w1' x1)
      obtain w2 r2 where e: "ensure_container w1 e ?c ec = (w2, r2)" by fastforce
      note s2 = ensure_container_step [OF ng1 e, of B]
      have t2: "step B w w2" using s1 s2 by simp
      show ?thesis
      proof (cases r2)
        case (Ok x2)
        note s3 = store_shard_step [OF conjunct1 [OF s2] nm bd(1,2), unfolded bd(3), OF B, of e shard w' r u]
        show ?thesis using s3 go d e Ok step_trans [OF t2, of w'] 1(1) ec by (auto simp: holds_def)
      qed (use go d e t2 in auto)
    qed (use ng d s1 in auto)
  qed (use ng in simp)
qed

end


text \<open>The block ids of one block location, whatever the slot.\<close>

definition ids_of :: "block_location \<Rightarrow> block_id set" where
  "ids_of block = {b. bid_container b = bl_container_id block \<and> bid_local b = bl_local_id block}"

lemma shard_id_ids [simp]: "shard_id block slot \<in> ids_of block' \<longleftrightarrow> bl_key block = bl_key block'"
  by (auto simp: shard_id_def ids_of_def bl_key_def block_id_ec_def)

lemma shard_id_inject:
  assumes "shard_id block i = shard_id block j" "i < 256" "j < 256"
  shows "i = j"
proof -
  have "(of_nat i :: u8) = of_nat j" using assms(1) by (simp add: shard_id_def block_id_ec_def)
  then have "unat (of_nat i :: u8) = unat (of_nat j :: u8)" by (rule arg_cong)
  with assms(2,3) show ?thesis by (simp add: unat_of_nat)
qed

context gateway_env begin

lemma write_shards_step:
  assumes "net_good good (w_net w)" "write_shards lib block ec seg_len shards slots w = (w', r)" "bl_ec block = ec"
    and "\<forall>slot\<in>set slots. shard_at shards (unat (ec_data ec)) slot = Ok (S slot) \<and> slot < 256" "distinct slots"
  shows "step (ids_of block) w w' \<and> only (shard_id block ` set slots) (w_net w) (w_net w') \<and>
    (r = Ok u \<longrightarrow> (\<forall>slot\<in>set slots. holds (lib_crc lib) (recorded, stored) (w_net w') block slot (S slot)))"
  using assms
proof (induction slots arbitrary: w)
  case (Cons slot slots)
  obtain w1 r1 where d: "write_shard lib block ec seg_len shards slot w = (w1, r1)" by fastforce
  have sh: "shard_at shards (unat (ec_data ec)) slot = Ok (S slot)" using Cons.prems(4) by simp
  note s1 = write_shard_step [OF Cons.prems(1) d, of "{shard_id block slot}", OF singletonI sh Cons.prems(3)]
  have a1: "step (ids_of block) w w1" "only (shard_id block ` set (slot # slots)) (w_net w) (w_net w1)"
    using s1 changes_only_mono [of "(recorded, stored)" "{shard_id block slot}" "w_net w" "w_net w1"] by auto
  show ?case
  proof (cases r1)
    case (Ok x)
    then have run: "write_shards lib block ec seg_len shards slots w1 = (w', r)" using Cons.prems(2) d by simp
    from Cons.IH [OF conjunct1 [OF a1(1)] run Cons.prems(3)] Cons.prems(4,5)
    have 2: "step (ids_of block) w1 w'" "only (shard_id block ` set slots) (w_net w1) (w_net w')"
      "r = Ok u \<Longrightarrow> \<forall>slot\<in>set slots. holds (lib_crc lib) (recorded, stored) (w_net w') block slot (S slot)" by auto
    have "only (shard_id block ` set (slot # slots)) (w_net w1) (w_net w')"
      using changes_only_mono [OF 2(2)] by auto
    then have "only (shard_id block ` set (slot # slots)) (w_net w) (w_net w')" by (rule changes_only_trans [OF a1(2)])
    moreover have "shard_id block slot \<notin> shard_id block ` set slots"
      using shard_id_inject [of block slot] Cons.prems(4,5) by auto
    then have "holds (lib_crc lib) (recorded, stored) (w_net w') block slot (S slot)" if "r = Ok u"
      using holds_changes_only [OF 2(2)] s1 Ok by blast
    ultimately show ?thesis using step_trans [OF a1(1) 2(1)] 2(3) by auto
  qed (use Cons.prems(2) d a1 in auto)
qed auto

lemma write_block_group_step:
  assumes ng: "net_good good (w_net w)" and run: "write_block_group lib w block ec segment = (w', r)"
    and ec: "bl_ec block = ec" and pf: "profile_ok (ec_profile ec)"
  shows "step (ids_of block) w w' \<and>
    (\<forall>block'. r = Ok block' \<longrightarrow> block' = block\<lparr>bl_length := of_nat (length segment)\<rparr> \<and> held (w_net w') block' segment)"
proof -
  let ?pf = "ec_profile ec" and ?k = "unat (ec_data ec)" and ?p = "unat (ec_parity ec)"
  let ?S = "\<lambda>slot. shard_of ?pf segment (slot - 1)"
  let ?es = "\<lparr>es_data = map (shard_of ?pf segment) [0..<pr_data ?pf], es_parity = map (shard_of ?pf segment) [pr_data ?pf..<pr_total ?pf]\<rparr>"
  have pr [simp]: "pr_data ?pf = ?k" "pr_total ?pf = ?k + ?p" by (simp_all add: ec_profile_def pr_total_def)
  have small: "?k + ?p \<le> 255" using pf by (simp add: profile_ok_def cfg_ok_def inner_cfg_def ec_profile_def)
  obtain w1 r1 where d: "write_shards lib block ec (length segment) ?es [1..<Suc (?k + ?p)] w = (w1, r1)" by fastforce
  have out: "w' = w1" "r = rbind r1 (\<lambda>_. Ok (block\<lparr>bl_length := of_nat (length segment)\<rparr>))"
    using run d coder.encode_object_eq [OF pf, of segment]
    by (cases r1; simp add: write_block_group_def del: upt_Suc)+
  have at: "\<forall>slot\<in>set [1..<Suc (?k + ?p)]. shard_at ?es ?k slot = Ok (?S slot) \<and> slot < 256"
    using small by (auto simp: shard_at_def index_def)
  note s = write_shards_step [OF ng d ec at distinct_upt, of "()"]
  have "held (w_net w') (block\<lparr>bl_length := of_nat (length segment)\<rparr>) segment" if "r1 = Ok ()"
  proof -
    have all: "\<forall>slot\<in>set [1..<Suc (?k + ?p)]. holds (lib_crc lib) (recorded, stored) (w_net w1) block slot (?S slot)"
      using s that by blast
    have "holds (lib_crc lib) (recorded, stored) (w_net w1) block (Suc i) (?S (Suc i))" if "i < ?k + ?p" for i
      by (rule bspec [OF all]) (use that in \<open>auto simp del: upt_Suc\<close>)
    then have "holds (lib_crc lib) (recorded, stored) (w_net w1) block (Suc i) (shard_of ?pf segment i)" if "i < ?k + ?p" for i
      using that by simp
    then show ?thesis using ec out(1)
      by (simp add: group_held_def pr_slots_def holds_def shard_id_def endpoint_for_slot_def)
  qed
  with s out show ?thesis by (cases r1) auto
qed

end


section \<open>Writing objects\<close>

definition fresh_ids :: "om_view \<Rightarrow> block_id set" where
  "fresh_ids v = {b. ov_alloc v (bid_container b, bid_local b) = None}"

lemma ids_of_fresh: "ov_alloc v (bl_key block) = None \<Longrightarrow> ids_of block \<subseteq> fresh_ids v"
  by (auto simp: ids_of_def fresh_ids_def bl_key_def)

text \<open>
  The state of a write that started at the view \<open>v0\<close> of the manager: the blocks written and the blocks
  still to be used were handed out since then, once each, with the configuration of the open key.
\<close>

definition writing ::
    "om_view \<Rightarrow> om_view \<Rightarrow> u64 \<Rightarrow> ec_replication_config option \<Rightarrow> block_location list \<Rightarrow> block_location list \<Rightarrow> bool" where
  "writing v0 v cid ec pre blocks \<longleftrightarrow>
     ov_alloc v0 \<subseteq>\<^sub>m ov_alloc v \<and> distinct (map bl_key (blocks @ pre)) \<and>
     (\<forall>b\<in>set (blocks @ pre). placed v b \<and> ov_alloc v0 (bl_key b) = None) \<and> (\<forall>b\<in>set pre. ec = Some (bl_ec b)) \<and>
     (\<forall>e. ec = Some e \<longrightarrow> ov_session v cid = Some e \<and> profile_ok (ec_profile e))"

lemma bl_key_length [simp]: "bl_key (b\<lparr>bl_length := n\<rparr>) = bl_key b"
  by (simp add: bl_key_def)

lemma placed_length [simp]: "placed v (b\<lparr>bl_length := n\<rparr>) = placed v b"
  by (simp add: placed_def)

lemma writing_length: "writing v0 v cid ec pre (blocks @ [b]) \<Longrightarrow> writing v0 v cid ec pre (blocks @ [b\<lparr>bl_length := n\<rparr>])"
  by (auto simp: writing_def)

lemma writing_allocated:
  assumes "writing v0 v cid ec [] blocks" "handed_out v v' cid [block]" "ov_session v' = ov_session v"
  shows "writing v0 v' cid ec [] (blocks @ [block])"
proof -
  have h: "ov_alloc v \<subseteq>\<^sub>m ov_alloc v'" "ov_alloc v (bl_key block) = None" "placed v' block"
    using assms(2) by (simp_all add: handed_out_def)
  have old: "placed v b" "ov_alloc v0 (bl_key b) = None" if "b \<in> set blocks" for b
    using assms(1) that by (auto simp: writing_def)
  have "bl_key block \<notin> bl_key ` set blocks" using old(1) h(2) by (auto simp: placed_def)
  moreover have "ov_alloc v0 (bl_key block) = None"
    using assms(1) h(2) unfolding writing_def map_le_def by (metis domIff)
  moreover have "ov_alloc v0 \<subseteq>\<^sub>m ov_alloc v'" using assms(1) h(1) map_le_trans unfolding writing_def by blast
  ultimately show ?thesis
    using assms(1,3) h(3) placed_mono [OF h(1)] by (auto simp: writing_def)
qed

context gateway_env begin

lemma next_block_step:
  assumes ch: "gw_om_channel gw = ch" and owf: "owf (w_om w)" and wr: "writing v0 (oabs (w_om w)) cid ec pre blocks"
    and run: "(case pre of b # _ \<Rightarrow> (w, Ok b)
       | [] \<Rightarrow> on_om w (om_allocate_block (gw_om gw who) (w_om w) S3_VOLUME bucket key cid)) = (w1, r)"
  shows "owf (w_om w1)" "w_net w1 = w_net w"
    "r = Ok block \<Longrightarrow> ec = Some e \<Longrightarrow> writing v0 (oabs (w_om w1)) cid ec (tl pre) (blocks @ [block]) \<and> bl_ec block = e \<and>
       ov_keys (oabs (w_om w1)) = ov_keys (oabs (w_om w))"
proof -
  have "owf (w_om w1) \<and> w_net w1 = w_net w \<and> (r = Ok block \<longrightarrow> ec = Some e \<longrightarrow>
    writing v0 (oabs (w_om w1)) cid ec (tl pre) (blocks @ [block]) \<and> bl_ec block = e \<and> ov_keys (oabs (w_om w1)) = ov_keys (oabs (w_om w)))"
  proof (cases pre)
    case (Cons b pre')
    with run have "w1 = w" "r = Ok b" by simp_all
    with Cons owf wr show ?thesis by (auto simp: writing_def)
  next
    case Nil
    obtain o' r' where c: "om_allocate_block (gw_om gw who) (w_om w) S3_VOLUME bucket key cid = (o', r')" by fastforce
    have out: "w1 = w\<lparr>w_om := o'\<rparr>" "r = map_err gw_of_om r'" using run Nil c by (auto simp: on_om_def)
    have "oc_submit (gw_om gw who) = ch" using ch by (simp add: gw_om_def)
    note law = om.allocate [OF this owf c]
    show ?thesis
    proof (intro conjI impI)
      show "owf (w_om w1)" "w_net w1 = w_net w" using law out by simp_all
      assume ok: "r = Ok block" and e: "ec = Some e"
      then have "r' = Ok block" using out(2) by (cases r') simp_all
      moreover have s: "ov_session (oabs (w_om w)) cid = Some e" using wr e by (simp add: writing_def)
      ultimately have h: "handed_out (oabs (w_om w)) (oabs o') cid [block]" "ov_session (oabs o') = ov_session (oabs (w_om w))"
        using law by blast+
      then show "writing v0 (oabs (w_om w1)) cid ec (tl pre) (blocks @ [block])"
        using writing_allocated wr Nil out(1) by simp
      show "bl_ec block = e" using h s by (simp add: handed_out_def)
      show "ov_keys (oabs (w_om w1)) = ov_keys (oabs (w_om w))" using h(1) out(1) by (simp add: handed_out_def)
    qed
  qed
  then show "owf (w_om w1)" "w_net w1 = w_net w"
    "r = Ok block \<Longrightarrow> ec = Some e \<Longrightarrow> writing v0 (oabs (w_om w1)) cid ec (tl pre) (blocks @ [block]) \<and> bl_ec block = e \<and>
       ov_keys (oabs (w_om w1)) = ov_keys (oabs (w_om w))"
    by blast+
qed

end


context gateway_env begin

lemma held_others:
  assumes "only (ids_of block) net net'" "list_all2 (held net) blocks parts" "bl_key block \<notin> bl_key ` set blocks"
  shows "list_all2 (held net') blocks parts"
proof (rule list.rel_mono_strong [OF assms(2)])
  fix b D assume "b \<in> set blocks" "held net b D"
  then show "held net' b D"
    using group_held_changes_only [OF assms(1)] assms(3) by (metis image_eqI shard_id_ids)
qed

lemma write_segments_step:
  assumes "gw_om_channel gw = ch" "owf (w_om w)" "net_good good (w_net w)" "writing v0 (oabs (w_om w)) cid ec pre blocks"
    "list_all2 (held (w_net w)) blocks parts"
    "write_segments lib gw bucket key who cid ec segments pre w blocks = (w', r)"
  shows "owf (w_om w') \<and> net_good good (w_net w') \<and> only (fresh_ids v0) (w_net w) (w_net w') \<and>
    (\<forall>out. r = Ok out \<longrightarrow> list_all2 (held (w_net w')) out (parts @ segments) \<and>
      (\<exists>pre'. writing v0 (oabs (w_om w')) cid ec pre' out) \<and> ov_keys (oabs (w_om w')) = ov_keys (oabs (w_om w)))"
  using assms(2-)
proof (induction segments arbitrary: w pre blocks parts)
  case Nil
  then show ?case by auto
next
  case (Cons segment segments)
  let ?next = "case pre of b # _ \<Rightarrow> (w, Ok b)
     | [] \<Rightarrow> on_om w (om_allocate_block (gw_om gw who) (w_om w) S3_VOLUME bucket key cid)"
  obtain w1 r1 where n: "?next = (w1, r1)" by fastforce
  note s1 = next_block_step [OF assms(1) Cons.prems(1,3) n]
  have run: "try_upd (w1, r1) (\<lambda>w1 block. try_st w1 (ok_or ec (GwInternal ''open key has no EC block'')) (\<lambda>ec'.
      try_upd (write_block_group lib w1 block ec' segment) (\<lambda>w2 written.
      write_segments lib gw bucket key who cid ec segments (tl pre) w2 (blocks @ [written])))) = (w', r)"
    using Cons.prems(5) n by (simp del: try_upd_simps)
  show ?case
  proof (cases "r1", goal_cases Ok Err Panic)
    case (Ok block)
    show ?case
    proof (cases ec)
      case None
      with Ok run s1(1,2) Cons.prems(2) show ?thesis by auto
    next
      case (Some e)
      note k = s1(3) [OF Ok Some]
      have pf: "profile_ok (ec_profile e)" and fr: "ov_alloc v0 (bl_key block) = None" and new: "bl_key block \<notin> bl_key ` set blocks"
        using k Some by (auto simp: writing_def)
      obtain w2 r2 where b: "write_block_group lib w1 block e segment = (w2, r2)" by fastforce
      have ng1: "net_good good (w_net w1)" using s1(2) Cons.prems(2) by simp
      note s2 = write_block_group_step [OF ng1 b _ pf]
      have st: "step (ids_of block) w1 w2" using s2 k by blast
      have o1: "only (fresh_ids v0) (w_net w) (w_net w2)"
        using st s1(2) changes_only_mono [OF _ ids_of_fresh [OF fr]] by auto
      show ?thesis
      proof (cases r2, goal_cases Ok Err Panic)
        case (Ok written)
        have wt: "written = block\<lparr>bl_length := of_nat (length segment)\<rparr>" "held (w_net w2) written segment"
          using s2 k Ok by blast+
        have "list_all2 (held (w_net w2)) blocks parts"
          using held_others [of block "w_net w1" "w_net w2"] st s1(2) Cons.prems(4) new by simp
        with wt(2) have "list_all2 (held (w_net w2)) (blocks @ [written]) (parts @ [segment])"
          by (simp add: list_all2_appendI)
        moreover have "writing v0 (oabs (w_om w2)) cid ec (tl pre) (blocks @ [written])"
          using k st wt(1) writing_length by metis
        moreover have "owf (w_om w2)" using s1(1) st by simp
        moreover have "write_segments lib gw bucket key who cid ec segments (tl pre) w2 (blocks @ [written]) = (w', r)"
          using run \<open>r1 = Ok block\<close> Some b Ok by simp
        ultimately have ih: "owf (w_om w') \<and> net_good good (w_net w') \<and> only (fresh_ids v0) (w_net w2) (w_net w') \<and>
            (\<forall>out. r = Ok out \<longrightarrow> list_all2 (held (w_net w')) out ((parts @ [segment]) @ segments) \<and>
              (\<exists>pre'. writing v0 (oabs (w_om w')) cid ec pre' out) \<and> ov_keys (oabs (w_om w')) = ov_keys (oabs (w_om w2)))"
          using Cons.IH st by blast
        then show ?case using changes_only_trans [OF o1] k st by auto
      qed (use run \<open>r1 = Ok block\<close> Some b o1 st s1(1) in auto)
    qed
  qed (use run s1 Cons.prems(2) in auto)
qed

end


text \<open>The metadata a put commits: the caller's, with the tags under their prefix.\<close>

definition tagged :: "string_map \<Rightarrow> (string \<times> string) list \<Rightarrow> string_map" where
  "tagged metadata tags = foldl (\<lambda>m (k, v). btree_insert (TAG_META_PREFIX @ k) v m) metadata tags"

context gateway_env begin

lemma opened_writing:
  assumes "owf s'" "handed_out (oabs s) (oabs s') (ok_client_id opened) (ok_blocks opened)"
  shows "writing (oabs s) (oabs s') (ok_client_id opened) (case ok_blocks opened of [] \<Rightarrow> None | b # _ \<Rightarrow> Some (bl_ec b))
    (ok_blocks opened) []"
proof -
  have h: "ov_alloc (oabs s) \<subseteq>\<^sub>m ov_alloc (oabs s')" "distinct (map bl_key (ok_blocks opened))"
    "\<forall>b\<in>set (ok_blocks opened). ov_alloc (oabs s) (bl_key b) = None \<and> placed (oabs s') b \<and>
       ov_session (oabs s') (ok_client_id opened) = Some (bl_ec b)"
    using assms(2) by (simp_all add: handed_out_def)
  have "profile_ok (ec_profile (bl_ec b))" if "b \<in> set (ok_blocks opened)" for b
    using h(3) that om.profiles [OF assms(1), of "bl_key b"] by (auto simp: placed_def)
  with h show ?thesis by (cases "ok_blocks opened") (auto simp: writing_def)
qed

lemma allocate_and_write_step:
  assumes "gw_om_channel gw = ch" "owf (w_om w)" "net_good good (w_net w)"
    "allocate_and_write lib gw w bucket key who body multipart = (w', r)"
  shows "owf (w_om w') \<and> net_good good (w_net w') \<and> only (fresh_ids (oabs (w_om w))) (w_net w) (w_net w') \<and>
    (\<forall>blocks cid. r = Ok (blocks, cid) \<longrightarrow> list_all2 (held (w_net w')) blocks (chunks (gw_block_group_size gw) body) \<and>
      (\<exists>ec pre. writing (oabs (w_om w)) (oabs (w_om w')) cid ec pre blocks) \<and> ov_keys (oabs (w_om w')) = ov_keys (oabs (w_om w)))"
proof -
  let ?cl = "gw_om gw who" and ?len = "of_nat (length body) :: u64"
  let ?open = "case multipart of
         None \<Rightarrow> om_create_key ?cl (w_om w) S3_VOLUME bucket key None ?len
       | Some (uid, part_number) \<Rightarrow> om_create_multipart_part_key ?cl (w_om w) S3_VOLUME bucket key uid part_number None ?len"
  obtain o1 r1 where c: "?open = (o1, r1)" by fastforce
  have cl: "oc_submit ?cl = ch" using assms(1) by (simp add: gw_om_def)
  have law: "owf o1 \<and> r1 \<noteq> Panic \<and> (\<forall>opened. r1 = Ok opened \<longrightarrow>
      handed_out (oabs (w_om w)) (oabs o1) (ok_client_id opened) (ok_blocks opened))"
    using c om.create_key [OF cl assms(2)] om.create_part [OF cl assms(2)] by (auto split: option.splits prod.splits)
  show ?thesis
  proof (cases r1)
    case (Ok opened)
    let ?w1 = "w\<lparr>w_om := o1\<rparr>" and ?cid = "ok_client_id opened"
    let ?ec = "case ok_blocks opened of [] \<Rightarrow> None | b # _ \<Rightarrow> Some (bl_ec b)"
    obtain w2 r2 where s: "write_segments lib gw bucket key who ?cid ?ec (chunks (gw_block_group_size gw) body) (ok_blocks opened) ?w1 [] = (w2, r2)"
      by fastforce
    have out: "w' = w2" "r = rbind r2 (\<lambda>blocks. Ok (blocks, ?cid))"
      using assms(4) c Ok s by (cases r2; simp add: allocate_and_write_def on_om_def)+
    have wr: "writing (oabs (w_om w)) (oabs (w_om ?w1)) ?cid ?ec (ok_blocks opened) []"
      using opened_writing [of o1 "w_om w" opened] law Ok by simp
    have "owf (w_om ?w1)" "net_good good (w_net ?w1)" using law assms(3) by simp_all
    from write_segments_step [OF assms(1) this wr list.rel_intros(1) s]
    show ?thesis using law Ok out by (cases r2) (auto simp: handed_out_def)
  qed (use law c assms(3,4) in \<open>auto simp: allocate_and_write_def on_om_def\<close>)
qed

end


context gateway_env begin

lemma put_object_step:
  assumes "gw_om_channel gw = ch" "owf (w_om w)" "net_good good (w_net w)"
    "gw_put_object lib gw w bucket key who body metadata tags = (w', r)"
  shows "owf (w_om w') \<and> net_good good (w_net w') \<and> only (fresh_ids (oabs (w_om w))) (w_net w) (w_net w') \<and>
    (\<forall>etag. r = Ok etag \<longrightarrow> etag = md5_hex lib body \<and>
      (\<exists>blocks t. list_all2 (held (w_net w')) blocks (chunks (gw_block_group_size gw) body) \<and>
        (\<forall>b\<in>set blocks. placed (oabs (w_om w')) b \<and> ov_alloc (oabs (w_om w)) (bl_key b) = None) \<and>
        ov_keys (oabs (w_om w')) = (ov_keys (oabs (w_om w)))((S3_VOLUME, bucket, key) \<mapsto>
          committed_meta blocks (of_nat (length body)) (Some etag) (lib_hash_order lib (tagged metadata tags)) t)))"
proof -
  obtain w1 r1 where a: "allocate_and_write lib gw w bucket key who body None = (w1, r1)" by fastforce
  note s1 = allocate_and_write_step [OF assms(1-3) a]
  show ?thesis
  proof (cases r1)
    case (Ok bc)
    obtain blocks cid where bc: "bc = (blocks, cid)" by fastforce
    obtain ec pre where wr: "writing (oabs (w_om w)) (oabs (w_om w1)) cid ec pre blocks"
      using s1 Ok bc by blast
    then have pl: "\<forall>b\<in>set blocks. placed (oabs (w_om w1)) b" by (auto simp: writing_def)
    obtain o2 r2 where c: "om_commit_key (gw_om gw who) (w_om w1) S3_VOLUME bucket key cid blocks (of_nat (length body))
        (Some (md5_hex lib body)) (lib_hash_order lib (tagged metadata tags)) = (o2, r2)" by fastforce
    have "oc_submit (gw_om gw who) = ch" using assms(1) by (simp add: gw_om_def)
    note law = om.commit_key [OF this _ pl c]
    have out: "w' = w1\<lparr>w_om := o2\<rparr>" "r = rbind (map_err gw_of_om r2) (\<lambda>_. Ok (md5_hex lib body))"
      using assms(4) a Ok bc c by (cases r2; simp add: gw_put_object_def on_om_def Let_def tagged_def)+
    have k: "owf o2" "r2 = Ok () \<Longrightarrow> \<exists>t. oabs o2 = (oabs (w_om w1))\<lparr>ov_keys := (ov_keys (oabs (w_om w1)))((S3_VOLUME, bucket, key) \<mapsto>
        committed_meta blocks (of_nat (length body)) (Some (md5_hex lib body)) (lib_hash_order lib (tagged metadata tags)) t)\<rparr>"
      using law s1 by blast+
    show ?thesis
    proof (cases r2)
      case ok: (Ok u)
      then obtain t where t: "oabs o2 = (oabs (w_om w1))\<lparr>ov_keys := (ov_keys (oabs (w_om w1)))((S3_VOLUME, bucket, key) \<mapsto>
        committed_meta blocks (of_nat (length body)) (Some (md5_hex lib body)) (lib_hash_order lib (tagged metadata tags)) t)\<rparr>"
        using k(2) by auto
      have "\<forall>b\<in>set blocks. placed (oabs o2) b \<and> ov_alloc (oabs (w_om w)) (bl_key b) = None"
        using wr by (auto simp: t writing_def placed_def)
      moreover have "ov_keys (oabs o2) = (ov_keys (oabs (w_om w)))((S3_VOLUME, bucket, key) \<mapsto>
          committed_meta blocks (of_nat (length body)) (Some (md5_hex lib body)) (lib_hash_order lib (tagged metadata tags)) t)"
        using s1 Ok bc by (simp add: t)
      ultimately show ?thesis using s1 Ok bc out k(1) ok by auto
    qed (use s1 out k(1) in auto)
  qed (use s1 a assms(4) in \<open>auto simp: gw_put_object_def\<close>)
qed

text \<open>Reading an object whose groups were held by an earlier network that has decayed since.\<close>

lemma get_object_held:
  assumes "gw_om_channel gw = ch" "owf (w_om w)" "om_get_key_info (gw_om gw who) (w_om w) S3_VOLUME bucket key = (o', Ok meta)"
    "list_all2 (held net) (km_blocks meta) parts" "length (concat parts) < 2 ^ 63" "unat (km_size meta) < 2 ^ 63"
    "\<forall>b\<in>set (km_blocks meta). decayed (lib_crc lib) good (recorded, stored) net (w_net w) b \<and> decodable (w_net w) b"
  obtains w' where "gw_get_object lib gw w bucket key who = (w', Ok (concat parts, case km_etag meta of Some e \<Rightarrow> e | None \<Rightarrow> [],
    btree_collect (km_metadata meta), km_modification_time meta))"
proof -
  have "oc_submit (gw_om gw who) = ch" using assms(1) by (simp add: gw_om_def)
  note law = om.get_key_info [OF this assms(2,3)]
  have "profile_ok (ec_profile (bl_ec b))" if "b \<in> set (km_blocks meta)" for b
    using om.keys_placed [OF assms(2) _ that] om.profiles [OF assms(2), of "bl_key b"] law by (auto simp: placed_def)
  with assms(7) have "\<forall>b\<in>set (km_blocks meta). decayed (lib_crc lib) good (recorded, stored) net (w_net (w\<lparr>w_om := o'\<rparr>)) b \<and>
      decodable (w_net (w\<lparr>w_om := o'\<rparr>)) b \<and> profile_ok (ec_profile (bl_ec b))" by simp
  from read_blocks_held [OF assms(4) this assms(5), of "[]"]
  obtain w' where "read_blocks lib (km_blocks meta) (w\<lparr>w_om := o'\<rparr>) [] = (w', Ok (concat parts))" by auto
  then have "gw_get_object lib gw w bucket key who = (w', Ok (concat parts, case km_etag meta of Some e \<Rightarrow> e | None \<Rightarrow> [],
    btree_collect (km_metadata meta), km_modification_time meta))"
    using assms(3,6) by (simp add: gw_get_object_def on_om_def with_capacity_def)
  then show thesis by (rule that)
qed

end


section \<open>The deployed system\<close>

lemma deployed_gateway_env:
  assumes "om_laws ch oabs owf" "fjall_contract F P kv" "isal_contract (lib_isal lib)"
  shows "gateway_env ch oabs owf lib (dn_good (lib_crc lib) F P kv root) (dn_recorded P kv) (dn_stored root)"
  using assms(1,3) deployed_shard_peers [OF assms(2), of "lib_crc lib" root] by (simp add: gateway_env_def)

definition trio_lib :: gw_libs where
  "trio_lib = \<lparr>lib_isal = isal_ref, lib_crc = sum_digest, lib_md5 = (\<lambda>d. [of_nat (length d)]), lib_hash_order = (\<lambda>m. m)\<rparr>"

interpretation trio_env: gateway_env "om_submit_request md5 trio_cfg" "fx_abs trio_ec trio_members" "fx_wf trio_ec trio_members"
  trio_lib "dn_good sum_digest mem_keyspace mem_postcard mem_kv root" "dn_recorded mem_postcard mem_kv" "dn_stored root"
  using deployed_gateway_env [OF trio.om_laws_axioms mem.fjall_contract_axioms, where lib = trio_lib and root = root] isal_ref_contract
  by (simp add: trio_lib_def)

end
