(* ===== verification/Gateway_Live.thy ===== *)
theory Gateway_Live
  imports Gateway_Correct
begin

text \<open>
  When the gateway succeeds: with a manager that answers and has blocks to hand out, and datanodes
  that are up, whose storage does not fail and none of whose containers is closed, a put returns.
\<close>

section \<open>Storage that does not fail\<close>

definition fjall_reliable :: "('st, 'v) fjall \<Rightarrow> 'v postcard \<Rightarrow> bool" where
  "fjall_reliable F P \<longleftrightarrow>
     (\<forall>st p k. (\<exists>x. fj_get F st p k = Ok x) \<and> (\<exists>x. fj_contains_key F st p k = Ok x)) \<and>
     (\<forall>st p k v. snd (fj_insert F st p k v) = Ok ()) \<and> (\<forall>st ops. snd (fj_commit F st ops) = Ok ()) \<and>
     (\<forall>c. \<exists>v. pc_enc_container P c = Ok v) \<and> (\<forall>b. \<exists>v. pc_enc_block P b = Ok v)"

lemma mem_reliable: "fjall_reliable mem_keyspace mem_postcard"
  by (simp add: fjall_reliable_def mem_keyspace_def mem_postcard_def)

lemma reliable_create:
  assumes "fjall_contract F P kv" "fjall_reliable F P"
  shows "snd (fjall_create_container F P st info) =
    (if kv st Containers (container_key (cinfo_container_id info)) \<noteq> None then Err (ContainerExists (cinfo_container_id info)) else Ok ())"
proof -
  let ?key = "container_key (cinfo_container_id info)"
  obtain x where x: "fj_contains_key F st Containers ?key = Ok x" using assms(2) unfolding fjall_reliable_def by blast
  then have x': "x \<longleftrightarrow> kv st Containers ?key \<noteq> None" by (rule fjall_contract.contains_Ok [OF assms(1)])
  obtain v where v: "pc_enc_container P \<lparr>st_info = info, st_bcsi = 0\<rparr> = Ok v" using assms(2) unfolding fjall_reliable_def by blast
  have "snd (fj_insert F st Containers ?key v) = Ok ()" using assms(2) by (simp add: fjall_reliable_def)
  with x x' v show ?thesis by (auto simp: fjall_create_container_def fj_def fj_encode_def fj_upd_def Let_def split_beta)
qed

lemma reliable_put:
  assumes "fjall_contract F P kv" "fjall_reliable F P" "fj_wf P (kv st)"
    "live (fj_abs P (kv st)) (bid_container (bd_block_id bd))"
  shows "\<exists>n. snd (fjall_put_block F P st bd) = Ok n"
proof -
  let ?c = "bid_container (bd_block_id bd)" and ?bk = "block_key (bd_block_id bd)"
  obtain v where v: "kv st Containers (container_key ?c) = Some v"
    using assms(4) by (auto simp: live_def fj_abs_def split: option.splits)
  then obtain r where r: "pc_dec_container P v = Ok r" "mv_containers (fj_abs P (kv st)) ?c = Some (st_info r, st_bcsi r)"
    using fj_wf_container [OF assms(3)] by blast
  then have open_c: "is_writable (cinfo_state (st_info r))" using assms(4) by (auto simp: live_def is_writable_def)
  have get: "fj_get F st p k = Ok (kv st p k)" for p k
    using assms(2) fjall_contract.get_Ok [OF assms(1)] unfolding fjall_reliable_def by metis
  have prev: "\<exists>p. pc_dec_block P pv = Ok p" if "kv st Blocks ?bk = Some pv" for pv
    using fj_wf_block [OF assms(3) that] by blast
  obtain bv where bv: "pc_enc_block P bd = Ok bv" using assms(2) unfolding fjall_reliable_def by blast
  have enc: "\<exists>cv. pc_enc_container P c = Ok cv" for c using assms(2) unfolding fjall_reliable_def by blast
  have commit: "snd (fj_commit F st ops) = Ok ()" for ops using assms(2) by (simp add: fjall_reliable_def)
  let ?info = "\<lambda>i. \<lparr>st_info = i, st_bcsi = st_bcsi r + 1\<rparr>"
  have tail: "\<exists>n. snd (try_st st (fj_encode (pc_enc_container P (?info i))) (\<lambda>cv.
      try_upd (fj_upd (fj_commit F st [Insert Blocks ?bk bv, Insert Containers (container_key ?c) cv])) (\<lambda>st' _. (st', Ok (st_bcsi r + 1))))) = Ok n" for i
  proof -
    obtain cv where "pc_enc_container P (?info i) = Ok cv" using enc by blast
    moreover obtain st' where "fj_commit F st [Insert Blocks ?bk bv, Insert Containers (container_key ?c) cv] = (st', Ok ())"
      using commit by (metis prod.collapse)
    ultimately show ?thesis by (simp add: fj_encode_def fj_upd_def fj_def)
  qed
  show ?thesis
  proof (cases "kv st Blocks ?bk")
    case None
    then show ?thesis using v r(1) open_c bv tail
      by (simp add: fjall_put_block_def get fj_def fj_decode_def fj_encode_def [of "Ok bv"] Let_def)
  next
    case (Some pv)
    then obtain p where "pc_dec_block P pv = Ok p" using prev by blast
    then show ?thesis using Some v r(1) open_c bv tail
      by (simp add: fjall_put_block_def get fj_def fj_decode_def fj_encode_def [of "Ok bv"] Let_def)
  qed
qed


section \<open>Datanodes that are up\<close>

locale ready_peers = shard_peers crc good recorded stored
  for crc :: "bytes \<Rightarrow> u32" and good :: "string \<Rightarrow> 's dn_rpc \<Rightarrow> 's \<Rightarrow> bool"
    and recorded :: "'s \<Rightarrow> block_id \<Rightarrow> checksum_data option" and stored :: "string \<Rightarrow> 's \<Rightarrow> block_id \<Rightarrow> bytes option" +
  fixes ready :: "string \<Rightarrow> 's dn_rpc \<Rightarrow> 's \<Rightarrow> bool" and has :: "'s \<Rightarrow> container_id \<Rightarrow> bool"
  assumes ready_good: "ready e rpc s \<Longrightarrow> good e rpc s"
    and ready_create: "ready e rpc s \<Longrightarrow> ec_ok ec \<Longrightarrow> client_create_container rpc s c ec = (s', r) \<Longrightarrow>
      ready e rpc s' \<and> has s' c \<and> ((\<exists>x. r = Ok x) \<or> (\<exists>st. r = Err (Rpc st) \<and> status_code st = AlreadyExists))"
    and ready_write: "ready e rpc s \<Longrightarrow> (\<forall>cd. ci_checksum_data ci = Some cd \<longrightarrow> verify crc d cd = Ok ()) \<Longrightarrow>
      client_write_chunk rpc s b ci d = (s', r1) \<Longrightarrow> ready e rpc s' \<and> has s' = has s \<and> (\<exists>n. r1 = Ok n)"
    and ready_put: "ready e rpc s \<Longrightarrow> has s (bid_container (bd_block_id bd)) \<Longrightarrow> btree_wf (bd_metadata bd) \<Longrightarrow>
      map ci_chunk_name (bd_chunks bd) = [''0''] \<Longrightarrow> client_put_block rpc s bd eof = (s', r1) \<Longrightarrow>
      ready e rpc s' \<and> (\<exists>n. r1 = Ok n)"
    and ready_read: "ready e rpc s \<Longrightarrow> stored e s b = Some d \<Longrightarrow> (\<forall>cd. recorded s b = Some cd \<longrightarrow> verify crc d cd = Ok ()) \<Longrightarrow>
      client_read_chunk rpc s b shard_probe True = Ok d"
    and ready_delete: "ready e rpc s \<Longrightarrow> client_delete_block rpc s b = (s', r2) \<Longrightarrow> ready e rpc s'"

definition all_open :: "meta_view \<Rightarrow> bool" where
  "all_open v \<longleftrightarrow> (\<forall>c info i. mv_containers v c = Some (info, i) \<longrightarrow> cinfo_state info = Open)"

definition dn_ready ::
    "(bytes \<Rightarrow> u32) \<Rightarrow> ('m, 'v) fjall \<Rightarrow> 'v postcard \<Rightarrow> ('m \<Rightarrow> partition \<Rightarrow> bytes \<rightharpoonup> 'v) \<Rightarrow> (string \<Rightarrow> string) \<Rightarrow> string
       \<Rightarrow> ('m, chunk_fs) dn_state dn_rpc \<Rightarrow> ('m, chunk_fs) dn_state \<Rightarrow> bool" where
  "dn_ready crc F P kv root e rpc st \<longleftrightarrow>
     (\<exists>pid build. rpc = local_rpc crc (dn_service F P io_ok pid (root e) build)) \<and>
     fj_wf P (kv (dn_meta st)) \<and> names_ok (fj_abs P (kv (dn_meta st))) \<and> all_open (fj_abs P (kv (dn_meta st)))"

definition dn_has :: "'v postcard \<Rightarrow> ('m \<Rightarrow> partition \<Rightarrow> bytes \<rightharpoonup> 'v) \<Rightarrow> ('m, chunk_fs) dn_state \<Rightarrow> container_id \<Rightarrow> bool" where
  "dn_has P kv st c \<longleftrightarrow> mv_containers (fj_abs P (kv (dn_meta st))) c \<noteq> None"

lemma dn_ready_good: "dn_ready crc F P kv root e rpc st \<Longrightarrow> dn_good crc F P kv root e rpc st"
  by (auto simp: dn_ready_def dn_good_def)

lemma spec_create_all_open:
  assumes "spec_create_container v (container_info_new_open c ec) = Ok (v', u)" "all_open v"
  shows "all_open v'" "mv_containers v' c \<noteq> None"
  using assms by (auto simp: spec_create_container_def all_open_def container_info_new_open_def split: if_splits) blast+

lemma spec_put_all_open:
  assumes "spec_put_block v bd = Ok (v', n)" "all_open v"
  shows "all_open v'"
  using assms by (auto simp: spec_put_block_def all_open_def Let_def split: option.splits if_splits) blast+

lemma spec_delete_all_open:
  assumes "spec_delete_block v b = Ok (v', n)" "all_open v"
  shows "all_open v'"
  using assms by (auto simp: spec_delete_block_def all_open_def split: option.splits if_splits) blast+

lemma ec_wire:
  assumes "ec_ok ec"
  shows "ec_from_wire (ec_to_wire ec) = Ok ec"
proof -
  have "eq_ignore_ascii_case ''RS'' ''rs''" by code_simp
  with assms show ?thesis
    using ec_from_wire_eq_Ok [of "ec_to_wire ec" ec] by (cases "ec_codec ec") (simp add: ec_to_wire_def ec_codec_to_string_def)
qed

lemma deployed_ready_create:
  assumes F: "fjall_contract F P kv" "fjall_reliable F P" and rd: "dn_ready crc F P kv root e rpc s" and ec: "ec_ok ec"
    and run: "client_create_container rpc s c ec = (s', r)"
  shows "dn_ready crc F P kv root e rpc s' \<and> dn_has P kv s' c \<and>
    ((\<exists>x. r = Ok x) \<or> (\<exists>st. r = Err (Rpc st) \<and> status_code st = AlreadyExists))"
proof -
  obtain pid build where rpc: "rpc = local_rpc crc (dn_service F P io_ok pid (root e) build)"
    and wf: "fj_wf P (kv (dn_meta s))" "all_open (fj_abs P (kv (dn_meta s)))"
    using rd by (auto simp: dn_ready_def)
  let ?info = "container_info_new_open c ec"
  obtain m r0 where m: "fjall_create_container F P (dn_meta s) ?info = (m, r0)" by fastforce
  have r0: "r0 = (if kv (dn_meta s) Containers (container_key c) \<noteq> None then Err (ContainerExists c) else Ok ())"
    using reliable_create [OF F, of "dn_meta s" ?info] m by (simp add: container_info_new_open_def)
  have law: "fj_wf P (kv m)" "refines_step (spec_create_container (fj_abs P (kv (dn_meta s))) ?info) (fj_abs P (kv (dn_meta s))) (fj_abs P (kv m)) r0"
    using meta_store_laws.create_container [OF fjall_contract.fjall_meets_laws [OF F(1)], of "dn_meta s" ?info m r0] wf(1) m
    by (simp_all add: fjall_meta_store_def)
  have wire: "ec_from_wire (ec_to_wire ec) = Ok ec" by (rule ec_wire [OF ec])
  have out: "s' = s\<lparr>dn_meta := m\<rparr>" and st: "(\<exists>x. r = Ok x) \<or> (\<exists>st. r = Err (Rpc st) \<and> status_code st = AlreadyExists)"
    using run wire m r0 container_state_from_wire_eq_Ok [of "container_state_to_wire Open" Open]
    by (auto simp: rpc client_create_container_def local_rpc_def dn_create_container_def rpc_upd_def on_meta_def Let_def
        fjall_meta_store_def container_id_from_wire_def container_id_to_wire_def storage_status_def wire_state_msg_def split: if_splits)
  have g: "dn_good crc F P kv root e rpc s'"
    using shard_peers.create [OF deployed_shard_peers [OF F(1)] dn_ready_good [OF rd] run] by blast
  have "all_open (fj_abs P (kv m)) \<and> mv_containers (fj_abs P (kv m)) c \<noteq> None"
  proof (cases r0)
    case (Ok u)
    with law(2) have "spec_create_container (fj_abs P (kv (dn_meta s))) ?info = Ok (fj_abs P (kv m), u)" by (simp add: refines_step_def)
    from spec_create_all_open [OF this wf(2)] show ?thesis by blast
  next
    case (Err er)
    then have "fj_abs P (kv m) = fj_abs P (kv (dn_meta s))" using law(2) by (simp add: refines_step_def)
    moreover have "mv_containers (fj_abs P (kv (dn_meta s))) c \<noteq> None" using Err r0 by (simp add: fj_abs_def split: if_splits)
    ultimately show ?thesis using wf(2) by simp
  qed (use law(2) in \<open>simp add: refines_step_def\<close>)
  with g st out rpc show ?thesis by (auto simp: dn_ready_def dn_good_def dn_has_def)
qed


lemma deployed_ready_put:
  assumes F: "fjall_contract F P kv" "fjall_reliable F P" and rd: "dn_ready crc F P kv root e rpc s"
    and bd: "dn_has P kv s (bid_container (bd_block_id bd))" "btree_wf (bd_metadata bd)" "map ci_chunk_name (bd_chunks bd) = [''0'']"
    and run: "client_put_block rpc s bd eof = (s', r)"
  shows "dn_ready crc F P kv root e rpc s' \<and> (\<exists>n. r = Ok n)"
proof -
  obtain pid build where rpc: "rpc = local_rpc crc (dn_service F P io_ok pid (root e) build)"
    and wf: "fj_wf P (kv (dn_meta s))" "all_open (fj_abs P (kv (dn_meta s)))"
    using rd by (auto simp: dn_ready_def)
  have lv: "live (fj_abs P (kv (dn_meta s))) (bid_container (bd_block_id bd))"
    using bd(1) wf(2) unfolding dn_has_def all_open_def live_def by fast
  obtain m n where m: "fjall_put_block F P (dn_meta s) bd = (m, Ok n)"
    using reliable_put [OF F wf(1) lv] by (metis prod.collapse)
  have out: "s' = s\<lparr>dn_meta := m\<rparr>" "r = Ok n"
    using run m block_data_from_wire_to_wire [OF bd(2)]
    by (simp_all add: rpc client_put_block_def rpc_upd_def local_rpc_def dn_put_block_def on_meta_def fjall_meta_store_def)
  have "spec_put_block (fj_abs P (kv (dn_meta s))) bd = Ok (fj_abs P (kv m), n)"
    using meta_store_laws.put_block [OF fjall_contract.fjall_meets_laws [OF F(1)], of "dn_meta s" bd m "Ok n"] wf(1) m
    by (simp add: fjall_meta_store_def refines_step_def)
  then have "all_open (fj_abs P (kv m))" using wf(2) by (rule spec_put_all_open)
  moreover have "dn_good crc F P kv root e rpc s'"
    using shard_peers.put_block [OF deployed_shard_peers [OF F(1)] dn_ready_good [OF rd] bd(2,3) run] by blast
  ultimately show ?thesis using out rpc by (auto simp: dn_ready_def dn_good_def)
qed

lemma deployed_ready_read:
  assumes F: "fjall_contract F P kv" "fjall_reliable F P" and rd: "dn_ready crc F P kv root e rpc s"
    and st: "dn_stored root e s b = Some d" "\<forall>cd. dn_recorded P kv s b = Some cd \<longrightarrow> verify crc d cd = Ok ()"
  shows "client_read_chunk rpc s b shard_probe True = Ok d"
proof -
  obtain pid build where rpc: "rpc = local_rpc crc (dn_service F P io_ok pid (root e) build)" and wf: "fj_wf P (kv (dn_meta s))"
    using rd by (auto simp: dn_ready_def)
  have "co_read (file_chunk_store io_ok pid (root e)) (dn_chunks s) b shard_probe = Ok d"
    using disk.read_succeeds [of "root e" "dn_chunks s" b shard_probe d pid] st(1) by (simp add: dn_stored_def shard_probe_def)
  moreover have "mo_get_block (fjall_meta_store F P) (dn_meta s) b = Ok (mv_blocks (fj_abs P (kv (dn_meta s))) b)"
  proof -
    obtain x where "fj_get F (dn_meta s) Blocks (block_key b) = Ok x" using F(2) unfolding fjall_reliable_def by blast
    moreover from this have "x = kv (dn_meta s) Blocks (block_key b)" by (rule fjall_contract.get_Ok [OF F(1)])
    ultimately show ?thesis
      using fj_wf_block [OF wf, of b]
      by (cases x) (fastforce simp: fjall_meta_store_def fjall_get_block_def fj_def fj_decode_def fj_abs_def)+
  qed
  ultimately show ?thesis
    using st(2) by (auto simp: rpc client_read_chunk_local read_check_def expected_checksum_def shard_probe_def dn_recorded_def
        recorded_in_def split: option.splits)
qed

lemma deployed_ready_delete:
  assumes F: "fjall_contract F P kv" and rd: "dn_ready crc F P kv root e rpc s"
    and run: "client_delete_block rpc s b = (s', r)"
  shows "dn_ready crc F P kv root e rpc s'"
proof -
  let ?abs = "\<lambda>st. fj_abs P (kv (dn_meta st))"
  obtain pid build where rpc: "rpc = local_rpc crc (dn_service F P io_ok pid (root e) build)"
    and wf: "fj_wf P (kv (dn_meta s))" "names_ok (?abs s)" "all_open (?abs s)"
    using rd by (auto simp: dn_ready_def)
  with datanode.delete_block_outcome [OF dn_service_datanode [OF F], of s crc] run
  have "?abs s' = ?abs s \<or> spec_delete_block (?abs s) b = Ok (?abs s', ())" unfolding names_ok_def by blast
  then have "all_open (?abs s')" using spec_delete_all_open wf(3) by fastforce
  moreover have "dn_good crc F P kv root e rpc s'"
    using shard_peers.delete_block [OF deployed_shard_peers [OF F] dn_ready_good [OF rd] run] by blast
  ultimately show ?thesis using rpc by (auto simp: dn_ready_def dn_good_def)
qed

lemma deployed_ready_peers:
  assumes "fjall_contract F P kv" "fjall_reliable F P"
  shows "ready_peers crc (dn_good crc F P kv root) (dn_recorded P kv) (dn_stored root) (dn_ready crc F P kv root) (dn_has P kv)"
proof -
  note sp = deployed_shard_peers [OF assms(1), of crc root]
  have "ready_peers_axioms crc (dn_good crc F P kv root) (dn_recorded P kv) (dn_stored root) (dn_ready crc F P kv root) (dn_has P kv)"
  proof
    fix e rpc s ci d b s' and r :: "(dn_client_error, u64) result"
    assume rd: "dn_ready crc F P kv root e rpc s" and v: "\<forall>cd. ci_checksum_data ci = Some cd \<longrightarrow> verify crc d cd = Ok ()"
      and run: "client_write_chunk rpc s b ci d = (s', r)"
    then obtain pid build where rpc: "rpc = local_rpc crc (dn_service F P io_ok pid (root e) build)" by (auto simp: dn_ready_def)
    have "snd (co_write (file_chunk_store io_ok pid (root e)) (dn_chunks s) b ci d) = Ok ()" by (rule disk.write_succeeds)
    then obtain k where k: "co_write (file_chunk_store io_ok pid (root e)) (dn_chunks s) b ci d = (k, Ok ())" by (metis prod.collapse)
    have "s' = s\<lparr>dn_chunks := k\<rparr> \<and> r = Ok (of_nat (length d))"
      using run k v by (cases "ci_checksum_data ci") (simp_all add: rpc client_write_chunk_local on_chunks_def rpc_upd_def)
    with rd show "dn_ready crc F P kv root e rpc s' \<and> dn_has P kv s' = dn_has P kv s \<and> (\<exists>n. r = Ok n)"
      by (auto simp: dn_ready_def dn_has_def fun_eq_iff)
  qed ((rule dn_ready_good | rule deployed_ready_create [OF assms] | rule deployed_ready_put [OF assms]
      | rule deployed_ready_read [OF assms] | rule deployed_ready_delete [OF assms(1)]); assumption)+
  with sp show ?thesis by (simp add: ready_peers_def)
qed

interpretation mem_ready: ready_peers crc "dn_good crc mem_keyspace mem_postcard mem_kv root" "dn_recorded mem_postcard mem_kv"
  "dn_stored root" "dn_ready crc mem_keyspace mem_postcard mem_kv root" "dn_has mem_postcard mem_kv"
  by (rule deployed_ready_peers [OF mem.fjall_contract_axioms mem_reliable])


section \<open>A manager that answers\<close>

text \<open>
  What a put needs of the manager: it opens a key in a bucket it has, while it has blocks to hand out;
  looking a key up takes no bucket and no block away.
\<close>

locale om_answers = om_laws ch oabs owf
  for ch :: "'o \<Rightarrow> om_request \<Rightarrow> 'o \<times> (status, om_response) result" and oabs :: "'o \<Rightarrow> om_view" and owf :: "'o \<Rightarrow> bool" +
  fixes has_bucket :: "'o \<Rightarrow> string \<Rightarrow> string \<Rightarrow> bool" and room :: "'o \<Rightarrow> nat"
    and pool :: "ec_replication_config \<Rightarrow> datanode_slot list \<Rightarrow> bool"
  assumes create_answers: "oc_submit cl = ch \<Longrightarrow> owf s \<Longrightarrow> has_bucket s v b \<Longrightarrow> 0 < room s \<Longrightarrow> om_create_key cl s v b k None n = (s', r) \<Longrightarrow>
      \<exists>opened. r = Ok opened \<and> ok_blocks opened \<noteq> [] \<and> room s \<le> room s' + 1"
    and allocate_answers: "oc_submit cl = ch \<Longrightarrow> owf s \<Longrightarrow> 0 < room s \<Longrightarrow> om_allocate_block cl s v b k client_id = (s', r2) \<Longrightarrow>
      \<exists>block. r2 = Ok block \<and> room s \<le> room s' + 1"
    and commit_answers: "oc_submit cl = ch \<Longrightarrow> owf s \<Longrightarrow> \<forall>b\<in>set blocks. placed (oabs s) b \<Longrightarrow>
      om_commit_key cl s v b k client_id blocks n etag metadata = (s', r3) \<Longrightarrow> r3 = Ok () \<and> room s \<le> room s'"
    and get_answers: "oc_submit cl = ch \<Longrightarrow> owf s \<Longrightarrow> ov_keys (oabs s) (v, b, k) = Some meta \<Longrightarrow>
      om_get_key_info cl s v b k = (s', r4) \<Longrightarrow>
      r4 = Ok meta \<and> has_bucket s' = has_bucket s \<and> room s \<le> room s'"
    and placements: "owf s \<Longrightarrow> ov_alloc (oabs s) x = Some (ec, ms) \<Longrightarrow> pool ec ms"

text \<open>The fixture runs out of blocks only when one of its counters does.\<close>

definition fx_room :: "om_state \<Rightarrow> nat" where
  "fx_room st = min (nat (2 ^ 63 - 1 - sint (om_next_local_id st)))
     (min (nat (2 ^ 63 - 1 - sint (om_next_container_id st))) (2 ^ 64 - 1 - unat (om_next_client_id st)))"

lemma inc_u64_room: "unat w < 2 ^ 64 - 1 \<Longrightarrow> inc_u64 w = Ok (w + 1) \<and> unat (w + 1) = unat w + 1"
proof -
  assume a: "unat w < 2 ^ 64 - 1"
  then have "w \<noteq> - 1" by (auto simp: unsigned_minus_1_eq_mask mask_eq_exp_minus_1)
  then have "1 + w \<noteq> 0" by (metis add.commute eq_neg_iff_add_eq_0)
  then have "unat (w + 1) = unat w + 1" using unatSuc [of w] by (simp add: add.commute)
  with \<open>w \<noteq> - 1\<close> show ?thesis by (simp add: inc_u64_def)
qed

lemma inc_i64_room: "sint w < 2 ^ 63 - 1 \<Longrightarrow> inc_i64 w = Ok (w + 1) \<and> sint (w + 1) = sint w + 1"
  using sint_inc [of w] by (simp add: inc_i64_def)

lemma alloc_block_room:
  fixes r :: "('e, key_location) result"
  assumes "cfg_valid cfg ec members" "fx_wf ec members st" "1 \<le> sint c" "sint (om_next_local_id st) < 2 ^ 63 - 1"
    "alloc_block cfg st c = (st', r)"
  obtains loc block where "r = Ok loc" "key_location_to_block loc = Ok block" "bl_ec block = ec" "bl_members block = members"
    "st' = st\<lparr>om_next_local_id := om_next_local_id st + 1\<rparr>"
proof -
  let ?loc = "\<lparr>kl_container_id = c, kl_local_id = om_next_local_id st, kl_offset = 0, kl_length = 0, kl_pipeline = Some (pipeline_message cfg)\<rparr>"
  have "r = Ok ?loc" "st' = st\<lparr>om_next_local_id := om_next_local_id st + 1\<rparr>"
    using assms(4,5) by (auto simp: alloc_block_def inc_i64_def Let_def)
  moreover have "1 \<le> sint (om_next_local_id st)" using assms(2) by (simp add: fx_wf_def)
  then have "key_location_to_block ?loc = Ok (fx_block ec members c (om_next_local_id st))"
    using fx_location_block [OF assms(1), of ?loc] assms(3) by (simp add: fx_block_def)
  ultimately show thesis using that by (simp add: fx_block_def)
qed


lemma fixture_om_answers:
  assumes "cfg_valid cfg ec members"
  shows "om_answers (om_submit_request md5 cfg) (fx_abs ec members) (fx_wf ec members) (\<lambda>_ _ _. True) fx_room (\<lambda>ec' ms. ec' = ec \<and> ms = members)"
proof -
  have "om_answers_axioms (om_submit_request md5 cfg) (fx_abs ec members) (fx_wf ec members) (\<lambda>_ _ _. True) fx_room (\<lambda>ec' ms. ec' = ec \<and> ms = members)"
  proof
    fix cl :: "om_state om_client" and s v b k n s' r
    assume cl: "oc_submit cl = om_submit_request md5 cfg" and wf: "fx_wf ec members s" and True and rm: "0 < fx_room s"
      and run: "om_create_key cl s v b k None n = (s', r)"
    let ?ids = "s\<lparr>om_next_client_id := om_next_client_id s + 1, om_next_container_id := om_next_container_id s + 1\<rparr>"
    have inc: "inc_u64 (om_next_client_id s) = (Ok (om_next_client_id s + 1) :: (status, u64) result)"
      "inc_i64 (om_next_container_id s) = (Ok (om_next_container_id s + 1) :: (status, i64) result)"
      "unat (om_next_client_id s + 1) = unat (om_next_client_id s) + 1" "sint (om_next_container_id s + 1) = sint (om_next_container_id s) + 1"
      and l: "sint (om_next_local_id s) < 2 ^ 63 - 1"
      using rm inc_u64_room inc_i64_room by (auto simp: fx_room_def)
    have c: "1 \<le> sint (om_next_container_id s)" using wf by (simp add: fx_wf_def)
    have wf': "fx_wf ec members ?ids"
      by (rule fx_wf_mono [OF wf]) (use wf inc(4) in \<open>simp_all add: fx_wf_def fx_abs_def\<close>)
    obtain st1 and r1 :: "(status, key_location) result" where a: "alloc_block cfg ?ids (om_next_container_id s) = (st1, r1)" by fastforce
    obtain loc block where al: "r1 = Ok loc" "key_location_to_block loc = Ok block" "bl_ec block = ec" "bl_members block = members"
      "st1 = ?ids\<lparr>om_next_local_id := om_next_local_id s + 1\<rparr>"
      by (rule alloc_block_room [OF assms wf' c _ a]) (use l in simp_all)
    have "s' = st1 \<and> (\<exists>opened. r = Ok opened \<and> ok_blocks opened = [block])"
      using run cl inc(1,2) a al(1,2)
      by (auto simp: om_create_key_def fx_call_defs fx_create_key_def open_key_of_def blocks_of_key_info_def Let_def)
    moreover have "fx_room s \<le> fx_room st1 + 1"
      using inc(3,4) sint_inc [of "om_next_local_id s"] l by (simp add: fx_room_def al(5)) linarith
    ultimately show "\<exists>opened. r = Ok opened \<and> ok_blocks opened \<noteq> [] \<and> fx_room s \<le> fx_room s' + 1"
      using al by auto
  next
    fix cl :: "om_state om_client" and s v b k client_id s' r
    assume cl: "oc_submit cl = om_submit_request md5 cfg" and wf: "fx_wf ec members s" and rm: "0 < fx_room s"
      and run: "om_allocate_block cl s v b k client_id = (s', r)"
    have l: "sint (om_next_local_id s) < 2 ^ 63 - 1" using rm by (auto simp: fx_room_def)
    obtain st1 and r1 :: "(status, key_location) result" where a: "alloc_block cfg s 1 = (st1, r1)" by fastforce
    obtain loc block where al: "r1 = Ok loc" "key_location_to_block loc = Ok block" "bl_ec block = ec" "bl_members block = members"
      "st1 = s\<lparr>om_next_local_id := om_next_local_id s + 1\<rparr>"
      by (rule alloc_block_room [OF assms wf _ l a]) simp
    have "s' = st1 \<and> r = Ok block"
      using run cl a al(1,2) by (auto simp: om_allocate_block_def fx_call_defs fx_allocate_block_def key_args_of_def Let_def)
    moreover have "fx_room s \<le> fx_room st1 + 1"
      using sint_inc [of "om_next_local_id s"] l by (simp add: fx_room_def al(5)) linarith
    ultimately show "\<exists>block. r = Ok block \<and> fx_room s \<le> fx_room s' + 1"
      using al by auto
  next
    fix cl :: "om_state om_client" and s blocks v b k client_id n etag metadata s' and r :: "(om_error, unit) result"
    assume cl: "oc_submit cl = om_submit_request md5 cfg" and wf: "fx_wf ec members s"
      and pl: "\<forall>b\<in>set blocks. placed (fx_abs ec members s) b"
      and run: "om_commit_key cl s v b k client_id blocks n etag metadata = (s', r)"
    have "\<exists>ks. s' = s\<lparr>om_keys := ks\<rparr>"
      using run cl by (auto simp: om_commit_key_def fx_call_defs fx_commit_key_def key_args_of_def Let_def)
    then have "fx_room s = fx_room s'" by (auto simp: fx_room_def)
    moreover have "r = Ok ()" using fx_commit [OF assms cl wf pl run] by simp
    ultimately show "r = Ok () \<and> fx_room s \<le> fx_room s'" by simp
  next
    fix cl :: "om_state om_client" and s v b k meta s' r
    assume "oc_submit cl = om_submit_request md5 cfg" "fx_wf ec members s" "ov_keys (fx_abs ec members s) (v, b, k) = Some meta"
      "om_get_key_info cl s v b k = (s', r)"
    with fx_get [of cl md5 cfg ec members s v b k s' r] show "r = Ok meta \<and> (\<lambda>_ _. True) = (\<lambda>_ _. True) \<and> fx_room s \<le> fx_room s'" by simp
  next
    show "e = ec \<and> ms = members" if "fx_wf ec members s" "ov_alloc (fx_abs ec members s) x = Some (e, ms)" for s x e ms
      using that(2) by (auto simp: fx_abs_def split: prod.splits if_splits)
  qed
  then show ?thesis using fixture_om_laws [OF assms] by (simp add: om_answers_def)
qed

interpretation trio_answers: om_answers "om_submit_request md5 trio_cfg" "fx_abs trio_ec trio_members" "fx_wf trio_ec trio_members"
  "\<lambda>_ _ _. True" fx_room "\<lambda>ec' ms. ec' = trio_ec \<and> ms = trio_members"
  by (rule fixture_om_answers [OF trio_cfg_valid])


section \<open>The gateway returns\<close>

text \<open>Every slot of a block is on a datanode that can be reached.\<close>

definition reachable :: "'s network \<Rightarrow> block_location \<Rightarrow> bool" where
  "reachable net block \<longleftrightarrow> ec_ok (bl_ec block) \<and>
     (\<forall>i<pr_slots block. \<exists>e. endpoint_for_slot block (of_nat (Suc i)) = Ok e \<and> net e \<noteq> None)"

locale live_env =
  gateway_env ch oabs owf lib good recorded stored + om_up: om_answers ch oabs owf has_bucket room pool +
  peers_up: ready_peers "lib_crc lib" good recorded stored ready has
  for ch :: "'o \<Rightarrow> om_request \<Rightarrow> 'o \<times> (status, om_response) result" and oabs :: "'o \<Rightarrow> om_view" and owf :: "'o \<Rightarrow> bool"
    and lib :: gw_libs and good :: "string \<Rightarrow> 's dn_rpc \<Rightarrow> 's \<Rightarrow> bool"
    and recorded :: "'s \<Rightarrow> block_id \<Rightarrow> checksum_data option" and stored :: "string \<Rightarrow> 's \<Rightarrow> block_id \<Rightarrow> bytes option"
    and has_bucket :: "'o \<Rightarrow> string \<Rightarrow> string \<Rightarrow> bool" and room :: "'o \<Rightarrow> nat"
    and pool :: "ec_replication_config \<Rightarrow> datanode_slot list \<Rightarrow> bool"
    and ready :: "string \<Rightarrow> 's dn_rpc \<Rightarrow> 's \<Rightarrow> bool" and has :: "'s \<Rightarrow> container_id \<Rightarrow> bool"
begin

abbreviation up where
  "up w w' \<equiv> net_good ready (w_net w') \<and> w_om w' = w_om w \<and> dom (w_net w') = dom (w_net w)"

lemma dn_call_up:
  assumes "net_good ready (w_net w)" "w_net w e = Some (rpc, s)" "f rpc s = (s', r)" "ready e rpc s'"
  shows "dn_call w e f = (w\<lparr>w_net := (w_net w)(e \<mapsto> (rpc, s'))\<rparr>, r)" "up w (w\<lparr>w_net := (w_net w)(e \<mapsto> (rpc, s'))\<rparr>)"
  using assms by (auto simp: dn_call_def net_good_def)

lemma gw_dn_up:
  assumes "w_net w e = Some p"
  obtains w' where "gw_dn w e = (w', Ok ())" "w_net w' = w_net w" "w_om w' = w_om w"
  using assms by (cases "e \<in> set (w_channels w)") (auto simp: gw_dn_def)

lemma write_shard_up:
  assumes nr: "net_good ready (w_net w)" and ep: "endpoint_for_slot block (of_nat slot) = Ok e" "w_net w e \<noteq> None"
    and ec: "ec_ok ec" and sh: "shard_at shards (unat (ec_data ec)) slot = Ok shard"
  obtains w' where "write_shard lib block ec seg_len shards slot w = (w', Ok ())" "up w w'"
proof -
  let ?c = "bl_container_id block" and ?id = "shard_id block slot" and ?cd = "shard_sum (lib_crc lib) ec shard"
  let ?ci = "\<lparr>ci_chunk_name = ''0'', ci_offset = 0, ci_len = of_nat (length shard), ci_checksum_data = Some ?cd, ci_stripe_checksum = None\<rparr>"
  let ?bd = "set_block_group_len ((block_data_new ?id)\<lparr>bd_chunks := bd_chunks (block_data_new ?id) @ [?ci]\<rparr>) (of_nat seg_len)"
  have cd: "compute (lib_crc lib) shard (ec_chunk_size ec) Crc32c = Ok ?cd" unfolding shard_sum_def by (rule compute_crc32c)
  then have vf: "verify (lib_crc lib) shard ?cd = Ok ()" by (rule verify_compute)
  have bd: "btree_wf (bd_metadata ?bd)" "map ci_chunk_name (bd_chunks ?bd) = [''0'']" "bd_block_id ?bd = ?id" "bid_container ?id = ?c"
    by (simp_all add: set_block_group_len_def block_data_new_def btree_wf_insert btree_wf_def shard_id_def)
  obtain rpc s where s: "w_net w e = Some (rpc, s)" using ep(2) by auto
  then have rd: "ready e rpc s" using nr by (simp add: net_good_def)
  obtain w1 where w1: "gw_dn w e = (w1, Ok ())" "w_net w1 = w_net w" "w_om w1 = w_om w" by (rule gw_dn_up [OF s])
  obtain s2 r2 where c: "client_create_container rpc s ?c ec = (s2, r2)" by fastforce
  note k2 = peers_up.ready_create [OF rd ec c]
  let ?w2 = "w1\<lparr>w_net := (w_net w)(e \<mapsto> (rpc, s2))\<rparr>"
  have "ensure_container w1 e ?c ec = (?w2, Ok ())"
    using dn_call_up(1) [of w1 e rpc s "\<lambda>rpc s. client_create_container rpc s ?c ec"] c k2 w1(2) s nr
    by (auto simp: ensure_container_def split: result.splits)
  moreover obtain s3 r3 where d: "client_write_chunk rpc s2 ?id ?ci shard = (s3, r3)" by fastforce
  have rd2: "ready e rpc s2" using k2 by blast
  from peers_up.ready_write [OF rd2 _ d] vf obtain n where k3: "ready e rpc s3" "has s3 = has s2" "r3 = Ok n" by auto
  obtain s4 r4 where p: "client_put_block rpc s3 ?bd True = (s4, r4)" by fastforce
  have "has s3 (bid_container (bd_block_id ?bd))" using k2 k3(2) bd(3,4) by simp
  from peers_up.ready_put [OF k3(1) this bd(1,2) p] obtain m where k4: "ready e rpc s4" "r4 = Ok m" by blast
  let ?w4 = "w1\<lparr>w_net := (w_net w)(e \<mapsto> (rpc, s4))\<rparr>"
  have "dn_call ?w2 e (\<lambda>rpc s. client_write_chunk rpc s ?id ?ci shard) = (w1\<lparr>w_net := (w_net w)(e \<mapsto> (rpc, s3))\<rparr>, Ok n)"
    "dn_call (w1\<lparr>w_net := (w_net w)(e \<mapsto> (rpc, s3))\<rparr>) e (\<lambda>rpc s. client_put_block rpc s ?bd True) = (?w4, Ok m)"
    using d k3(3) p k4(2) by (simp_all add: dn_call_def)
  ultimately have "write_shard lib block ec seg_len shards slot w = (?w4, Ok ())"
    using ep(1) w1(1) sh by (simp add: write_shard_def shard_at_def shard_id_def cd gw_of_dn_def Let_def split: if_splits)
  moreover have "up w ?w4" using nr s k4(1) w1(3) by (auto simp: net_good_def)
  ultimately show thesis by (rule that)
qed

lemma write_shards_up:
  assumes "net_good ready (w_net w)" "ec_ok ec"
    "\<forall>slot\<in>set slots. (\<exists>e. endpoint_for_slot block (of_nat slot) = Ok e \<and> w_net w e \<noteq> None) \<and> (\<exists>sh. shard_at shards (unat (ec_data ec)) slot = Ok sh)"
  shows "\<exists>w'. write_shards lib block ec seg_len shards slots w = (w', Ok ()) \<and> up w w'"
  using assms(1,3)
proof (induction slots arbitrary: w)
  case (Cons slot slots)
  obtain e sh where e: "endpoint_for_slot block (of_nat slot) = Ok e" "w_net w e \<noteq> None" "shard_at shards (unat (ec_data ec)) slot = Ok sh"
    using Cons.prems(2) by auto
  obtain w1 where w1: "write_shard lib block ec seg_len shards slot w = (w1, Ok ())" "up w w1"
    by (rule write_shard_up [OF Cons.prems(1) e(1,2) assms(2) e(3)])
  then have "w_net w1 x \<noteq> None \<longleftrightarrow> w_net w x \<noteq> None" for x by (metis domIff)
  then obtain w2 where "write_shards lib block ec seg_len shards slots w1 = (w2, Ok ())" "up w1 w2"
    using Cons.IH [of w1] Cons.prems(2) w1(2) by (metis list.set_intros(2))
  with w1 show ?case by auto
qed simp

lemma write_block_group_up:
  assumes "net_good ready (w_net w)" "reachable (w_net w) block" "profile_ok (ec_profile (bl_ec block))"
  obtains w' where "write_block_group lib w block (bl_ec block) segment = (w', Ok (block\<lparr>bl_length := of_nat (length segment)\<rparr>))" "up w w'"
proof -
  let ?ec = "bl_ec block" and ?pf = "ec_profile (bl_ec block)" and ?k = "unat (ec_data (bl_ec block))" and ?p = "unat (ec_parity (bl_ec block))"
  let ?es = "\<lparr>es_data = map (shard_of ?pf segment) [0..<pr_data ?pf], es_parity = map (shard_of ?pf segment) [pr_data ?pf..<pr_total ?pf]\<rparr>"
  have pr [simp]: "pr_data ?pf = ?k" "pr_total ?pf = ?k + ?p" by (simp_all add: ec_profile_def pr_total_def)
  have "\<exists>e. endpoint_for_slot block (of_nat slot) = Ok e \<and> w_net w e \<noteq> None" if "slot \<in> set [1..<Suc (?k + ?p)]" for slot
    using assms(2) that by (cases slot) (auto simp: reachable_def pr_slots_def simp del: of_nat_Suc upt_Suc)
  moreover have "\<exists>sh. shard_at ?es ?k slot = Ok sh" if "slot \<in> set [1..<Suc (?k + ?p)]" for slot
    using that by (auto simp: shard_at_def index_def simp del: upt_Suc)
  moreover have "ec_ok ?ec" using assms(2) by (simp add: reachable_def)
  ultimately obtain w' where "write_shards lib block ?ec (length segment) ?es [1..<Suc (?k + ?p)] w = (w', Ok ())" "up w w'"
    using write_shards_up [OF assms(1)] by blast
  then show thesis using that coder.encode_object_eq [OF assms(3), of segment] by (simp add: write_block_group_def del: upt_Suc)
qed

end


lemma reachable_dom: "dom net = dom net' \<Longrightarrow> reachable net block \<longleftrightarrow> reachable net' block"
  unfolding reachable_def by (metis domIff)

context live_env begin

lemma ready_net_good: "net_good ready net \<Longrightarrow> net_good good net"
  using peers_up.ready_good by (auto simp: net_good_def)

lemma next_block_up:
  assumes ch: "gw_om_channel gw = ch" and owf: "owf (w_om w)" and wr: "writing v0 (oabs (w_om w)) cid (Some e) pre blocks"
    and pl: "\<forall>b\<in>set pre. pool (bl_ec b) (bl_members b)" and rm: "n < length pre + room (w_om w)"
  obtains w1 block where "(case pre of b # _ \<Rightarrow> (w, Ok b)
       | [] \<Rightarrow> on_om w (om_allocate_block (gw_om gw who) (w_om w) S3_VOLUME bucket key cid)) = (w1, Ok block)"
    "pool (bl_ec block) (bl_members block)" "n \<le> length (tl pre) + room (w_om w1)" "room (w_om w) \<le> room (w_om w1) + 1"
proof (cases pre)
  case (Cons b pre')
  then show thesis using that [of w b] pl rm by simp
next
  case Nil
  obtain o' r where c: "om_allocate_block (gw_om gw who) (w_om w) S3_VOLUME bucket key cid = (o', r)" by fastforce
  have cl: "oc_submit (gw_om gw who) = ch" using ch by (simp add: gw_om_def)
  from om_up.allocate_answers [OF cl owf _ c] rm Nil obtain block where b: "r = Ok block" "room (w_om w) \<le> room o' + 1" by auto
  have "owf o'" "placed (oabs o') block"
    using om.allocate [OF cl owf c] b(1) wr by (auto simp: writing_def handed_out_def)
  then have "pool (bl_ec block) (bl_members block)" using om_up.placements by (simp add: placed_def)
  with b show thesis using that [of "w\<lparr>w_om := o'\<rparr>" block] c rm Nil by (simp add: on_om_def)
qed

lemma write_segments_up:
  assumes "gw_om_channel gw = ch" "owf (w_om w)" "net_good ready (w_net w)" "writing v0 (oabs (w_om w)) cid (Some e) pre blocks"
    "\<forall>b\<in>set pre. pool (bl_ec b) (bl_members b)" "length segments \<le> length pre + room (w_om w)"
    "\<And>bl. pool (bl_ec bl) (bl_members bl) \<Longrightarrow> reachable (w_net w) bl"
  shows "\<exists>w' out. write_segments lib gw bucket key who cid (Some e) segments pre w blocks = (w', Ok out) \<and>
    net_good ready (w_net w') \<and> dom (w_net w') = dom (w_net w) \<and> room (w_om w) \<le> room (w_om w') + length segments"
  using assms(2-)
proof (induction segments arbitrary: w pre blocks)
  case (Cons segment segments)
  obtain w1 block where n: "(case pre of b # _ \<Rightarrow> (w, Ok b)
       | [] \<Rightarrow> on_om w (om_allocate_block (gw_om gw who) (w_om w) S3_VOLUME bucket key cid)) = (w1, Ok block)"
    "pool (bl_ec block) (bl_members block)" "length segments \<le> length (tl pre) + room (w_om w1)" "room (w_om w) \<le> room (w_om w1) + 1"
    by (rule next_block_up [OF assms(1) Cons.prems(1,3,4), of "length segments"]) (use Cons.prems(5) in simp_all)
  note s1 = next_block_step [OF assms(1) Cons.prems(1,3) n(1)]
  have k: "writing v0 (oabs (w_om w1)) cid (Some e) (tl pre) (blocks @ [block])" "bl_ec block = e"
    using s1(3) [OF refl refl] by auto
  have pf: "profile_ok (ec_profile (bl_ec block))" using k by (simp add: writing_def)
  have "net_good ready (w_net w1)" "reachable (w_net w1) block" using Cons.prems(2,6) n(2) s1(2) by auto
  then obtain w2 where b: "write_block_group lib w1 block (bl_ec block) segment = (w2, Ok (block\<lparr>bl_length := of_nat (length segment)\<rparr>))" "up w1 w2"
    by (rule write_block_group_up [OF _ _ pf])
  have "\<forall>b\<in>set (tl pre). pool (bl_ec b) (bl_members b)" using Cons.prems(4) by (cases pre) auto
  moreover have "writing v0 (oabs (w_om w2)) cid (Some e) (tl pre) (blocks @ [block\<lparr>bl_length := of_nat (length segment)\<rparr>])"
    using writing_length [OF k(1)] b(2) by simp
  moreover have "reachable (w_net w2) bl" if "pool (bl_ec bl) (bl_members bl)" for bl
    using Cons.prems(6) [OF that] reachable_dom [of "w_net w2" "w_net w" bl] b(2) s1(2) by simp
  moreover have "owf (w_om w2)" "length segments \<le> length (tl pre) + room (w_om w2)" using s1(1) b(2) n(3) by simp_all
  ultimately obtain w' out where ih: "write_segments lib gw bucket key who cid (Some e) segments (tl pre) w2
      (blocks @ [block\<lparr>bl_length := of_nat (length segment)\<rparr>]) = (w', Ok out)" "net_good ready (w_net w')" "dom (w_net w') = dom (w_net w2)"
      "room (w_om w2) \<le> room (w_om w') + length segments"
    using Cons.IH b(2) by blast
  have "write_segments lib gw bucket key who cid (Some e) (segment # segments) pre w blocks = (w', Ok out)"
    unfolding write_segments.simps n(1) using ih(1) b(1) k(2) by simp
  with ih(2-4) b(2) s1(2) n(4) show ?case by auto
qed auto

lemma put_object_up:
  assumes ch: "gw_om_channel gw = ch" and owf: "owf (w_om w)" and nr: "net_good ready (w_net w)"
    and bk: "has_bucket (w_om w) S3_VOLUME bucket"
    and rm: "0 < room (w_om w)" "length (chunks (gw_block_group_size gw) body) \<le> room (w_om w)"
    and rc: "\<And>bl. pool (bl_ec bl) (bl_members bl) \<Longrightarrow> reachable (w_net w) bl"
  shows "\<exists>w'. gw_put_object lib gw w bucket key who body metadata tags = (w', Ok (md5_hex lib body)) \<and>
    net_good ready (w_net w') \<and> dom (w_net w') = dom (w_net w) \<and>
    room (w_om w) \<le> room (w_om w') + length (chunks (gw_block_group_size gw) body) + 1"
proof -
  let ?cl = "gw_om gw who" and ?segs = "chunks (gw_block_group_size gw) body"
  have cl: "oc_submit ?cl = ch" using ch by (simp add: gw_om_def)
  obtain o1 r1 where c: "om_create_key ?cl (w_om w) S3_VOLUME bucket key None (of_nat (length body)) = (o1, r1)" by fastforce
  from om_up.create_answers [OF cl owf bk rm(1) c] obtain opened where op: "r1 = Ok opened" "ok_blocks opened \<noteq> []"
    "room (w_om w) \<le> room o1 + 1" by blast
  let ?w1 = "w\<lparr>w_om := o1\<rparr>" and ?cid = "ok_client_id opened" and ?ec = "bl_ec (hd (ok_blocks opened))"
  have law: "owf o1" "handed_out (oabs (w_om w)) (oabs o1) ?cid (ok_blocks opened)" using om.create_key [OF cl owf c] op(1) by auto
  have pools: "\<forall>bl\<in>set (ok_blocks opened). pool (bl_ec bl) (bl_members bl)"
    using law om_up.placements [OF law(1)] unfolding handed_out_def placed_def by blast
  have ec: "(case ok_blocks opened of [] \<Rightarrow> None | b # _ \<Rightarrow> Some (bl_ec b)) = Some ?ec" using op(2) by (cases "ok_blocks opened") auto
  have wr: "writing (oabs (w_om w)) (oabs (w_om ?w1)) ?cid (Some ?ec) (ok_blocks opened) []"
    using opened_writing [OF law] ec by simp
  have "length ?segs \<le> length (ok_blocks opened) + room (w_om ?w1)" using rm(2) op(2,3) by (cases "ok_blocks opened") auto
  then obtain w2 out where ws: "write_segments lib gw bucket key who ?cid (Some ?ec) ?segs (ok_blocks opened) ?w1 [] = (w2, Ok out)"
    "net_good ready (w_net w2)" "dom (w_net w2) = dom (w_net w)" "room o1 \<le> room (w_om w2) + length ?segs"
    using write_segments_up [OF ch _ _ wr pools] law(1) nr rc by fastforce
  have a: "allocate_and_write lib gw w bucket key who body None = (w2, Ok (out, ?cid))"
    using c op(1) ws(1) ec by (simp add: allocate_and_write_def on_om_def)
  note s = allocate_and_write_step [OF ch owf ready_net_good [OF nr] a]
  have pl: "\<forall>b\<in>set out. placed (oabs (w_om w2)) b" using s by (auto simp: writing_def)
  obtain o3 r3 where cm: "om_commit_key ?cl (w_om w2) S3_VOLUME bucket key ?cid out (of_nat (length body))
      (Some (md5_hex lib body)) (lib_hash_order lib (tagged metadata tags)) = (o3, r3)" by fastforce
  have "r3 = Ok () \<and> room (w_om w2) \<le> room o3" by (rule om_up.commit_answers [OF cl _ pl cm]) (use s in blast)
  with a cm ws(2-4) op(3) show ?thesis
    by (intro exI [of _ "w2\<lparr>w_om := o3\<rparr>"]) (simp add: gw_put_object_def on_om_def tagged_def Let_def)
qed

end


section \<open>Reading after datanodes were lost\<close>

text \<open>A set of datanodes holds enough slots of a block.\<close>

definition enough :: "string set \<Rightarrow> block_location \<Rightarrow> bool" where
  "enough A block \<longleftrightarrow>
     unat (ec_data (bl_ec block)) \<le> card {i. i < pr_slots block \<and> (\<exists>e\<in>A. endpoint_for_slot block (of_nat (Suc i)) = Ok e)}"

context live_env begin

lemma decayed_restrict:
  assumes "net_good good net"
  shows "decayed (lib_crc lib) good (recorded, stored) net (net |` A) block"
  using assms by (auto simp: decayed_def net_good_def restrict_map_def split: if_splits)

lemma decodable_restrict:
  assumes "held net block D" "net_good ready net" "enough A block"
  shows "decodable (net |` A) block"
proof -
  have "peek (net |` A) block (Suc i) \<noteq> None" if i: "i < pr_slots block" and e: "e \<in> A" "endpoint_for_slot block (of_nat (Suc i)) = Ok e" for i e
  proof -
    let ?id = "shard_id block (Suc i)" and ?sh = "shard_of (ec_profile (bl_ec block)) D i"
    obtain rpc s where h: "net e = Some (rpc, s)" "stored e s ?id = Some ?sh" "recorded s ?id = Some (shard_sum (lib_crc lib) (bl_ec block) ?sh)"
      using assms(1) i e(2) unfolding group_held_def holds_def by auto
    have "verify (lib_crc lib) ?sh (shard_sum (lib_crc lib) (bl_ec block) ?sh) = Ok ()"
      unfolding shard_sum_def by (rule verify_compute [OF compute_crc32c])
    then have "client_read_chunk rpc s ?id shard_probe True = Ok ?sh"
      using peers_up.ready_read [of e rpc s ?id ?sh] assms(2) h by (simp add: net_good_def)
    then show ?thesis using e h(1) by (simp add: peek_def del: of_nat_Suc)
  qed
  then have "{i. i < pr_slots block \<and> (\<exists>e\<in>A. endpoint_for_slot block (of_nat (Suc i)) = Ok e)} \<subseteq>
      {i. i < pr_slots block \<and> peek (net |` A) block (Suc i) \<noteq> None}" by blast
  from card_mono [OF _ this] assms(3) show ?thesis by (simp add: decodable_def enough_def)
qed

lemma get_object_up:
  assumes ch: "gw_om_channel gw = ch" and owf: "owf (w_om w)" and nr: "net_good ready (w_net w)"
    and meta: "ov_keys (oabs (w_om w)) (S3_VOLUME, bucket, key) = Some meta"
    and held: "list_all2 (held (w_net w)) (km_blocks meta) parts" "length (concat parts) < 2 ^ 63" "unat (km_size meta) < 2 ^ 63"
    and A: "\<And>bl. pool (bl_ec bl) (bl_members bl) \<Longrightarrow> enough A bl"
  obtains w' where "gw_get_object lib gw (w\<lparr>w_net := w_net w |` A\<rparr>) bucket key who =
    (w', Ok (concat parts, case km_etag meta of Some e \<Rightarrow> e | None \<Rightarrow> [], btree_collect (km_metadata meta), km_modification_time meta))"
proof -
  let ?w = "w\<lparr>w_net := w_net w |` A\<rparr>"
  obtain o' r where g: "om_get_key_info (gw_om gw who) (w_om ?w) S3_VOLUME bucket key = (o', r)" by fastforce
  have "oc_submit (gw_om gw who) = ch" using ch by (simp add: gw_om_def)
  from om_up.get_answers [OF this _ _ g] owf meta have r: "r = Ok meta" by simp
  have "decayed (lib_crc lib) good (recorded, stored) (w_net w) (w_net ?w) b \<and> decodable (w_net ?w) b" if mem: "b \<in> set (km_blocks meta)" for b
  proof
    show "decayed (lib_crc lib) good (recorded, stored) (w_net w) (w_net ?w) b"
      using decayed_restrict ready_net_good [OF nr] by simp
    have "placed (oabs (w_om w)) b" by (rule om.keys_placed [OF owf meta mem])
    then have "enough A b" using A om_up.placements [OF owf] by (simp add: placed_def)
    moreover obtain i where i: "i < length (km_blocks meta)" "b = km_blocks meta ! i" using mem by (auto simp: in_set_conv_nth)
    from list_all2_nthD [OF held(1) i(1)] have "held (w_net w) b (parts ! i)" by (simp add: i(2))
    ultimately show "decodable (w_net ?w) b" using decodable_restrict nr by simp
  qed
  moreover have "owf (w_om ?w)" using owf by simp
  ultimately show thesis
    using get_object_held [OF ch _ g [unfolded r] held(1) held(2,3)] that by blast
qed

end

lemma deployed_live_env:
  assumes "om_answers ch oabs owf has_bucket room pool" "fjall_contract F P kv" "fjall_reliable F P" "isal_contract (lib_isal lib)"
  shows "live_env ch oabs owf lib (dn_good (lib_crc lib) F P kv root) (dn_recorded P kv) (dn_stored root) has_bucket room pool
    (dn_ready (lib_crc lib) F P kv root) (dn_has P kv)"
proof -
  have "om_laws ch oabs owf" using assms(1) by (simp add: om_answers_def)
  from deployed_gateway_env [OF this assms(2,4), of root] deployed_ready_peers [OF assms(2,3), of "lib_crc lib" root] assms(1)
  show ?thesis by (simp add: live_env_def)
qed

interpretation trio_live: live_env "om_submit_request md5 trio_cfg" "fx_abs trio_ec trio_members" "fx_wf trio_ec trio_members"
  trio_lib "dn_good sum_digest mem_keyspace mem_postcard mem_kv root" "dn_recorded mem_postcard mem_kv" "dn_stored root"
  "\<lambda>_ _ _. True" fx_room "\<lambda>ec' ms. ec' = trio_ec \<and> ms = trio_members" "dn_ready sum_digest mem_keyspace mem_postcard mem_kv root"
  "dn_has mem_postcard mem_kv"
  using deployed_live_env [OF trio_answers.om_answers_axioms mem.fjall_contract_axioms mem_reliable, where lib = trio_lib and root = root]
    isal_ref_contract
  by (simp add: trio_lib_def)

end
