(* ===== verification/Gateway_Props.thy ===== *)
theory Gateway_Props
  imports Gateway_Live
begin

text \<open>
  The end-to-end properties of the S3 data path: objects survive the loss and the damage of shards,
  a put succeeds while its datanodes are up, and copies do not depend on their source.
\<close>

section \<open>Reads and deletes\<close>

lemma read_shards_world:
  assumes "foldl (\<lambda>wb slot. read_shard block slot wb) (w, bufs) slots = (w', bufs')"
  shows "w_net w' = w_net w \<and> w_om w' = w_om w"
  using assms
proof (induction slots arbitrary: w bufs)
  case (Cons slot slots)
  obtain w1 bufs1 where r: "read_shard block slot (w, bufs) = (w1, bufs1)" by fastforce
  with Cons.IH [of w1 bufs1] Cons.prems read_shard_peek [OF r] show ?case by simp
qed simp

lemma read_blocks_world:
  assumes "read_blocks lib blocks w out = (w', r)"
  shows "w_net w' = w_net w \<and> w_om w' = w_om w"
  using assms
proof (induction blocks arbitrary: w out)
  case (Cons block blocks)
  obtain w1 r1 where g: "read_block_group lib w block = (w1, r1)" by fastforce
  have "w_net w1 = w_net w \<and> w_om w1 = w_om w"
    by (rule read_block_group_peek [of lib w block]) (use g in simp)
  with Cons g show ?case by (cases r1) auto
qed simp

context gateway_env begin

lemma get_object_world:
  assumes "gw_om_channel gw = ch" "owf (w_om w)" "gw_get_object lib gw w bucket key who = (w', r)"
  shows "w_net w' = w_net w \<and> owf (w_om w') \<and> oabs (w_om w') = oabs (w_om w)"
proof -
  obtain o1 r1 where g: "om_get_key_info (gw_om gw who) (w_om w) S3_VOLUME bucket key = (o1, r1)" by fastforce
  have "oc_submit (gw_om gw who) = ch" using assms(1) by (simp add: gw_om_def)
  note law = om.get_key_info [OF this assms(2) g]
  show ?thesis
  proof (cases r1)
    case (Ok meta)
    obtain w2 r2 where b: "read_blocks lib (km_blocks meta) (w\<lparr>w_om := o1\<rparr>) [] = (w2, r2)" by fastforce
    have "w' = w\<lparr>w_om := o1\<rparr> \<or> w' = w2"
      using assms(3) g Ok b by (cases r2; cases "unat (km_size meta) < 2 ^ 63"; auto simp: gw_get_object_def on_om_def with_capacity_def)
    then show ?thesis using law read_blocks_world [OF b] by auto
  qed (use law g assms(3) in \<open>auto simp: gw_get_object_def on_om_def\<close>)
qed

lemma delete_shard_step:
  assumes "net_good good (w_net w)"
  shows "step (ids_of block) w (delete_shard block slot w)"
proof (cases "endpoint_for_slot block (of_nat slot)")
  case (Ok e)
  obtain w1 r where d: "gw_dn w e = (w1, r)" by fastforce
  note k = gw_dn_world [OF d]
  let ?f = "\<lambda>rpc s. client_delete_block rpc s (block_id_ec (bl_container_id block) (bl_local_id block) (of_nat slot))"
  have law: "good e rpc s' \<and> (\<forall>b. b \<notin> ids_of block \<longrightarrow> recorded s' b = recorded s b \<and> stored e s' b = stored e s b)"
    if "good e rpc s" "?f rpc s = (s', r')" for rpc s s' r'
  proof -
    have "b \<noteq> block_id_ec (bl_container_id block) (bl_local_id block) (of_nat slot)" if "b \<notin> ids_of block" for b
      using that by (auto simp: ids_of_def)
    with peers.delete_block [OF that] show ?thesis by blast
  qed
  obtain w2 r2 where c: "dn_call w1 e ?f = (w2, r2)" by fastforce
  have "net_good good (w_net w1)" using assms k by simp
  from dn_call_step(1) [OF this c law] k have "step (ids_of block) w w2" by simp
  then show ?thesis using Ok d c k assms by (cases r) (auto simp: delete_shard_def)
qed (use assms in \<open>simp_all add: delete_shard_def\<close>)

lemma delete_shards_step:
  assumes "net_good good (w_net w)"
  shows "step (ids_of block) w (foldl (\<lambda>w slot. delete_shard block slot w) w slots)"
  using assms
proof (induction slots arbitrary: w)
  case (Cons slot slots)
  note s = delete_shard_step [OF Cons.prems, of block slot]
  from step_trans [OF s Cons.IH [OF conjunct1 [OF s]]] show ?case by simp
qed simp

lemma delete_blocks_step:
  assumes "net_good good (w_net w)"
  shows "step (\<Union>(ids_of ` set blocks)) w (delete_blocks blocks w)"
  using assms
proof (induction blocks arbitrary: w)
  case (Cons block blocks)
  let ?U = "\<Union>(ids_of ` set (block # blocks))"
  let ?w1 = "foldl (\<lambda>w slot. delete_shard block slot w) w [1..<Suc (unat (ec_data (bl_ec block) + ec_parity (bl_ec block)))]"
  have s1: "step (ids_of block) w ?w1" by (rule delete_shards_step [OF Cons.prems])
  have s2: "step (\<Union>(ids_of ` set blocks)) ?w1 (delete_blocks blocks ?w1)" by (rule Cons.IH [OF conjunct1 [OF s1]])
  have "only ?U (w_net w) (w_net ?w1)" using s1 changes_only_mono [of _ "ids_of block" _ _ ?U] by auto
  moreover have "only ?U (w_net ?w1) (w_net (delete_blocks blocks ?w1))"
    using s2 changes_only_mono [of _ "\<Union>(ids_of ` set blocks)" _ _ ?U] by auto
  ultimately have "step ?U w (delete_blocks blocks ?w1)" using s1 s2 changes_only_trans by auto
  then show ?case by (simp add: delete_blocks_def del: upt_Suc)
qed (simp add: delete_blocks_def)

lemma delete_object_step:
  assumes "gw_om_channel gw = ch" "owf (w_om w)" "net_good good (w_net w)" "gw_delete_object gw w bucket key who = (w', r)"
  shows "owf (w_om w') \<and> net_good good (w_net w') \<and>
    only (\<Union>(ids_of ` (case ov_keys (oabs (w_om w)) (S3_VOLUME, bucket, key) of Some meta \<Rightarrow> set (km_blocks meta) | None \<Rightarrow> {})))
      (w_net w) (w_net w') \<and>
    (\<forall>x. x \<noteq> (S3_VOLUME, bucket, key) \<longrightarrow> ov_keys (oabs (w_om w')) x = ov_keys (oabs (w_om w)) x) \<and>
    (r = Ok () \<longrightarrow> ov_keys (oabs (w_om w')) (S3_VOLUME, bucket, key) = None)"
proof -
  have cl: "oc_submit (gw_om gw who) = ch" using assms(1) by (simp add: gw_om_def)
  obtain o1 r1 where g: "om_get_key_info (gw_om gw who) (w_om w) S3_VOLUME bucket key = (o1, r1)" by fastforce
  note law1 = om.get_key_info [OF cl assms(2) g]
  let ?B = "\<Union>(ids_of ` (case ov_keys (oabs (w_om w)) (S3_VOLUME, bucket, key) of Some meta \<Rightarrow> set (km_blocks meta) | None \<Rightarrow> {}))"
  define w2 where "w2 = (case r1 of Ok meta \<Rightarrow> delete_blocks (km_blocks meta) (w\<lparr>w_om := o1\<rparr>) | _ \<Rightarrow> w\<lparr>w_om := o1\<rparr>)"
  have s2: "net_good good (w_net w2) \<and> w_om w2 = o1 \<and> only ?B (w_net w) (w_net w2)"
  proof (cases r1)
    case (Ok meta)
    then have "ov_keys (oabs (w_om w)) (S3_VOLUME, bucket, key) = Some meta" using law1 by blast
    then show ?thesis using delete_blocks_step [of "w\<lparr>w_om := o1\<rparr>" "km_blocks meta"] assms(3) Ok by (simp add: w2_def)
  qed (use assms(3) in \<open>simp_all add: w2_def\<close>)
  obtain o3 r3 where d: "om_delete_key (gw_om gw who) (w_om w2) S3_VOLUME bucket key = (o3, r3)" by fastforce
  have out: "w' = w2\<lparr>w_om := o3\<rparr>" "r = map_err gw_of_om r3"
    using assms(4) g d by (simp_all add: gw_delete_object_def on_om_def w2_def Let_def)
  have "owf (w_om w2)" "oabs (w_om w2) = oabs (w_om w)" using s2 law1 by simp_all
  note law3 = om.delete_key [OF cl this(1) d, unfolded this(2)]
  show ?thesis using law3 s2 out by (cases r3) (auto simp: fun_eq_iff)
qed

end


section \<open>What a committed object reads back as\<close>

lemma tagged_wf: "btree_wf metadata \<Longrightarrow> btree_wf (tagged metadata tags)"
  by (induction tags arbitrary: metadata) (auto simp: tagged_def btree_wf_insert)

lemma tagged_no_etag: "map_of metadata ''ETAG'' = None \<Longrightarrow> map_of (tagged metadata tags) ''ETAG'' = None"
  by (induction tags arbitrary: metadata) (auto simp: tagged_def TAG_META_PREFIX_def)

lemma find_appended: "find p xs = None \<Longrightarrow> p y \<Longrightarrow> find p (xs @ [y]) = Some y"
  by (induction xs) (auto split: if_splits)

lemma committed_meta_read:
  assumes "btree_wf md" "map_of md ''ETAG'' = None" "mset xs = mset md" "meta = committed_meta blocks n (Some etag) xs t"
  shows "km_etag meta = Some etag" "btree_collect (km_metadata meta) = btree_insert ''ETAG'' etag md"
    "km_blocks meta = blocks" "km_size meta = n"
proof -
  have "set xs = set md" using assms(3) by (rule mset_eq_setD)
  moreover have "''ETAG'' \<notin> fst ` set md" using assms(2) by (simp add: map_of_eq_None_iff)
  ultimately have "find (\<lambda>(k, _). k = ''ETAG'') xs = None" by (force simp: find_None_iff)
  then have "find (\<lambda>(k, _). k = ''ETAG'') (xs @ [(''ETAG'', etag)]) = Some (''ETAG'', etag)" by (rule find_appended) simp
  then show "km_etag meta = Some etag" by (simp add: assms(4) committed_meta_def Let_def)
  show "btree_collect (km_metadata meta) = btree_insert ''ETAG'' etag md"
    using btree_collect_perm [OF assms(1,3)] by (simp add: assms(4) committed_meta_def btree_collect_def Let_def)
qed (simp_all add: assms(4) committed_meta_def Let_def)


section \<open>Properties\<close>

text \<open>
  C24: an object survives the loss and the damage of its shards. Suppose a put of an object has
  returned, over any manager that keeps its contract, any datanodes running this code, and an erasure
  coder within its documentation. Later the key is still the one committed and the manager answers;
  datanodes may have gone, and stored bytes may have changed in any way their recorded checksums
  detect. As long as \<open>k\<close> slots of each block group can be read, a get returns the object byte for
  byte, with the ETag the put returned and the metadata it was put with.
\<close>

theorem put_get_degraded:
  assumes "isal_contract (lib_isal lib)" "fjall_contract F P kv" "om_laws (gw_om_channel gw) oabs owf"
    and "owf (w_om w)" "net_good (dn_good (lib_crc lib) F P kv root) (w_net w)"
    and "0 < gw_block_group_size gw" "length body < 2 ^ 63"
    and "btree_wf metadata" "map_of metadata ''ETAG'' = None" "\<And>md. mset (lib_hash_order lib md) = mset md"
    and "gw_put_object lib gw w bucket key who body metadata tags = (w1, Ok etag)"
    and "owf (w_om w2)" "ov_keys (oabs (w_om w2)) (S3_VOLUME, bucket, key) = ov_keys (oabs (w_om w1)) (S3_VOLUME, bucket, key)"
    and "om_get_key_info (gw_om gw reader) (w_om w2) S3_VOLUME bucket key = (o2, Ok meta)"
    and "\<forall>b\<in>set (km_blocks meta). decodable (w_net w2) b \<and>
      decayed (lib_crc lib) (dn_good (lib_crc lib) F P kv root) (dn_recorded P kv, dn_stored root) (w_net w1) (w_net w2) b"
  shows "etag = md5_hex lib body \<and>
    (\<exists>w3 t. gw_get_object lib gw w2 bucket key reader =
       (w3, Ok (body, etag, btree_insert ''ETAG'' etag (tagged metadata tags), t)))"
proof -
  let ?held = "group_held (lib_crc lib) (dn_recorded P kv, dn_stored root) (w_net w1)" and ?x = "(S3_VOLUME, bucket, key)"
  note env = deployed_gateway_env [OF assms(3,2,1), of root]
  from gateway_env.put_object_step [OF env refl assms(4,5,11)]
  obtain blocks t where put: "etag = md5_hex lib body" "list_all2 ?held blocks (chunks (gw_block_group_size gw) body)"
    "ov_keys (oabs (w_om w1)) ?x = Some (committed_meta blocks (of_nat (length body)) (Some etag) (lib_hash_order lib (tagged metadata tags)) t)"
    by auto
  have "oc_submit (gw_om gw reader) = gw_om_channel gw" by (simp add: gw_om_def)
  from om_laws.get_key_info [OF assms(3) this assms(12,14)] assms(13) put(3)
  have meta: "meta = committed_meta blocks (of_nat (length body)) (Some etag) (lib_hash_order lib (tagged metadata tags)) t" by simp
  note md = committed_meta_read [OF tagged_wf [OF assms(8)] tagged_no_etag [OF assms(9)] assms(10) meta]
  have body: "concat (chunks (gw_block_group_size gw) body) = body" by (rule concat_chunks [OF assms(6)])
  have "list_all2 ?held (km_blocks meta) (chunks (gw_block_group_size gw) body)" using put(2) md(3) by simp
  moreover have "unat (km_size meta) < 2 ^ 63" using assms(7) by (simp add: md(4) unat_of_nat)
  moreover have "length (concat (chunks (gw_block_group_size gw) body)) < 2 ^ 63" unfolding body by (rule assms(7))
  ultimately obtain w3 where "gw_get_object lib gw w2 bucket key reader =
      (w3, Ok (concat (chunks (gw_block_group_size gw) body), case km_etag meta of Some e \<Rightarrow> e | None \<Rightarrow> [],
        btree_collect (km_metadata meta), km_modification_time meta))"
    using gateway_env.get_object_held [OF env refl assms(12,14), of "w_net w1"] assms(15) by blast
  then show ?thesis unfolding body using put(1) md(1,2) by auto
qed


text \<open>Three empty datanodes and a fresh manager that places every block on them.\<close>

definition trio_gw :: "om_state gateway" where
  "trio_gw = set_block_group_size (gateway_connect (om_submit_request (\<lambda>d. d) trio_cfg) ''us-east-1'') 3"

definition trio_dn :: "(mem_state, chunk_fs) dn_state dn_rpc \<times> (mem_state, chunk_fs) dn_state" where
  "trio_dn = (local_rpc sum_digest (dn_service mem_keyspace mem_postcard io_ok 7 ''/d'' ''build''), \<lparr>dn_meta = mem_empty, dn_chunks = empty_fs\<rparr>)"

definition trio_world :: "(om_state, (mem_state, chunk_fs) dn_state) world" where
  "trio_world = \<lparr>w_om = om_state_new,
     w_net = [''http://a:9'' \<mapsto> trio_dn, ''http://b:9'' \<mapsto> trio_dn, ''http://c:9'' \<mapsto> trio_dn], w_channels = []\<rparr>"

lemma trio_gw_simps [simp]: "gw_om_channel trio_gw = om_submit_request (\<lambda>d. d) trio_cfg" "gw_block_group_size trio_gw = 3"
  by (simp_all add: trio_gw_def set_block_group_size_def gateway_connect_def)

lemma trio_world_wf: "fx_wf trio_ec trio_members (w_om trio_world)"
  by (simp add: trio_world_def fx_wf_def om_state_new_def btree_wf_def)

lemma trio_world_room: "8 \<le> fx_room (w_om trio_world)"
  by (simp add: trio_world_def fx_room_def om_state_new_def)

lemma trio_world_ready: "net_good (dn_ready sum_digest mem_keyspace mem_postcard mem_kv (\<lambda>_. ''/d'')) (w_net trio_world)"
  using mem_empty_wf
  by (auto simp: net_good_def trio_world_def trio_dn_def dn_ready_def names_ok_def all_open_def fj_abs_def mem_kv_def mem_empty_def
      split: if_splits)

lemma trio_slots:
  assumes "bl_ec bl = trio_ec \<and> bl_members bl = trio_members"
  shows "pr_slots bl = 3" "endpoint_for_slot bl 1 = Ok ''http://a:9''" "endpoint_for_slot bl 2 = Ok ''http://b:9''"
    "endpoint_for_slot bl 3 = Ok ''http://c:9''"
  using assms by (simp_all add: pr_slots_def trio_profile(2) pr_total_def endpoint_for_slot_def trio_members_def)

lemma trio_reachable:
  assumes "bl_ec bl = trio_ec \<and> bl_members bl = trio_members"
  shows "reachable (w_net trio_world) bl"
proof -
  have "ec_ok (bl_ec bl)" using assms by (simp add: trio_ec_def ec_rs_def ec_ok_def)
  moreover have up: "w_net trio_world ''http://a:9'' \<noteq> None" "w_net trio_world ''http://b:9'' \<noteq> None" "w_net trio_world ''http://c:9'' \<noteq> None"
    by (simp_all add: trio_world_def)
  have "\<exists>e. endpoint_for_slot bl (of_nat (Suc i)) = Ok e \<and> w_net trio_world e \<noteq> None" if "i < 3" for i
  proof -
    from that consider "i = 0" | "i = 1" | "i = 2" by linarith
    then show ?thesis by cases (use trio_slots [OF assms] up in auto)
  qed
  ultimately show ?thesis unfolding reachable_def trio_slots(1) [OF assms] by blast
qed

lemma trio_enough:
  assumes "bl_ec bl = trio_ec \<and> bl_members bl = trio_members"
  shows "enough {''http://a:9'', ''http://c:9''} bl"
proof -
  have "{0, 2} \<subseteq> {i. i < pr_slots bl \<and> (\<exists>e\<in>{''http://a:9'', ''http://c:9''}. endpoint_for_slot bl (of_nat (Suc i)) = Ok e)}"
    using trio_slots [OF assms] by simp
  from card_mono [OF _ this] have "2 \<le> card {i. i < pr_slots bl \<and> (\<exists>e\<in>{''http://a:9'', ''http://c:9''}. endpoint_for_slot bl (of_nat (Suc i)) = Ok e)}"
    by simp
  moreover have "unat (ec_data (bl_ec bl)) = 2" using assms by (simp add: trio_ec_def ec_rs_def)
  ultimately show ?thesis by (simp only: enough_def)
qed


lemma trio_lib_simps [simp]:
  "lib_isal trio_lib = isal_ref" "lib_crc trio_lib = sum_digest" "lib_hash_order trio_lib md = md"
  by (simp_all add: trio_lib_def)

abbreviation trio_survivors :: "string set" where
  "trio_survivors \<equiv> {''http://a:9'', ''http://c:9''}"

lemma trio_survive:
  assumes "fx_wf trio_ec trio_members (w_om w)" "ov_keys (fx_abs trio_ec trio_members (w_om w)) x = Some meta"
    "list_all2 (group_held sum_digest (dn_recorded mem_postcard mem_kv, dn_stored root) (w_net w)) (km_blocks meta) parts"
    "net_good (dn_ready sum_digest mem_keyspace mem_postcard mem_kv root) (w_net w)" "b \<in> set (km_blocks meta)"
  shows "decodable (w_net w |` trio_survivors) b \<and> decayed sum_digest (dn_good sum_digest mem_keyspace mem_postcard mem_kv root)
    (dn_recorded mem_postcard mem_kv, dn_stored root) (w_net w) (w_net w |` trio_survivors) b"
proof -
  obtain i where i: "i < length (km_blocks meta)" "b = km_blocks meta ! i" using assms(5) by (auto simp: in_set_conv_nth)
  obtain v bk k where x: "x = (v, bk, k)" by (metis prod_cases3)
  from list_all2_nthD [OF assms(3) i(1)]
  have "group_held sum_digest (dn_recorded mem_postcard mem_kv, dn_stored root) (w_net w) b (parts ! i)" by (simp add: i(2))
  moreover have "enough trio_survivors b"
    using trio.keys_placed [OF assms(1,2) assms(5)] trio_answers.placements [OF assms(1)] trio_enough by (simp add: placed_def)
  ultimately show ?thesis
    using trio_live.decodable_restrict [of root "w_net w" b] trio_live.decayed_restrict [OF trio_live.ready_net_good [OF assms(4)]]
      assms(4) by simp
qed

theorem put_get_degraded_witness:
  "\<exists>w1 etag. gw_put_object trio_lib trio_gw trio_world ''photos'' ''a'' ''alice'' [1, 2, 3, 4, 5] [] [] = (w1, Ok etag) \<and>
     (\<exists>w3 t. gw_get_object trio_lib trio_gw (w1\<lparr>w_net := w_net w1 |` trio_survivors\<rparr>) ''photos'' ''a'' ''bob'' =
        (w3, Ok ([1, 2, 3, 4, 5], etag, [(''ETAG'', etag)], t)))"
proof -
  let ?body = "[1, 2, 3, 4, 5] :: bytes" and ?root = "\<lambda>_ :: string. ''/d''"
  let ?put = "gw_put_object trio_lib trio_gw trio_world ''photos'' ''a'' ''alice'' ?body [] []"
  have segs: "chunks (gw_block_group_size trio_gw) ?body = [[1, 2, 3], [4, 5]]" by (simp add: chunks.simps)
  note up = trio_live.put_object_up [of trio_gw "\<lambda>d. d" trio_world ?root ?body, OF _ trio_world_wf trio_world_ready]
  obtain w1 etag where put: "?put = (w1, Ok etag)" "net_good (dn_ready sum_digest mem_keyspace mem_postcard mem_kv ?root) (w_net w1)"
    using up trio_world_room trio_reachable segs by fastforce
  let ?x = "(S3_VOLUME, ''photos'', ''a'')" and ?w2 = "w1\<lparr>w_net := w_net w1 |` trio_survivors\<rparr>"
  let ?held = "group_held sum_digest (dn_recorded mem_postcard mem_kv, dn_stored ?root) (w_net w1)"
  have ng: "net_good (dn_good sum_digest mem_keyspace mem_postcard mem_kv ?root) (w_net trio_world)"
    "net_good (dn_good sum_digest mem_keyspace mem_postcard mem_kv ?root) (w_net w1)"
    using trio_live.ready_net_good trio_world_ready put(2) by blast+
  note step = trio_env.put_object_step [of trio_gw "\<lambda>d. d", OF _ trio_world_wf ng(1) put(1)]
  have wf: "fx_wf trio_ec trio_members (w_om w1)" using step by simp
  obtain blocks meta where m: "ov_keys (fx_abs trio_ec trio_members (w_om w1)) ?x = Some meta" "km_blocks meta = blocks"
    "list_all2 ?held blocks [[1, 2, 3], [4, 5]]"
    using step segs by (auto simp: committed_meta_def Let_def)
  obtain o2 r where g: "om_get_key_info (gw_om trio_gw ''bob'') (w_om ?w2) S3_VOLUME ''photos'' ''a'' = (o2, r)" by fastforce
  have r: "r = Ok meta"
    using trio_answers.get_answers [of "gw_om trio_gw ''bob''" "\<lambda>d. d", OF _ _ _ g] wf m(1) by (simp add: gw_om_def)
  have dec: "decodable (w_net ?w2) b \<and> decayed sum_digest (dn_good sum_digest mem_keyspace mem_postcard mem_kv ?root)
      (dn_recorded mem_postcard mem_kv, dn_stored ?root) (w_net w1) (w_net ?w2) b" if mem: "b \<in> set (km_blocks meta)" for b
    using trio_survive [OF wf m(1) _ put(2) mem] m(2,3) by simp
  from put_get_degraded [of trio_lib mem_keyspace mem_postcard mem_kv trio_gw "fx_abs trio_ec trio_members" "fx_wf trio_ec trio_members"
      trio_world ?root ?body "[]" _ _ _ _ w1 etag ?w2 _ o2 meta]
  have "\<exists>w3 t. gw_get_object trio_lib trio_gw ?w2 ''photos'' ''a'' ''bob'' = (w3, Ok (?body, etag, btree_insert ''ETAG'' etag (tagged [] []), t))"
    using isal_ref_contract mem.fjall_contract_axioms trio.om_laws_axioms trio_world_wf ng(1) put(1) wf g r dec by (simp add: btree_wf_def)
  then show ?thesis using put(1) by (simp add: tagged_def)
qed


text \<open>
  C25: objects are available. Suppose the manager has the bucket and enough blocks left for the object,
  every datanode it places blocks on is up, with storage that does not fail and no closed containers,
  and the erasure coder is within its documentation. Then a put returns the object's ETag; and
  whichever datanodes are lost afterwards, as long as the remaining set \<open>A\<close> has \<open>k\<close> slots of every
  placement the manager uses, a get returns the object byte for byte with that ETag and its metadata.
\<close>

theorem put_get_available:
  assumes "isal_contract (lib_isal lib)" "fjall_contract F P kv" "fjall_reliable F P"
    and "om_answers (gw_om_channel gw) oabs owf has_bucket room pool"
    and "owf (w_om w)" "net_good (dn_ready (lib_crc lib) F P kv root) (w_net w)"
    and "0 < gw_block_group_size gw" "length body < 2 ^ 63"
    and "btree_wf metadata" "map_of metadata ''ETAG'' = None" "\<And>md. mset (lib_hash_order lib md) = mset md"
    and "has_bucket (w_om w) S3_VOLUME bucket" "0 < room (w_om w)" "div_ceil (length body) (gw_block_group_size gw) \<le> room (w_om w)"
    and "\<And>bl. pool (bl_ec bl) (bl_members bl) \<Longrightarrow> reachable (w_net w) bl \<and> enough A bl"
  shows "\<exists>w1 w2 t. gw_put_object lib gw w bucket key who body metadata tags = (w1, Ok (md5_hex lib body)) \<and>
    gw_get_object lib gw (w1\<lparr>w_net := w_net w1 |` A\<rparr>) bucket key reader =
      (w2, Ok (body, md5_hex lib body, btree_insert ''ETAG'' (md5_hex lib body) (tagged metadata tags), t))"
proof -
  let ?x = "(S3_VOLUME, bucket, key)" and ?segs = "chunks (gw_block_group_size gw) body"
  note env = deployed_live_env [OF assms(4,2,3,1), of root]
  note genv = live_env.axioms(1) [OF env]
  have "length ?segs \<le> room (w_om w)" using assms(14) by (simp add: length_chunks [OF assms(7)])
  then obtain w1 where put: "gw_put_object lib gw w bucket key who body metadata tags = (w1, Ok (md5_hex lib body))"
    "net_good (dn_ready (lib_crc lib) F P kv root) (w_net w1)"
    using live_env.put_object_up [OF env refl assms(5,6,12,13)] assms(15) by blast
  have "net_good (dn_good (lib_crc lib) F P kv root) (w_net w)" by (rule live_env.ready_net_good [OF env assms(6)])
  from gateway_env.put_object_step [OF genv refl assms(5) this put(1)] obtain blocks t where
    k: "owf (w_om w1)" "list_all2 (group_held (lib_crc lib) (dn_recorded P kv, dn_stored root) (w_net w1)) blocks ?segs"
    "ov_keys (oabs (w_om w1)) ?x = Some (committed_meta blocks (of_nat (length body)) (Some (md5_hex lib body)) (lib_hash_order lib (tagged metadata tags)) t)"
    by auto
  note md = committed_meta_read [OF tagged_wf [OF assms(9)] tagged_no_etag [OF assms(10)] assms(11) refl]
  have body: "concat ?segs = body" by (rule concat_chunks [OF assms(7)])
  obtain w2 where "gw_get_object lib gw (w1\<lparr>w_net := w_net w1 |` A\<rparr>) bucket key reader = (w2, Ok (concat ?segs, md5_hex lib body,
      btree_insert ''ETAG'' (md5_hex lib body) (tagged metadata tags), t))"
    by (rule live_env.get_object_up [OF env refl k(1) put(2) k(3), of ?segs A reader, unfolded md])
      (use k(2) body assms(8,15) in \<open>auto simp: unat_of_nat committed_meta_def Let_def\<close>)
  then show ?thesis unfolding body using put(1) by blast
qed

theorem put_get_available_witness:
  "\<exists>w1 w2 t. gw_put_object trio_lib trio_gw trio_world ''photos'' ''b'' ''alice'' [9, 8, 7, 6] [(''color'', ''blue'')] [(''k'', ''v'')] =
       (w1, Ok (md5_hex trio_lib [9, 8, 7, 6])) \<and>
     gw_get_object trio_lib trio_gw (w1\<lparr>w_net := w_net w1 |` trio_survivors\<rparr>) ''photos'' ''b'' ''bob'' =
       (w2, Ok ([9, 8, 7, 6], md5_hex trio_lib [9, 8, 7, 6],
          btree_insert ''ETAG'' (md5_hex trio_lib [9, 8, 7, 6]) (tagged [(''color'', ''blue'')] [(''k'', ''v'')]), t))"
proof (rule put_get_available [of trio_lib mem_keyspace mem_postcard mem_kv trio_gw "fx_abs trio_ec trio_members"
      "fx_wf trio_ec trio_members" "\<lambda>_ _ _. True" fx_room "\<lambda>ec' ms. ec' = trio_ec \<and> ms = trio_members" trio_world "\<lambda>_. ''/d''"])
  show "fx_wf trio_ec trio_members (w_om trio_world)" by (rule trio_world_wf)
  show "0 < fx_room (w_om trio_world)" using trio_world_room by simp
  show "div_ceil (length [9, 8, 7, 6 :: u8]) (gw_block_group_size trio_gw) \<le> fx_room (w_om trio_world)"
    using trio_world_room by (simp add: div_ceil_def)
  show "reachable (w_net trio_world) bl \<and> enough trio_survivors bl" if "bl_ec bl = trio_ec \<and> bl_members bl = trio_members" for bl
    using trio_reachable [OF that] trio_enough [OF that] by blast
qed (use isal_ref_contract mem.fjall_contract_axioms mem_reliable trio_answers.om_answers_axioms trio_world_ready in \<open>simp_all add: btree_wf_def\<close>)


section \<open>Copies\<close>

lemma find_fst: "map_option snd (find (\<lambda>(k, _). k = x) xs) = map_of xs x"
  by (induction xs) auto

lemma committed_etag:
  "km_etag (committed_meta blocks n (Some etag) xs t) = Some (case map_of xs ''ETAG'' of Some e \<Rightarrow> e | None \<Rightarrow> etag)"
  unfolding committed_meta_def Let_def by (simp add: find_fst map_add_def split: option.split)

lemma split_metadata_etag:
  assumes "distinct (map fst xs)"
  shows "map_of (fst (split_metadata xs)) ''ETAG'' = map_of xs ''ETAG''" "btree_wf (fst (split_metadata xs))"
proof -
  let ?f = "\<lambda>(user_meta, tags) (k, v). case strip_prefix TAG_META_PREFIX k of
      Some tag_key \<Rightarrow> (user_meta, tags @ [(tag_key, v)]) | None \<Rightarrow> (btree_insert k v user_meta, tags)"
  have none: "strip_prefix TAG_META_PREFIX ''ETAG'' = None" by (simp add: strip_prefix_def TAG_META_PREFIX_def)
  have "btree_wf (fst a) \<Longrightarrow> btree_wf (fst (foldl ?f a xs)) \<and>
      map_of (fst (foldl ?f a xs)) ''ETAG'' = (case map_of xs ''ETAG'' of Some e \<Rightarrow> Some e | None \<Rightarrow> map_of (fst a) ''ETAG'')" for a
    using assms
  proof (induction xs arbitrary: a)
    case (Cons kv xs)
    obtain k v where kv: "kv = (k, v)" by fastforce
    obtain um tg where a: "a = (um, tg)" by fastforce
    let ?a = "?f a kv"
    have "btree_wf (fst ?a)" using Cons.prems(1) kv a by (auto simp: btree_wf_insert split: option.split)
    moreover have "map_of (fst ?a) ''ETAG'' = (if k = ''ETAG'' then Some v else map_of um ''ETAG'')"
      using none kv a by (auto split: option.split)
    moreover have "map_of xs ''ETAG'' = None" if "k = ''ETAG''" using Cons.prems(2) kv that by (simp add: map_of_eq_None_iff)
    ultimately show ?case using Cons.IH [of ?a] Cons.prems kv a by (auto split: option.split)
  qed (auto split: option.split)
  from this [of "([], [])"] show "map_of (fst (split_metadata xs)) ''ETAG'' = map_of xs ''ETAG''" "btree_wf (fst (split_metadata xs))"
    by (auto simp: split_metadata_def btree_wf_def split: option.split)
qed

lemma map_of_order:
  assumes "btree_wf md" "mset xs = mset md"
  shows "distinct (map fst xs)" "map_of xs = map_of md"
proof -
  have "distinct (map fst md)" using assms(1) by (simp add: btree_wf_def strict_sorted_iff)
  moreover have "mset (map fst xs) = mset (map fst md)" using assms(2) by simp
  ultimately show "distinct (map fst xs)" by (metis mset_eq_imp_distinct_iff)
  then show "map_of xs = map_of md" using map_of_btree_collect [of xs] btree_collect_perm [OF assms] by simp
qed


lemma tagged_snoc: "tagged um (tags @ [(k, v)]) = btree_insert (TAG_META_PREFIX @ k) v (tagged um tags)"
  by (simp add: tagged_def)

lemma map_of_tagged_insert:
  assumes "strip_prefix TAG_META_PREFIX k = None"
  shows "map_of (tagged (btree_insert k v um) tags) = (map_of (tagged um tags))(k \<mapsto> v)"
proof (induction tags rule: rev_induct)
  case (snoc t tags)
  have "k \<noteq> TAG_META_PREFIX @ fst t" using assms by (auto simp: strip_prefix_def)
  then show ?case using snoc by (cases t) (auto simp: tagged_snoc)
qed (simp add: tagged_def)

text \<open>Splitting the tags off a stored object's metadata and attaching them again gives it back.\<close>

lemma tagged_split_metadata:
  assumes "btree_wf md" "mset xs = mset md"
  shows "tagged (fst (split_metadata xs)) (snd (split_metadata xs)) = md"
proof -
  let ?f = "\<lambda>(user_meta, tags) (k, v). case strip_prefix TAG_META_PREFIX k of
      Some tag_key \<Rightarrow> (user_meta, tags @ [(tag_key, v)]) | None \<Rightarrow> (btree_insert k v user_meta, tags)"
  let ?T = "\<lambda>a. map_of (tagged (fst a) (snd a))"
  note d = map_of_order [OF assms]
  have one: "?T (?f a (k, v)) = (?T a)(k \<mapsto> v)" for a k v
  proof (cases "strip_prefix TAG_META_PREFIX k")
    case (Some tag)
    then have "k = TAG_META_PREFIX @ tag" by (auto simp: strip_prefix_def prefix_def split: if_splits)
    then show ?thesis using Some by (cases a) (simp add: tagged_snoc)
  qed (cases a, simp add: map_of_tagged_insert)
  have "?T (foldl ?f a xs) = ?T a ++ map_of xs" for a
    using d(1)
  proof (induction xs arbitrary: a)
    case (Cons kv xs)
    obtain k v where kv: "kv = (k, v)" by fastforce
    have "map_of xs k = None" using Cons.prems kv by (simp add: map_of_eq_None_iff)
    then show ?case using Cons.IH [of "?f a kv"] Cons.prems one [of a k v]
      by (auto simp: kv map_add_def fun_eq_iff split: option.split)
  qed simp
  from this [of "([], [])"] have "?T (split_metadata xs) = map_of md" by (simp add: split_metadata_def tagged_def d(2))
  moreover have "btree_wf (tagged (fst (split_metadata xs)) (snd (split_metadata xs)))"
    by (rule tagged_wf [OF split_metadata_etag(2) [OF d(1)]])
  ultimately show ?thesis using assms(1) btree_wf_unique by blast
qed

definition copied_metadata :: "gw_libs \<Rightarrow> copy_directives \<Rightarrow> string_map \<Rightarrow> string_map" where
  "copied_metadata lib dirs md =
     tagged (if cpd_replace_metadata dirs then cpd_metadata dirs else fst (split_metadata (lib_hash_order lib md)))
       (if cpd_replace_tags dirs then cpd_tags dirs else snd (split_metadata (lib_hash_order lib md)))"

lemma committed_read:
  assumes "btree_wf md" "mset xs = mset md"
  shows "km_etag (committed_meta blocks n (Some etag) xs t) = Some (case map_of md ''ETAG'' of Some e \<Rightarrow> e | None \<Rightarrow> etag)"
    "btree_collect (km_metadata (committed_meta blocks n (Some etag) xs t)) = btree_insert ''ETAG'' etag md"
proof -
  show "km_etag (committed_meta blocks n (Some etag) xs t) = Some (case map_of md ''ETAG'' of Some e \<Rightarrow> e | None \<Rightarrow> etag)"
    using committed_etag map_of_order(2) [OF assms] by simp
  show "btree_collect (km_metadata (committed_meta blocks n (Some etag) xs t)) = btree_insert ''ETAG'' etag md"
    using btree_collect_perm [OF assms] by (simp add: committed_meta_def btree_collect_def Let_def)
qed

lemma map_of_tagged_etag: "map_of (tagged md tags) ''ETAG'' = map_of md ''ETAG''"
  by (induction tags arbitrary: md rule: rev_induct) (auto simp: tagged_def TAG_META_PREFIX_def)

lemma copied_metadata_read:
  assumes "btree_wf md" "btree_wf (cpd_metadata dirs)" "\<And>md. mset (lib_hash_order lib md) = mset md"
  shows "btree_wf (copied_metadata lib dirs md)"
    "map_of (copied_metadata lib dirs md) ''ETAG'' = map_of (if cpd_replace_metadata dirs then cpd_metadata dirs else md) ''ETAG''"
    "\<not> cpd_replace_metadata dirs \<Longrightarrow> \<not> cpd_replace_tags dirs \<Longrightarrow> copied_metadata lib dirs md = md"
proof -
  note order = map_of_order [OF assms(1) assms(3)]
  note s = split_metadata_etag [OF order(1)]
  show "btree_wf (copied_metadata lib dirs md)" unfolding copied_metadata_def by (rule tagged_wf) (simp add: s(2) assms(2))
  show "map_of (copied_metadata lib dirs md) ''ETAG'' = map_of (if cpd_replace_metadata dirs then cpd_metadata dirs else md) ''ETAG''"
    unfolding copied_metadata_def by (simp add: map_of_tagged_etag s(1) order(2))
  show "copied_metadata lib dirs md = md" if "\<not> cpd_replace_metadata dirs" "\<not> cpd_replace_tags dirs"
    unfolding copied_metadata_def using that tagged_split_metadata [OF assms(1) assms(3)] by simp
qed

lemma get_object_answer:
  assumes "gw_get_object lib gw w bucket key who = (w', Ok (body, e, md, t))"
  shows "btree_wf md" "\<exists>o1 meta. om_get_key_info (gw_om gw who) (w_om w) S3_VOLUME bucket key = (o1, Ok meta)"
proof -
  obtain o1 r1 where g: "om_get_key_info (gw_om gw who) (w_om w) S3_VOLUME bucket key = (o1, r1)" by fastforce
  show "btree_wf md" using assms by (auto simp: gw_get_object_def on_om_def try_upd_eq_Ok try_st_eq_Ok split_beta)
  have "\<exists>meta. r1 = Ok meta" using assms g by (cases r1) (auto simp: gw_get_object_def on_om_def)
  with g show "\<exists>o1 meta. om_get_key_info (gw_om gw who) (w_om w) S3_VOLUME bucket key = (o1, Ok meta)" by blast
qed

lemma copy_object_put:
  assumes "gw_get_object lib gw w sb sk who = (w0, Ok (body, src_etag, md, t0))"
  shows "gw_copy_object lib gw w db dk sb sk who dirs =
    try_upd (gw_put_object lib gw w0 db dk who body
      (if cpd_replace_metadata dirs then cpd_metadata dirs else fst (split_metadata (lib_hash_order lib md)))
      (if cpd_replace_tags dirs then cpd_tags dirs else snd (split_metadata (lib_hash_order lib md))))
      (\<lambda>w2 etag. (w2, Ok (etag, of_nat (length body))))"
  unfolding gw_copy_object_def assms by (simp add: Let_def split_beta del: if_split)

context gateway_env begin

lemma copy_then_delete:
  assumes ch: "gw_om_channel gw = ch" and owf: "owf (w_om w)" and ng: "net_good good (w_net w)"
    and copy: "gw_copy_object lib gw w db dk sb sk who dirs = (w1, Ok (etag, n))" and other: "(db, dk) \<noteq> (sb, sk)"
    and del: "gw_delete_object gw w1 sb sk who' = (w2, r)"
    and src: "gw_get_object lib gw w sb sk who = (w0, Ok (body, src_etag, md, t0))"
  obtains blocks t where "etag = md5_hex lib body" "n = of_nat (length body)"
    "list_all2 (held (w_net w2)) blocks (chunks (gw_block_group_size gw) body)"
    "ov_keys (oabs (w_om w2)) (S3_VOLUME, db, dk) =
      Some (committed_meta blocks n (Some etag) (lib_hash_order lib (copied_metadata lib dirs md)) t)"
proof -
  let ?src = "(S3_VOLUME, sb, sk)" and ?dst = "(S3_VOLUME, db, dk)"
  let ?md = "if cpd_replace_metadata dirs then cpd_metadata dirs else fst (split_metadata (lib_hash_order lib md))"
  let ?tags = "if cpd_replace_tags dirs then cpd_tags dirs else snd (split_metadata (lib_hash_order lib md))"
  from copy_object_put [OF src, symmetric] copy have "try_upd (gw_put_object lib gw w0 db dk who body ?md ?tags)
      (\<lambda>w2 etag. (w2, Ok (etag, of_nat (length body)))) = (w1, Ok (etag, n))" by (rule trans)
  then have put: "gw_put_object lib gw w0 db dk who body ?md ?tags = (w1, Ok etag)" and n: "n = of_nat (length body)"
    unfolding try_upd_eq_Ok by blast+
  note g = get_object_world [OF ch owf src]
  have owf0: "owf (w_om w0)" and ng0: "net_good good (w_net w0)" using g ng by simp_all
  from put_object_step [OF ch owf0 ng0 put] obtain blocks t where k: "owf (w_om w1)" "net_good good (w_net w1)" "etag = md5_hex lib body"
    "list_all2 (held (w_net w1)) blocks (chunks (gw_block_group_size gw) body)"
    "\<forall>b\<in>set blocks. ov_alloc (oabs (w_om w0)) (bl_key b) = None"
    "ov_keys (oabs (w_om w1)) = (ov_keys (oabs (w_om w0)))(?dst \<mapsto>
      committed_meta blocks (of_nat (length body)) (Some etag) (lib_hash_order lib (copied_metadata lib dirs md)) t)"
    unfolding copied_metadata_def by auto
  note d = delete_object_step [OF ch k(1,2) del]
  let ?old = "case ov_keys (oabs (w_om w1)) ?src of Some meta \<Rightarrow> set (km_blocks meta) | None \<Rightarrow> {}"
  have frame: "only (\<Union>(ids_of ` ?old)) (w_net w1) (w_net w2)" using d by blast
  have src_same: "ov_keys (oabs (w_om w1)) ?src = ov_keys (oabs (w_om w0)) ?src" using k(6) other by auto
  have fresh: "shard_id b slot \<notin> \<Union>(ids_of ` ?old)" if b: "b \<in> set blocks" for b slot
  proof
    assume "shard_id b slot \<in> \<Union>(ids_of ` ?old)"
    then obtain b' where b': "b' \<in> ?old" "bl_key b = bl_key b'" by auto
    then obtain meta where "ov_keys (oabs (w_om w0)) ?src = Some meta" "b' \<in> set (km_blocks meta)"
      unfolding src_same by (auto split: option.splits)
    from om.keys_placed [OF owf0 this] bspec [OF k(5) b] b'(2) show False by (simp add: placed_def)
  qed
  have "list_all2 (held (w_net w2)) blocks (chunks (gw_block_group_size gw) body)"
    by (rule list.rel_mono_strong [OF k(4)]) (use group_held_changes_only [OF frame] fresh in blast)
  moreover have "ov_keys (oabs (w_om w2)) ?dst = ov_keys (oabs (w_om w1)) ?dst" using d other by auto
  ultimately show thesis using that k(3,6) n by simp
qed

end

lemma get_object_om:
  assumes "gw_get_object lib gw w bucket key who = (w', r)"
  shows "w_om w' = fst (om_get_key_info (gw_om gw who) (w_om w) S3_VOLUME bucket key)"
proof -
  obtain o1 r1 where g: "om_get_key_info (gw_om gw who) (w_om w) S3_VOLUME bucket key = (o1, r1)" by fastforce
  show ?thesis
  proof (cases r1)
    case (Ok meta)
    obtain w2 r2 where b: "read_blocks lib (km_blocks meta) (w\<lparr>w_om := o1\<rparr>) [] = (w2, r2)" by fastforce
    have "w' = w\<lparr>w_om := o1\<rparr> \<or> w' = w2"
      using assms g Ok b by (cases r2; cases "unat (km_size meta) < 2 ^ 63"; auto simp: gw_get_object_def on_om_def with_capacity_def)
    then show ?thesis using read_blocks_world [OF b] g by auto
  qed (use g assms in \<open>auto simp: gw_get_object_def on_om_def\<close>)
qed

context live_env begin

lemma delete_shard_up:
  assumes "net_good ready (w_net w)"
  shows "net_good ready (w_net (delete_shard block slot w))"
proof (cases "endpoint_for_slot block (of_nat slot)")
  case (Ok e)
  obtain w1 r where d: "gw_dn w e = (w1, r)" by fastforce
  have n: "net_good ready (w_net w1)" using gw_dn_world [OF d] assms by simp
  let ?b = "block_id_ec (bl_container_id block) (bl_local_id block) (of_nat slot)"
  have "net_good ready (w_net (fst (dn_call w1 e (\<lambda>rpc s. client_delete_block rpc s ?b))))"
  proof (cases "w_net w1 e")
    case (Some p)
    obtain rpc s where p: "p = (rpc, s)" by fastforce
    then have "ready e rpc s" using n Some by (simp add: net_good_def)
    then have "ready e rpc (fst (client_delete_block rpc s ?b))" using peers_up.ready_delete by (metis prod.collapse)
    then show ?thesis using n Some p by (auto simp: dn_call_def net_good_def)
  qed (use n in \<open>simp add: dn_call_def\<close>)
  then show ?thesis using Ok d n by (cases r) (simp_all add: delete_shard_def)
qed (use assms in \<open>simp_all add: delete_shard_def\<close>)

lemma delete_object_up:
  assumes "net_good ready (w_net w)" "gw_delete_object gw w bucket key who = (w', r)"
  shows "net_good ready (w_net w')"
proof -
  have slots: "net_good ready (w_net (foldl (\<lambda>w slot. delete_shard block slot w) w slots))" if "net_good ready (w_net w)" for block slots w
    using that by (induction slots arbitrary: w) (simp_all add: delete_shard_up)
  have blocks: "net_good ready (w_net (delete_blocks blocks w))" if "net_good ready (w_net w)" for blocks w
    unfolding delete_blocks_def using that by (induction blocks arbitrary: w) (simp_all add: slots del: upt_Suc)
  obtain o1 r1 where "om_get_key_info (gw_om gw who) (w_om w) S3_VOLUME bucket key = (o1, r1)" by fastforce
  with assms blocks [of "w\<lparr>w_om := o1\<rparr>"] show ?thesis
    by (cases r1) (auto simp: gw_delete_object_def on_om_def Let_def)
qed

lemma copy_object_up:
  assumes ch: "gw_om_channel gw = ch" and owf: "owf (w_om w)" and nr: "net_good ready (w_net w)"
    and src: "gw_get_object lib gw w sb sk who = (w0, Ok (body, src_etag, md, t0))"
    and bk: "has_bucket (w_om w) S3_VOLUME db"
    and rm: "0 < room (w_om w)" "length (chunks (gw_block_group_size gw) body) \<le> room (w_om w)"
    and rc: "\<And>bl. pool (bl_ec bl) (bl_members bl) \<Longrightarrow> reachable (w_net w) bl"
  obtains w1 where "gw_copy_object lib gw w db dk sb sk who dirs = (w1, Ok (md5_hex lib body, of_nat (length body)))"
    "owf (w_om w1)" "net_good ready (w_net w1)"
proof -
  let ?md = "if cpd_replace_metadata dirs then cpd_metadata dirs else fst (split_metadata (lib_hash_order lib md))"
  let ?tags = "if cpd_replace_tags dirs then cpd_tags dirs else snd (split_metadata (lib_hash_order lib md))"
  have cl: "oc_submit (gw_om gw who) = ch" using ch by (simp add: gw_om_def)
  obtain o1 meta where g: "om_get_key_info (gw_om gw who) (w_om w) S3_VOLUME sb sk = (o1, Ok meta)"
    using get_object_answer(2) [OF src] by blast
  then have "ov_keys (oabs (w_om w)) (S3_VOLUME, sb, sk) = Some meta" using om.get_key_info [OF cl owf g] by blast
  from om_up.get_answers [OF cl owf this g] get_object_om [OF src] g
  have om0: "has_bucket (w_om w0) = has_bucket (w_om w)" "room (w_om w) \<le> room (w_om w0)" by simp_all
  note w0 = get_object_world [OF ch owf src]
  have "\<exists>w'. gw_put_object lib gw w0 db dk who body ?md ?tags = (w', Ok (md5_hex lib body)) \<and> net_good ready (w_net w') \<and>
      dom (w_net w') = dom (w_net w0) \<and> room (w_om w0) \<le> room (w_om w') + length (chunks (gw_block_group_size gw) body) + 1"
    by (rule put_object_up [OF ch]) (use w0 nr om0 bk rm rc in auto)
  then obtain w1 where put: "gw_put_object lib gw w0 db dk who body ?md ?tags = (w1, Ok (md5_hex lib body))" "net_good ready (w_net w1)"
    by blast
  have "gw_copy_object lib gw w db dk sb sk who dirs = (w1, Ok (md5_hex lib body, of_nat (length body)))"
    unfolding copy_object_put [OF src] put(1) by simp
  moreover have "owf (w_om w1)" using put_object_step [OF ch _ _ put(1)] w0 ready_net_good [OF nr] by auto
  ultimately show thesis using that put(2) by blast
qed

end

lemma enough_mono: "A \<subseteq> B \<Longrightarrow> enough A block \<Longrightarrow> enough B block"
proof -
  let ?S = "\<lambda>A. {i. i < pr_slots block \<and> (\<exists>e\<in>A. endpoint_for_slot block (of_nat (Suc i)) = Ok e)}"
  assume "A \<subseteq> B"
  then have "card (?S A) \<le> card (?S B)" by (intro card_mono) auto
  then show "enough A block \<Longrightarrow> enough B block" by (simp add: enough_def)
qed

text \<open>
  C26: a copy does not depend on its source. Suppose a key reads as some object, the manager has the
  destination bucket and enough blocks left, every datanode it places blocks on is up, with storage
  that does not fail and no closed containers, and the erasure coder is within its documentation. Then
  copying the key to another one returns the MD5 and the length of the object. After the source is
  deleted, whatever that delete reports, and whichever datanodes are lost then, as long as the
  remaining set \<open>A\<close> has \<open>k\<close> slots of every placement the manager uses, a get of the copy returns the
  object byte for byte. It carries the metadata and tags the directives ask for, which without a
  replacement are all those of the source; its ETag is the \<open>ETAG\<close> entry of the metadata copied or given,
  and the MD5 of the object where that has none.
\<close>

theorem copy_outlives_source:
  assumes "isal_contract (lib_isal lib)" "fjall_contract F P kv" "fjall_reliable F P"
    and "om_answers (gw_om_channel gw) oabs owf has_bucket room pool"
    and "owf (w_om w)" "net_good (dn_ready (lib_crc lib) F P kv root) (w_net w)"
    and "0 < gw_block_group_size gw" "length body < 2 ^ 63"
    and "btree_wf (cpd_metadata dirs)" "\<And>md. mset (lib_hash_order lib md) = mset md"
    and "gw_get_object lib gw w sb sk who = (w0, Ok (body, src_etag, md, t0))" "(db, dk) \<noteq> (sb, sk)"
    and "has_bucket (w_om w) S3_VOLUME db"
    and "0 < room (w_om w)" "div_ceil (length body) (gw_block_group_size gw) \<le> room (w_om w)"
    and "\<And>bl. pool (bl_ec bl) (bl_members bl) \<Longrightarrow> reachable (w_net w) bl \<and> enough A bl"
  shows "\<exists>w1 w2 r w3 m t.
    gw_copy_object lib gw w db dk sb sk who dirs = (w1, Ok (md5_hex lib body, of_nat (length body))) \<and>
    gw_delete_object gw w1 sb sk remover = (w2, r) \<and>
    gw_get_object lib gw (w2\<lparr>w_net := w_net w2 |` A\<rparr>) db dk reader =
      (w3, Ok (body, case map_of (if cpd_replace_metadata dirs then cpd_metadata dirs else md) ''ETAG'' of
          Some e \<Rightarrow> e | None \<Rightarrow> md5_hex lib body, m, t)) \<and>
    m = btree_insert ''ETAG'' (md5_hex lib body) (copied_metadata lib dirs md) \<and>
    (\<not> cpd_replace_metadata dirs \<and> \<not> cpd_replace_tags dirs \<longrightarrow> m = btree_insert ''ETAG'' (md5_hex lib body) md)"
proof -
  let ?segs = "chunks (gw_block_group_size gw) body" and ?md = "copied_metadata lib dirs md"
  note env = deployed_live_env [OF assms(4,2,3,1), of root]
  note genv = live_env.axioms(1) [OF env]
  have "length ?segs \<le> room (w_om w)" using assms(15) by (simp add: length_chunks [OF assms(7)])
  then obtain w1 where copy: "gw_copy_object lib gw w db dk sb sk who dirs = (w1, Ok (md5_hex lib body, of_nat (length body)))"
    "owf (w_om w1)" "net_good (dn_ready (lib_crc lib) F P kv root) (w_net w1)"
    using live_env.copy_object_up [OF env refl assms(5,6,11,13,14)] assms(16) by blast
  obtain w2 r where del: "gw_delete_object gw w1 sb sk remover = (w2, r)" by fastforce
  obtain blocks t where k: "list_all2 (group_held (lib_crc lib) (dn_recorded P kv, dn_stored root) (w_net w2)) blocks ?segs"
    "ov_keys (oabs (w_om w2)) (S3_VOLUME, db, dk) =
      Some (committed_meta blocks (of_nat (length body)) (Some (md5_hex lib body)) (lib_hash_order lib ?md) t)"
    by (rule gateway_env.copy_then_delete [OF genv refl assms(5) live_env.ready_net_good [OF env assms(6)] copy(1) assms(12) del assms(11)])
  have up2: "owf (w_om w2)" "net_good (dn_ready (lib_crc lib) F P kv root) (w_net w2)"
    using gateway_env.delete_object_step [OF genv refl copy(2) live_env.ready_net_good [OF env copy(3)] del]
      live_env.delete_object_up [OF env copy(3) del] by blast+
  note md = copied_metadata_read [OF get_object_answer(1) [OF assms(11)] assms(9,10)]
  have body: "concat ?segs = body" by (rule concat_chunks [OF assms(7)])
  obtain w3 where "gw_get_object lib gw (w2\<lparr>w_net := w_net w2 |` A\<rparr>) db dk reader = (w3, Ok (concat ?segs,
      case map_of ?md ''ETAG'' of Some e \<Rightarrow> e | None \<Rightarrow> md5_hex lib body, btree_insert ''ETAG'' (md5_hex lib body) ?md, t))"
    by (rule live_env.get_object_up [OF env refl up2 k(2), of ?segs A reader, unfolded committed_read [OF md(1) assms(10)] option.case])
      (use k(1) body assms(8,16) in \<open>auto simp: unat_of_nat committed_meta_def Let_def\<close>)
  moreover have "\<not> cpd_replace_metadata dirs \<and> \<not> cpd_replace_tags dirs \<longrightarrow>
      btree_insert ''ETAG'' (md5_hex lib body) ?md = btree_insert ''ETAG'' (md5_hex lib body) md" using md(3) by simp
  ultimately show ?thesis unfolding body md(2) using copy(1) del by blast
qed

theorem copy_outlives_source_witness:
  "\<exists>w w1 w2 r w3 t. gw_put_object trio_lib trio_gw trio_world ''photos'' ''a'' ''alice'' [1, 2, 3, 4, 5] [] [] =
       (w, Ok (md5_hex trio_lib [1, 2, 3, 4, 5])) \<and>
     gw_copy_object trio_lib trio_gw w ''photos'' ''b'' ''photos'' ''a'' ''alice''
       \<lparr>cpd_replace_metadata = True, cpd_metadata = [(''color'', ''blue'')], cpd_replace_tags = False, cpd_tags = []\<rparr> =
       (w1, Ok (md5_hex trio_lib [1, 2, 3, 4, 5], 5)) \<and>
     gw_delete_object trio_gw w1 ''photos'' ''a'' ''carol'' = (w2, r) \<and>
     gw_get_object trio_lib trio_gw (w2\<lparr>w_net := w_net w2 |` trio_survivors\<rparr>) ''photos'' ''b'' ''bob'' =
       (w3, Ok ([1, 2, 3, 4, 5], md5_hex trio_lib [1, 2, 3, 4, 5],
          [(''ETAG'', md5_hex trio_lib [1, 2, 3, 4, 5]), (''color'', ''blue'')], t))"
proof -
  let ?body = "[1, 2, 3, 4, 5] :: bytes" and ?root = "\<lambda>_ :: string. ''/d''"
  let ?ready = "net_good (dn_ready sum_digest mem_keyspace mem_postcard mem_kv ?root)"
  let ?good = "net_good (dn_good sum_digest mem_keyspace mem_postcard mem_kv ?root)"
  let ?held = "group_held sum_digest (dn_recorded mem_postcard mem_kv, dn_stored ?root)"
  let ?dirs = "\<lparr>cpd_replace_metadata = True, cpd_metadata = [(''color'', ''blue'')], cpd_replace_tags = False, cpd_tags = []\<rparr> :: copy_directives"
  let ?etag = "md5_hex trio_lib ?body" and ?abs = "fx_abs trio_ec trio_members" and ?wf = "fx_wf trio_ec trio_members"
  have segs: "chunks (gw_block_group_size trio_gw) ?body = [[1, 2, 3], [4, 5]]" by (simp add: chunks.simps)
  obtain w where put: "gw_put_object trio_lib trio_gw trio_world ''photos'' ''a'' ''alice'' ?body [] [] = (w, Ok ?etag)" "?ready (w_net w)"
    "dom (w_net w) = dom (w_net trio_world)" "fx_room (w_om trio_world) \<le> fx_room (w_om w) + 3"
    using trio_live.put_object_up [of trio_gw "\<lambda>d. d" _ ?root ?body, OF _ trio_world_wf trio_world_ready]
      trio_world_room trio_reachable segs by fastforce
  have good: "?good (w_net trio_world)" using trio_live.ready_net_good trio_world_ready by blast
  note step = trio_env.put_object_step [of trio_gw "\<lambda>d. d", OF _ trio_world_wf good put(1)]
  have wf: "?wf (w_om w)" using step by simp
  obtain blocks t where m: "ov_keys (?abs (w_om w)) (S3_VOLUME, ''photos'', ''a'') = Some (committed_meta blocks 5 (Some ?etag) [] t)"
    "list_all2 (?held (w_net w)) blocks [[1, 2, 3], [4, 5]]"
    using step segs by (auto simp: tagged_def)
  have all: "enough UNIV bl" if "bl_ec bl = trio_ec \<and> bl_members bl = trio_members" for bl
    by (rule enough_mono [OF subset_UNIV trio_enough [OF that]])
  have all_up: "w\<lparr>w_net := w_net w |` UNIV\<rparr> = w" by (simp add: restrict_map_def)
  obtain w0 where get: "gw_get_object trio_lib trio_gw w ''photos'' ''a'' ''alice'' = (w0, Ok (?body, ?etag, [(''ETAG'', ?etag)], t))"
    using trio_live.get_object_up [of trio_gw "\<lambda>d. d", OF _ wf put(2) m(1), of "[[1, 2, 3], [4, 5]]" UNIV "''alice''"] m(2) all
    by (auto simp: all_up committed_meta_def btree_collect_def Let_def)
  have reach: "reachable (w_net w) bl \<and> enough trio_survivors bl" if "bl_ec bl = trio_ec \<and> bl_members bl = trio_members" for bl
    using trio_reachable [OF that] trio_enough [OF that] reachable_dom [OF put(3)] by blast
  have out: "btree_insert ''ETAG'' ?etag (copied_metadata trio_lib ?dirs [(''ETAG'', ?etag)]) = [(''ETAG'', ?etag), (''color'', ''blue'')]"
    by (simp add: copied_metadata_def split_metadata_def strip_prefix_def TAG_META_PREFIX_def tagged_def)
  from copy_outlives_source [of trio_lib mem_keyspace mem_postcard mem_kv trio_gw ?abs ?wf "\<lambda>_ _ _. True" fx_room
      "\<lambda>ec' ms. ec' = trio_ec \<and> ms = trio_members" w ?root ?body ?dirs "''photos''" "''a''" "''alice''" w0 ?etag "[(''ETAG'', ?etag)]" t
      "''photos''" "''b''" trio_survivors "''carol''" "''bob''"]
  have "\<exists>w1 w2 r w3 t. gw_copy_object trio_lib trio_gw w ''photos'' ''b'' ''photos'' ''a'' ''alice'' ?dirs = (w1, Ok (?etag, 5)) \<and>
      gw_delete_object trio_gw w1 ''photos'' ''a'' ''carol'' = (w2, r) \<and>
      gw_get_object trio_lib trio_gw (w2\<lparr>w_net := w_net w2 |` trio_survivors\<rparr>) ''photos'' ''b'' ''bob'' =
        (w3, Ok (?body, ?etag, [(''ETAG'', ?etag), (''color'', ''blue'')], t))"
    unfolding out
    using isal_ref_contract mem.fjall_contract_axioms mem_reliable trio_answers.om_answers_axioms wf put(2,4) get reach trio_world_room
    by (simp add: btree_wf_def div_ceil_def)
  with put(1) show ?thesis by blast
qed

end
