(* ===== verification/Rust_Utf8.thy ===== *)
theory Rust_Utf8
  imports Rust_Str Ozone_Types "HOL-Library.Signed_Division"
begin

text \<open>
  More of Rust's standard library that the S3 front end uses: validation and lossy decoding of UTF-8,
  splitting at white space, signed numerals, zero-padded formatting and 64-bit signed arithmetic. A
  string is the list of its UTF-8 bytes, one character of HOL per byte.
\<close>

section \<open>UTF-8\<close>

definition chars_of :: "bytes \<Rightarrow> string" where
  "chars_of bs = map (\<lambda>b. char_of (unat b)) bs"

definition bytes_of :: "string \<Rightarrow> bytes" where
  "bytes_of s = map (\<lambda>c. of_nat (of_char c)) s"

lemma of_char_lt: "of_char c < (256 :: nat)"
  by (cases c) (simp add: of_char_def horner_sum_simps of_bool_def)

lemma bytes_of_chars_of [simp]: "bytes_of (chars_of bs) = bs"
proof -
  have "of_nat (of_char (char_of (unat b) :: char)) = b" for b :: u8
    using unsigned_less [of b, where 'a = nat] by (simp add: of_char_of)
  then show ?thesis by (simp add: bytes_of_def chars_of_def o_def)
qed

lemma chars_of_bytes_of [simp]: "chars_of (bytes_of s) = s"
proof -
  have "char_of (unat (of_nat (of_char c) :: u8)) = c" for c :: char
    using of_char_lt [of c] by (simp add: unat_of_nat)
  then show ?thesis by (simp add: bytes_of_def chars_of_def o_def)
qed

text \<open>
  One step of the decoder: whether the next character is well formed, and how many bytes it takes or,
  if it is not, how many bytes one replacement character stands for. Past the end a byte reads as 0.
\<close>

definition byte_at :: "string \<Rightarrow> nat \<Rightarrow> nat" where
  "byte_at s i = (if i < length s then of_char (s ! i) else 0)"

definition is_cont :: "nat \<Rightarrow> bool" where
  "is_cont b \<longleftrightarrow> 0x80 \<le> b \<and> b \<le> 0xBF"

definition second_ok :: "nat \<Rightarrow> nat \<Rightarrow> bool" where
  "second_ok b0 b1 \<longleftrightarrow>
     (if b0 = 0xE0 then 0xA0 \<le> b1 \<and> b1 \<le> 0xBF
      else if b0 = 0xED then 0x80 \<le> b1 \<and> b1 \<le> 0x9F
      else if b0 = 0xF0 then 0x90 \<le> b1 \<and> b1 \<le> 0xBF
      else if b0 = 0xF4 then 0x80 \<le> b1 \<and> b1 \<le> 0x8F
      else is_cont b1)"

definition utf8_next :: "string \<Rightarrow> bool \<times> nat" where
  "utf8_next s =
     (let b0 = byte_at s 0; b1 = byte_at s 1; b2 = byte_at s 2; b3 = byte_at s 3 in
      if b0 < 0x80 then (True, 1)
      else if 0xC2 \<le> b0 \<and> b0 \<le> 0xDF then (if is_cont b1 then (True, 2) else (False, 1))
      else if 0xE0 \<le> b0 \<and> b0 \<le> 0xEF then
        (if \<not> second_ok b0 b1 then (False, 1) else if is_cont b2 then (True, 3) else (False, 2))
      else if 0xF0 \<le> b0 \<and> b0 \<le> 0xF4 then
        (if \<not> second_ok b0 b1 then (False, 1) else if \<not> is_cont b2 then (False, 2)
         else if is_cont b3 then (True, 4) else (False, 3))
      else (False, 1))"

lemma utf8_next_pos: "0 < snd (utf8_next s)"
  by (simp add: utf8_next_def Let_def)

text \<open>U+FFFD, the replacement character.\<close>

definition REPLACEMENT :: string where
  "REPLACEMENT = map char_of [0xEF, 0xBF, 0xBD :: nat]"

function utf8_lossy :: "string \<Rightarrow> string" where
  "utf8_lossy s =
     (if s = [] then []
      else (if fst (utf8_next s) then take (snd (utf8_next s)) s else REPLACEMENT) @ utf8_lossy (drop (snd (utf8_next s)) s))"
  by auto
termination
  by (relation "measure length") (use utf8_next_pos in auto)

function is_utf8 :: "string \<Rightarrow> bool" where
  "is_utf8 s = (if s = [] then True else if fst (utf8_next s) then is_utf8 (drop (snd (utf8_next s)) s) else False)"
  by auto
termination
  by (relation "measure length") (use utf8_next_pos in auto)

declare utf8_lossy.simps [simp del] is_utf8.simps [simp del]

definition from_utf8_lossy :: "bytes \<Rightarrow> string" where
  "from_utf8_lossy bs = utf8_lossy (chars_of bs)"

definition from_utf8 :: "bytes \<Rightarrow> string option" where
  "from_utf8 bs = (if is_utf8 (chars_of bs) then Some (chars_of bs) else None)"

text \<open>\<open>chars().count()\<close>: every byte that does not continue a character starts one.\<close>

definition char_count :: "string \<Rightarrow> nat" where
  "char_count s = length (filter (\<lambda>c. \<not> is_cont (of_char c)) s)"

lemma utf8_lossy_valid: "is_utf8 s \<Longrightarrow> utf8_lossy s = s"
proof (induction s rule: utf8_lossy.induct)
  case (1 s)
  then show ?case by (subst utf8_lossy.simps) (auto simp: is_utf8.simps [of s])
qed

text \<open>A well-formed string is a sequence of well-formed characters, each ASCII or all of high bytes.\<close>

definition utf8_char :: "string \<Rightarrow> bool" where
  "utf8_char u \<longleftrightarrow> u \<noteq> [] \<and> utf8_next u = (True, length u)"

lemma byte_at_append: "i < length s \<Longrightarrow> byte_at (s @ t) i = byte_at s i"
  by (simp add: byte_at_def nth_append)

lemma byte_at_pos: "0 < byte_at s i \<Longrightarrow> i < length s"
  by (simp add: byte_at_def split: if_splits)

lemma second_ok_pos: "second_ok b0 b1 \<Longrightarrow> 0x80 \<le> b1"
  by (auto simp: second_ok_def is_cont_def split: if_splits)

lemma utf8_next_valid:
  assumes "s \<noteq> []" "utf8_next s = (True, n)"
  shows "n \<le> length s \<and> (\<forall>t. utf8_next (take n s @ t) = (True, n)) \<and>
    (n = 1 \<and> byte_at s 0 < 0x80 \<or> (\<forall>i<n. 0x80 \<le> byte_at s i))"
proof -
  let ?b = "byte_at s"
  have 0: "0 < length s" using assms(1) by simp
  consider "n = 1" "?b 0 < 0x80" | "n = 2" "0xC2 \<le> ?b 0" "?b 0 \<le> 0xDF" "is_cont (?b 1)"
    | "n = 3" "0xE0 \<le> ?b 0" "?b 0 \<le> 0xEF" "second_ok (?b 0) (?b 1)" "is_cont (?b 2)"
    | "n = 4" "0xF0 \<le> ?b 0" "?b 0 \<le> 0xF4" "second_ok (?b 0) (?b 1)" "is_cont (?b 2)" "is_cont (?b 3)"
    using assms(2) by (auto simp: utf8_next_def Let_def split: if_splits)
  then have n: "n \<le> length s \<and> (n = 1 \<and> ?b 0 < 0x80 \<or> (\<forall>i<n. 0x80 \<le> ?b i))"
  proof cases
    case 1
    then show ?thesis using 0 by (simp add: Suc_le_eq)
  next
    case 2
    then have "1 < length s" using byte_at_pos [of s 1] by (simp add: is_cont_def)
    with 2 show ?thesis by (auto simp: is_cont_def less_2_cases_iff)
  next
    case 3
    then have "2 < length s" "0x80 \<le> ?b 1" using byte_at_pos [of s 2] second_ok_pos by (auto simp: is_cont_def)
    moreover have "i = 0 \<or> i = 1 \<or> i = 2" if "i < 3" for i :: nat using that by linarith
    ultimately show ?thesis using 3 by (fastforce simp: is_cont_def)
  next
    case 4
    then have "3 < length s" "0x80 \<le> ?b 1" using byte_at_pos [of s 3] second_ok_pos by (auto simp: is_cont_def)
    moreover have "i = 0 \<or> i = 1 \<or> i = 2 \<or> i = 3" if "i < 4" for i :: nat using that by linarith
    ultimately show ?thesis using 4 by (fastforce simp: is_cont_def)
  qed
  moreover have "utf8_next (take n s @ t) = (True, n)" for t
  proof -
    have "byte_at (take n s @ t) i = ?b i" if "i < n" for i using n that by (simp add: byte_at_def nth_append)
    then show ?thesis using assms(2) 0 by (auto simp: utf8_next_def Let_def split: if_splits)
  qed
  ultimately show ?thesis by blast
qed

lemma is_utf8_Nil [simp]: "is_utf8 []"
  by (simp add: is_utf8.simps)

lemma utf8_char_next: "utf8_char u \<Longrightarrow> utf8_next (u @ t) = (True, length u)"
  using utf8_next_valid [of u "length u"] by (simp add: utf8_char_def)

lemma is_utf8_char: "utf8_char u \<Longrightarrow> is_utf8 (u @ t) \<longleftrightarrow> is_utf8 t"
  using utf8_char_next [of u t] by (subst is_utf8.simps) (auto simp: utf8_char_def)

lemma is_utf8_induct [consumes 1, case_names Nil Char]:
  assumes "is_utf8 s" "P []" "\<And>u t. utf8_char u \<Longrightarrow> is_utf8 t \<Longrightarrow> P t \<Longrightarrow> P (u @ t)"
  shows "P s"
  using assms(1)
proof (induction s rule: is_utf8.induct)
  case (1 s)
  show ?case
  proof (cases "s = []")
    case False
    then obtain n where n: "utf8_next s = (True, n)" "is_utf8 (drop n s)"
      using "1.prems" by (cases "utf8_next s") (auto simp: is_utf8.simps [of s] split: if_splits)
    note v = utf8_next_valid [OF False n(1)]
    have "0 < n" using utf8_next_pos [of s] n(1) by simp
    then have "utf8_char (take n s)" using v spec [of _ "[]", OF conjunct1 [OF conjunct2 [OF v]]] False by (simp add: utf8_char_def)
    moreover have "P (drop n s)" using "1.IH" [OF False] n by simp
    ultimately show ?thesis using assms(3) [of "take n s" "drop n s"] n(2) by simp
  qed (use assms(2) in simp)
qed

lemma is_utf8_append: "is_utf8 s \<Longrightarrow> is_utf8 t \<Longrightarrow> is_utf8 (s @ t)"
  by (induction rule: is_utf8_induct) (simp_all add: is_utf8_char)

lemma is_utf8_concat: "\<forall>s\<in>set ss. is_utf8 s \<Longrightarrow> is_utf8 (concat ss)"
  by (induction ss) (auto simp: is_utf8_append)

lemma utf8_char_cases:
  assumes "utf8_char u"
  shows "(\<exists>c. u = [c] \<and> of_char c < (0x80 :: nat)) \<or> (\<forall>c\<in>set u. (0x80 :: nat) \<le> of_char c)"
proof -
  have "length u = 1 \<and> byte_at u 0 < 0x80 \<or> (\<forall>i<length u. 0x80 \<le> byte_at u i)"
    using utf8_next_valid [of u "length u"] assms by (simp add: utf8_char_def)
  then show ?thesis
    by (auto simp: byte_at_def in_set_conv_nth length_Suc_conv)
qed

definition is_ascii :: "string \<Rightarrow> bool" where
  "is_ascii s \<longleftrightarrow> list_all (\<lambda>c. of_char c < (0x80 :: nat)) s"

lemma is_utf8_ascii: "is_ascii s \<Longrightarrow> is_utf8 s"
proof (induction s)
  case (Cons c s)
  then have "utf8_char [c]" by (simp add: utf8_char_def utf8_next_def byte_at_def is_ascii_def)
  from is_utf8_char [OF this, of s] Cons show ?case by (simp add: is_ascii_def)
qed simp

lemma from_utf8_lossy_bytes_of [simp]: "is_utf8 s \<Longrightarrow> from_utf8_lossy (bytes_of s) = s"
  by (simp add: from_utf8_lossy_def utf8_lossy_valid)

section \<open>White space\<close>

lemma length_trim_start: "length (trim_start s) \<le> length s"
proof (induction s rule: trim_start.induct)
  case (1 s)
  show ?case
  proof (cases "find (\<lambda>w. prefix w s) utf8_whitespace")
    case (Some w)
    then show ?thesis using "1.IH" [OF Some] by (subst trim_start.simps) simp
  qed (simp add: trim_start.simps)
qed

definition at_space :: "string \<Rightarrow> bool" where
  "at_space s \<longleftrightarrow> find (\<lambda>w. prefix w s) utf8_whitespace \<noteq> None"

fun span_word :: "string \<Rightarrow> string \<times> string" where
  "span_word [] = ([], [])"
| "span_word (c # s) = (if at_space (c # s) then ([], c # s) else let (w, r) = span_word s in (c # w, r))"

text \<open>\<open>split_whitespace\<close>: the words between runs of white space.\<close>

function split_whitespace :: "string \<Rightarrow> string list" where
  "split_whitespace s =
     (case trim_start s of
        [] \<Rightarrow> []
      | c # t \<Rightarrow> let (w, r) = span_word t in (c # w) # split_whitespace r)"
  by auto
termination
proof (relation "measure length")
  fix s :: string and c t x w r
  assume t: "trim_start s = c # t" and x: "x = span_word t" and r: "(w, r) = x"
  have "length r \<le> length t" if "(w, r) = span_word t" for w r t
    using that by (induction t arbitrary: w r) (auto simp: Let_def split: if_splits prod.splits intro: le_SucI)
  with r x have "length r \<le> length t" by blast
  moreover have "length (c # t) \<le> length s" unfolding t [symmetric] by (rule length_trim_start)
  ultimately show "(r, s) \<in> measure length" by simp
qed simp

declare split_whitespace.simps [simp del]

section \<open>Signed numerals and formatting\<close>

text \<open>\<open>str::parse::<i64>\<close>: an optional sign, at least one digit, no overflow.\<close>

definition parse_i64 :: "string \<Rightarrow> int option" where
  "parse_i64 s =
     (case s of
        [] \<Rightarrow> None
      | c # cs \<Rightarrow>
          if c = CHR ''-'' then (if cs = [] then None else map_option (\<lambda>n. - int n) (parse_digits 10 (2 ^ 63) 0 cs))
          else map_option int (parse_unsigned 10 (2 ^ 63 - 1) s))"

definition parse_usize :: "string \<Rightarrow> nat option" where
  "parse_usize s = parse_unsigned 10 (2 ^ 64 - 1) s"

definition parse_u32 :: "string \<Rightarrow> u32 option" where
  "parse_u32 s = map_option of_nat (parse_unsigned 10 (2 ^ 32 - 1) s)"

text \<open>\<open>{:0w}\<close> of an integer: zeros after the sign up to the width.\<close>

definition zero_pad :: "nat \<Rightarrow> int \<Rightarrow> string" where
  "zero_pad w n =
     (let ds = nat_to_dec (nat \<bar>n\<bar>); sign = (if n < 0 then ''-'' else []) in
      sign @ replicate (w - length sign - length ds) (CHR ''0'') @ ds)"

section \<open>64-bit signed arithmetic\<close>

text \<open>
  An \<open>i64\<close> is an integer in \<open>[-2^63, 2^63)\<close>; an operation that leaves the range wraps around. Division
  and remainder truncate, \<open>div_euclid\<close> and \<open>rem_euclid\<close> by a positive number round down.
\<close>

definition i64_wrap :: "int \<Rightarrow> int" where
  "i64_wrap x = signed_take_bit 63 x"

definition i64_range :: "int \<Rightarrow> bool" where
  "i64_range x \<longleftrightarrow> - (2 ^ 63) \<le> x \<and> x < 2 ^ 63"

lemma i64_wrap_id [simp]: "i64_range x \<Longrightarrow> i64_wrap x = x"
  by (simp add: i64_wrap_def i64_range_def signed_take_bit_int_eq_self)

lemma sdiv_nonneg: "0 \<le> k \<Longrightarrow> 0 < l \<Longrightarrow> k sdiv l = k div (l :: int)"
  by (cases "k = 0") (simp_all add: signed_divide_int_def)

lemma smod_nonneg: "0 \<le> k \<Longrightarrow> 0 < l \<Longrightarrow> k smod l = k mod (l :: int)"
  by (cases "k = 0") (simp_all add: signed_modulo_int_def)

lemma parse_digits_zeros: "parse_digits radix mx 0 (replicate n (CHR ''0'') @ s) = parse_digits radix mx 0 s" if "0 < radix"
  using that by (induction n) (simp_all add: to_digit_def)

lemma parse_zero_pad:
  assumes "0 \<le> n" "n < 2 ^ 63"
  shows "parse_i64 (zero_pad w n) = Some n"
proof -
  let ?m = "nat n" and ?z = "replicate (w - length (nat_to_dec (nat n))) (CHR ''0'')"
  have z: "zero_pad w n = ?z @ nat_to_dec ?m" using assms(1) by (simp add: zero_pad_def Let_def)
  have "?m \<le> 2 ^ 63 - 1" using assms by (simp add: nat_le_iff)
  then have p: "parse_digits 10 (2 ^ 63 - 1) 0 (zero_pad w n) = Some ?m"
    unfolding z using parse_digits_nat_to_dec [of ?m "2 ^ 63 - 1" "[]"] by (simp add: parse_digits_zeros)
  have "zero_pad w n \<noteq> []" unfolding z by simp
  then obtain c cs where s: "zero_pad w n = c # cs" by (auto simp: neq_Nil_conv)
  have "CHR ''+'' \<notin> set (zero_pad w n)" "CHR ''-'' \<notin> set (zero_pad w n)"
    unfolding z using nat_to_dec_notin [of "CHR ''+''" ?m] nat_to_dec_notin [of "CHR ''-''" ?m] by auto
  then have "c \<noteq> CHR ''+''" "c \<noteq> CHR ''-''" unfolding s by auto
  then show ?thesis using p s assms(1) by (simp add: parse_i64_def parse_unsigned_def)
qed

section \<open>Visible ASCII text\<close>

definition graphic :: "char \<Rightarrow> bool" where
  "graphic c \<longleftrightarrow> 33 \<le> (of_char c :: nat) \<and> (of_char c :: nat) \<le> 126"

lemma utf8_whitespace_hd: "w \<in> set utf8_whitespace \<Longrightarrow> w \<noteq> [] \<and> \<not> graphic (hd w)"
  by (auto simp: utf8_whitespace_def graphic_def)

lemma utf8_whitespace_last: "w \<in> set utf8_whitespace \<Longrightarrow> w \<noteq> [] \<and> \<not> graphic (last w)"
  by (auto simp: utf8_whitespace_def graphic_def)

lemma graphic_not_space: "graphic c \<Longrightarrow> find (\<lambda>w. prefix w (c # s)) utf8_whitespace = None"
  by (auto simp: find_None_iff prefix_Cons dest!: utf8_whitespace_hd)

lemma graphic_not_space_end: "graphic c \<Longrightarrow> find (\<lambda>w. suffix w (s @ [c])) utf8_whitespace = None"
  by (auto simp: find_None_iff suffix_snoc dest!: utf8_whitespace_last)

lemma space_find: "find (\<lambda>w. prefix w (CHR '' '' # s)) utf8_whitespace = Some '' ''"
  by (simp add: utf8_whitespace_def char_of_eq_iff)

lemma trim_start_graphic [simp]: "graphic c \<Longrightarrow> trim_start (c # s) = c # s"
  by (subst trim_start.simps) (simp add: graphic_not_space)

lemma trim_start_space [simp]: "trim_start (CHR '' '' # s) = trim_start s"
  by (subst trim_start.simps) (simp add: space_find)

lemma no_empty_space: "find (\<lambda>w. w = []) utf8_whitespace = None"
  by (auto simp: find_None_iff dest: utf8_whitespace_nonempty)

lemma trim_start_Nil [simp]: "trim_start [] = []"
  by (subst trim_start.simps) (simp add: no_empty_space)

lemma trim_end_Nil [simp]: "trim_end [] = []"
  by (subst trim_end.simps) (simp add: no_empty_space)

lemma trim_graphic: "s = [] \<or> graphic (hd s) \<and> graphic (last s) \<Longrightarrow> trim s = s"
proof (cases s rule: rev_cases)
  case (snoc t c)
  assume "s = [] \<or> graphic (hd s) \<and> graphic (last s)"
  with snoc have g: "graphic (hd s)" "graphic c" by auto
  then have "trim_start s = s" by (cases s) (use snoc in auto)
  moreover have "trim_end s = s" unfolding snoc by (subst trim_end.simps) (simp only: graphic_not_space_end [OF g(2)] option.case)
  ultimately show ?thesis by (simp add: trim_def)
qed (simp add: trim_def)

lemma span_word_graphic:
  "list_all graphic w \<Longrightarrow> span_word (w @ CHR '' '' # s) = (w, CHR '' '' # s)" "list_all graphic w \<Longrightarrow> span_word w = (w, [])"
  by (induction w) (auto simp: at_space_def graphic_not_space space_find)

lemma split_whitespace_space [simp]: "split_whitespace (CHR '' '' # s) = split_whitespace s"
  by (subst split_whitespace.simps, subst (2) split_whitespace.simps) simp

lemma split_whitespace_word:
  assumes "list_all graphic w" "w \<noteq> []"
  shows "split_whitespace (w @ CHR '' '' # s) = w # split_whitespace s" "split_whitespace w = [w]"
proof -
  obtain c t where w: "w = c # t" using assms(2) by (cases w) auto
  have "split_whitespace [] = []" by (subst split_whitespace.simps) simp
  with assms(1) show "split_whitespace w = [w]"
    by (subst split_whitespace.simps) (simp add: w span_word_graphic)
  from assms(1) show "split_whitespace (w @ CHR '' '' # s) = w # split_whitespace s"
    by (subst split_whitespace.simps) (simp add: w span_word_graphic)
qed

text \<open>\<open>join\<close> on a slice of strings.\<close>

fun join :: "string \<Rightarrow> string list \<Rightarrow> string" where
  "join sep [] = []"
| "join sep [s] = s"
| "join sep (s # t # ts) = s @ sep @ join sep (t # ts)"

lemma split_once_append: "c \<notin> set a \<Longrightarrow> split_once c (a @ c # b) = Some (a, b)"
  by (induction a) (auto simp: split_once_def)

lemma split_char_append: "c \<notin> set a \<Longrightarrow> split_char c (a @ c # b) = a # split_char c b"
  by (induction a) auto

lemma split_char_single: "c \<notin> set a \<Longrightarrow> split_char c a = [a]"
  by (induction a) auto

lemma join_all: "list_all P sep \<Longrightarrow> \<forall>s\<in>set ss. list_all P s \<Longrightarrow> list_all P (join sep ss)"
  by (induction sep ss rule: join.induct) simp_all

lemma join_nonempty: "ss \<noteq> [] \<Longrightarrow> \<forall>s\<in>set ss. s \<noteq> [] \<Longrightarrow> join sep ss \<noteq> []"
  by (induction sep ss rule: join.induct) simp_all

lemma split_char_join:
  assumes "ss \<noteq> []" "\<forall>s\<in>set ss. c \<notin> set s"
  shows "split_char c (join [c] ss) = ss"
  using assms by (induction "[c]" ss rule: join.induct) (simp_all add: split_char_append split_char_single)

lemma graphic_digit: "d < 10 \<Longrightarrow> graphic (digit_char d)"
  by (simp add: graphic_def)

lemma zero_pad_digits:
  assumes "0 \<le> n" "c \<in> set (zero_pad w n)"
  shows "graphic c" "c \<noteq> CHR '':''" "c \<noteq> CHR '',''"
proof -
  have "digit_char 0 = CHR ''0''" by (simp add: digit_char_def char_of_eq_iff)
  then have "CHR ''0'' \<in> digit_char ` {..<10}" by (intro rev_image_eqI [of 0]) simp_all
  then have "c \<in> digit_char ` {..<10}"
    using assms set_nat_to_dec [of "nat n"] by (auto simp: zero_pad_def Let_def split: if_splits)
  then obtain d where "d < 10" "c = digit_char d" by auto
  then show "graphic c" "c \<noteq> CHR '':''" "c \<noteq> CHR '',''"
    using digit_char_neq [of d "CHR '':''"] digit_char_neq [of d "CHR '',''"] by (auto simp: graphic_digit)
qed

lemma zero_pad_nonempty [simp]: "zero_pad w n \<noteq> []"
  by (simp add: zero_pad_def Let_def)

end
