(* ===== verification/S3_Text.thy ===== *)
theory S3_Text
  imports Gateway_Backend Rust_Utf8
begin

text \<open>
  \<open>crates/ozone-s3-gw/src/lib.rs\<close>, the text the front end takes apart: paths, query strings, XML text,
  entity tags, \<open>aws-chunked\<close> bodies, request documents and byte ranges. A parser's failure is the
  \<open>BadRequest\<close> the source returns.
\<close>

section \<open>Paths and query strings\<close>

definition split_path :: "string \<Rightarrow> string \<times> string" where
  "split_path path =
     (let trimmed = trim_start_char (CHR ''/'') path in
      case split_once (CHR ''/'') trimmed of
        Some (b, k) \<Rightarrow> (b, k)
      | None \<Rightarrow> (trimmed, []))"

text \<open>The decoding loop: \<open>+\<close> is a space, \<open>%XX\<close> a byte, and anything else stands for itself.\<close>

fun pct_bytes :: "string \<Rightarrow> string" where
  "pct_bytes [] = []"
| "pct_bytes (c # s) =
     (if c = CHR ''+'' then CHR '' '' # pct_bytes s
      else if c = CHR ''%'' then
        (case s of
           h # l # t \<Rightarrow>
             (case (to_digit 16 h, to_digit 16 l) of
                (Some hi, Some lo) \<Rightarrow> char_of (hi * 16 + lo) # pct_bytes t
              | _ \<Rightarrow> c # pct_bytes s)
         | _ \<Rightarrow> c # pct_bytes s)
      else c # pct_bytes s)"

definition pct_decode :: "string \<Rightarrow> string" where
  "pct_decode s = utf8_lossy (pct_bytes s)"

fun find_map :: "('a \<Rightarrow> 'b option) \<Rightarrow> 'a list \<Rightarrow> 'b option" where
  "find_map f [] = None"
| "find_map f (x # xs) = (case f x of Some y \<Rightarrow> Some y | None \<Rightarrow> find_map f xs)"

definition query_param :: "string option \<Rightarrow> string \<Rightarrow> string option" where
  "query_param query key =
     (case query of
        None \<Rightarrow> None
      | Some q \<Rightarrow> find_map (\<lambda>kv.
          let (k, v) = (case split_once (CHR ''='') kv of Some p \<Rightarrow> p | None \<Rightarrow> (kv, [])) in
          if k = key then Some (pct_decode v) else None) (split_char (CHR ''&'') q))"

definition parse_copy_source :: "string \<Rightarrow> (gateway_error, string \<times> string) result" where
  "parse_copy_source header =
     (let trimmed = trim_start_char (CHR ''/'') header;
          without_query = hd (split_char (CHR ''?'') trimmed) in
      rbind (ok_or (split_once (CHR ''/'') without_query) (BadRequest ''malformed x-amz-copy-source'')) (\<lambda>(bucket, key).
      if bucket = [] \<or> key = [] then Err (BadRequest ''empty copy-source bucket or key'')
      else Ok (pct_decode bucket, pct_decode key)))"

section \<open>XML text\<close>

definition xml_escape :: "string \<Rightarrow> string" where
  "xml_escape s = str_replace ''>'' ''&gt;'' (str_replace ''<'' ''&lt;'' (str_replace ''&'' ''&amp;'' s))"

definition xml_unescape :: "string \<Rightarrow> string" where
  "xml_unescape s =
     str_replace ''&amp;'' ''&''
       (str_replace ''&apos;'' [CHR 0x27]
         (str_replace ''&quot;'' [CHR 0x22]
           (str_replace ''&gt;'' ''>''
             (str_replace ''&lt;'' ''<'' s))))"

definition extract_xml_element :: "string \<Rightarrow> string \<Rightarrow> string option" where
  "extract_xml_element haystack name =
     (let op = ''<'' @ name @ ''>''; cl = ''</'' @ name @ ''>'' in
      case str_find op haystack of
        None \<Rightarrow> None
      | Some i \<Rightarrow> let rest = drop (i + length op) haystack in map_option (\<lambda>e. take e rest) (str_find cl rest))"

section \<open>Entity tags\<close>

definition quote :: "string \<Rightarrow> string" where
  "quote etag = [CHR 0x22] @ etag @ [CHR 0x22]"

definition etag_list_matches :: "string \<Rightarrow> string \<Rightarrow> bool" where
  "etag_list_matches header quoted_etag =
     (let h = trim header in
      if h = ''*'' then True
      else list_ex (\<lambda>t. t = quoted_etag \<or> map_option trim (strip_prefix ''W/'' t) = Some quoted_etag)
        (map trim (split_char (CHR '','') h)))"

definition parse_object_attributes_header :: "string \<Rightarrow> string list" where
  "parse_object_attributes_header header = filter (\<lambda>s. s \<noteq> []) (map trim (split_char (CHR '','') header))"

section \<open>Chunked bodies\<close>

fun crlf_position :: "bytes \<Rightarrow> nat option" where
  "crlf_position (a # b # bs) = (if a = 13 \<and> b = 10 then Some 0 else map_option Suc (crlf_position (b # bs)))"
| "crlf_position _ = None"

definition find_crlf :: "bytes \<Rightarrow> nat \<Rightarrow> nat option" where
  "find_crlf raw from = (if from \<le> length raw then map_option (\<lambda>p. from + p) (crlf_position (drop from raw)) else None)"

lemma crlf_position_bound: "crlf_position bs = Some p \<Longrightarrow> p + 2 \<le> length bs"
  by (induction bs arbitrary: p rule: crlf_position.induct) (auto split: if_splits)

lemma find_crlf_bound: "find_crlf raw i = Some nl \<Longrightarrow> i \<le> nl \<and> nl + 2 \<le> length raw"
  by (auto simp: find_crlf_def dest!: crlf_position_bound split: if_splits)

text \<open>
  The de-framing loop. The end of a chunk is computed with 64-bit addition; a slice whose end comes
  before its start panics.
\<close>

function aws_chunks :: "bytes \<Rightarrow> nat \<Rightarrow> bytes \<Rightarrow> (gateway_error, bytes) result" where
  "aws_chunks raw i out =
     rbind (ok_or (find_crlf raw i) (BadRequest ''aws-chunked: missing chunk-size line'')) (\<lambda>nl.
     rbind (slice_range raw i nl) (\<lambda>header.
     rbind (ok_or (from_utf8 (takeWhile (\<lambda>b. b \<noteq> 59) header)) (BadRequest ''aws-chunked: non-utf8 size'')) (\<lambda>size_str.
     rbind (ok_or (parse_unsigned 16 (2 ^ 64 - 1) (trim size_str)) (BadRequest ''aws-chunked: bad hex size'')) (\<lambda>chunk_size.
     if chunk_size = 0 then Ok out
     else
       let i2 = (nl + 2 + chunk_size) mod 2 ^ 64 in
       if length raw < i2 then Err (BadRequest ''aws-chunked: truncated chunk'')
       else
         rbind (slice_range raw (nl + 2) i2) (\<lambda>piece.
         aws_chunks raw (if take 2 (drop i2 raw) = [13, 10] then i2 + 2 else i2) (out @ piece))))))"
  by pat_completeness auto
termination
  by (relation "measure (\<lambda>(raw, i, _). length raw - i)")
    (auto simp: ok_or_def slice_range_def dest!: find_crlf_bound split: option.splits if_splits)

declare aws_chunks.simps [simp del]

definition decode_aws_chunked :: "bytes \<Rightarrow> (gateway_error, bytes) result" where
  "decode_aws_chunked raw = aws_chunks raw 0 []"

section \<open>Request documents\<close>

text \<open>Each loop searches for the next opening tag in what is left of the document.\<close>

lemma str_find_bound: "str_find pat s = Some i \<Longrightarrow> i + length pat \<le> length s"
  by (induction s arbitrary: i) (auto split: if_splits dest: prefix_length_le)

function part_numbers_loop :: "string \<Rightarrow> u32 list \<Rightarrow> (gateway_error, u32 list) result" where
  "part_numbers_loop rest parts =
     (case str_find ''<PartNumber>'' rest of
        None \<Rightarrow> Ok parts
      | Some start \<Rightarrow>
          let after = drop (start + length ''<PartNumber>'') rest in
          rbind (ok_or (str_find ''</PartNumber>'' after) (BadRequest ''malformed Part in complete request'')) (\<lambda>stop.
          rbind (ok_or (parse_u32 (trim (take stop after))) (BadRequest ''invalid PartNumber'')) (\<lambda>n.
          part_numbers_loop (drop stop after) (parts @ [n]))))"
  by pat_completeness auto
termination
  by (relation "measure (\<lambda>(rest, _). length rest)") (auto dest!: str_find_bound)

definition parse_complete_parts :: "bytes \<Rightarrow> (gateway_error, u32 list) result" where
  "parse_complete_parts body =
     rbind (part_numbers_loop (from_utf8_lossy body) []) (\<lambda>parts.
     if parts = [] then Err (BadRequest ''no parts in complete request'') else Ok parts)"

fun tag_lengths :: "(string \<times> string) list \<Rightarrow> (gateway_error, unit) result" where
  "tag_lengths [] = Ok ()"
| "tag_lengths ((key, value) # tags) =
     (if key = [] \<or> 128 < char_count key then Err (BadRequest ''tag key length out of range'')
      else if 256 < char_count value then Err (BadRequest ''tag value length out of range'')
      else tag_lengths tags)"

definition validate_tags :: "(string \<times> string) list \<Rightarrow> (gateway_error, unit) result" where
  "validate_tags tags =
     (if 10 < length tags then Err (BadRequest ''a request can contain at most 10 tags'') else tag_lengths tags)"

function tag_blocks :: "string \<Rightarrow> (string \<times> string) list \<Rightarrow> (gateway_error, (string \<times> string) list) result" where
  "tag_blocks rest tags =
     (case str_find ''<Tag>'' rest of
        None \<Rightarrow> Ok tags
      | Some start \<Rightarrow>
          let after = drop (start + length ''<Tag>'') rest in
          rbind (ok_or (str_find ''</Tag>'' after) (BadRequest ''malformed Tagging: unterminated <Tag>'')) (\<lambda>stop.
          let block = take stop after in
          rbind (ok_or (extract_xml_element block ''Key'') (BadRequest ''tag missing <Key>'')) (\<lambda>key.
          let value = (case extract_xml_element block ''Value'' of Some v \<Rightarrow> v | None \<Rightarrow> []) in
          tag_blocks (drop (stop + length ''</Tag>'') after) (tags @ [(xml_unescape key, xml_unescape value)]))))"
  by pat_completeness auto
termination
  by (relation "measure (\<lambda>(rest, _). length rest)") (auto dest!: str_find_bound)

definition parse_tagging :: "bytes \<Rightarrow> (gateway_error, (string \<times> string) list) result" where
  "parse_tagging body =
     rbind (tag_blocks (from_utf8_lossy body) []) (\<lambda>tags. rbind (validate_tags tags) (\<lambda>_. Ok tags))"

definition parse_tagging_header :: "string \<Rightarrow> (gateway_error, (string \<times> string) list) result" where
  "parse_tagging_header header =
     (let h = trim header in
      if h = [] then Ok []
      else
        let tags = map (\<lambda>pair.
              let (k, v) = (case split_once (CHR ''='') pair of Some p \<Rightarrow> p | None \<Rightarrow> (pair, [])) in
              (pct_decode k, pct_decode v)) (split_char (CHR ''&'') h) in
        rbind (validate_tags tags) (\<lambda>_. Ok tags))"

function delete_keys :: "string \<Rightarrow> string list \<Rightarrow> (gateway_error, string list) result" where
  "delete_keys rest keys =
     (case str_find ''<Key>'' rest of
        None \<Rightarrow> Ok keys
      | Some start \<Rightarrow>
          let after = drop (start + length ''<Key>'') rest in
          rbind (ok_or (str_find ''</Key>'' after) (BadRequest ''malformed Delete request'')) (\<lambda>stop.
          delete_keys (drop stop after) (keys @ [xml_unescape (take stop after)])))"
  by pat_completeness auto
termination
  by (relation "measure (\<lambda>(rest, _). length rest)") (auto dest!: str_find_bound)

declare part_numbers_loop.simps [simp del] tag_blocks.simps [simp del] delete_keys.simps [simp del]

definition parse_delete_request :: "bytes \<Rightarrow> (gateway_error, string list \<times> bool) result" where
  "parse_delete_request body =
     (let s = from_utf8_lossy body;
          quiet = (case extract_xml_element s ''Quiet'' of Some v \<Rightarrow> eq_ignore_ascii_case (trim v) ''true'' | None \<Rightarrow> False) in
      rbind (delete_keys s []) (\<lambda>keys.
      if keys = [] then Err (BadRequest ''no keys in delete request'') else Ok (keys, quiet)))"

section \<open>Byte ranges\<close>

datatype range_spec = Whole | Satisfiable nat nat | Unsatisfiable

definition parse_range :: "string \<Rightarrow> nat \<Rightarrow> range_spec" where
  "parse_range header len =
     (case strip_prefix ''bytes='' (trim header) of
        None \<Rightarrow> Whole
      | Some spec \<Rightarrow>
          (case split_once (CHR ''-'') spec of
             None \<Rightarrow> Whole
           | Some (s, e) \<Rightarrow>
               if len = 0 then Unsatisfiable
               else
                 let last = len - 1;
                     check = (\<lambda>start stop. if stop < start \<or> last < start then Unsatisfiable else Satisfiable start stop) in
                 if s = [] then
                   (case parse_usize (trim e) of
                      None \<Rightarrow> Whole
                    | Some n \<Rightarrow> if n = 0 then Unsatisfiable else check (len - n) last)
                 else
                   (case parse_usize (trim s) of
                      None \<Rightarrow> Whole
                    | Some start \<Rightarrow>
                        if trim e = [] then check start last
                        else
                          (case parse_usize (trim e) of
                             None \<Rightarrow> Whole
                           | Some v \<Rightarrow> check start (min v last)))))"

end
