(* ===== verification/S3_Dates.thy ===== *)
theory S3_Dates
  imports S3_Text
begin

text \<open>
  The dates of the S3 front end (\<open>crates/ozone-s3-gw/src/lib.rs\<close>): \<open>Last-Modified\<close> and ISO 8601 stamps
  printed from epoch milliseconds, dates parsed from conditional headers, and the preconditions they
  decide. Printing starts from an unsigned 64-bit count of milliseconds, so its intermediate values
  stay below \<open>2^60\<close> and are plain integers; parsing starts from any year a client sends, so each of
  its operations wraps at 64 bits.
\<close>

section \<open>Printing\<close>

definition DOW :: "string list" where
  "DOW = [''Sun'', ''Mon'', ''Tue'', ''Wed'', ''Thu'', ''Fri'', ''Sat'']"

definition MON :: "string list" where
  "MON = [''Jan'', ''Feb'', ''Mar'', ''Apr'', ''May'', ''Jun'', ''Jul'', ''Aug'', ''Sep'', ''Oct'', ''Nov'', ''Dec'']"

text \<open>Year, month and day of a day counted from the epoch.\<close>

definition civil_from_days :: "int \<Rightarrow> int \<times> int \<times> int" where
  "civil_from_days days =
     (let z = days + 719468;
          era = (if 0 \<le> z then z else z - 146096) sdiv 146097;
          doe = z - era * 146097;
          yoe = (doe - doe sdiv 1460 + doe sdiv 36524 - doe sdiv 146096) sdiv 365;
          y = yoe + era * 400;
          doy = doe - (365 * yoe + yoe sdiv 4 - yoe sdiv 100);
          mp = (5 * doy + 2) sdiv 153;
          d = doy - (153 * mp + 2) sdiv 5 + 1;
          m = (if mp < 10 then mp + 3 else mp - 9) in
      (if m \<le> 2 then y + 1 else y, m, d))"

definition http_date :: "u64 \<Rightarrow> ('e, string) result" where
  "http_date ms =
     (let secs = i64_wrap (int (unat ms div 1000));
          days = secs div 86400;
          rem = secs mod 86400;
          (hh, mm, ss) = (rem sdiv 3600, (rem smod 3600) sdiv 60, rem smod 60);
          (year, m, d) = civil_from_days days in
      rbind (index DOW (nat ((days smod 7 + 4) mod 7))) (\<lambda>dow.
      rbind (index MON (nat (m - 1))) (\<lambda>mon.
      Ok (dow @ '', '' @ zero_pad 2 d @ '' '' @ mon @ '' '' @ zero_pad 4 year @ '' '' @
          zero_pad 2 hh @ '':'' @ zero_pad 2 mm @ '':'' @ zero_pad 2 ss @ '' GMT''))))"

definition iso8601_millis :: "u64 \<Rightarrow> string" where
  "iso8601_millis ms =
     (let secs = i64_wrap (int (unat ms div 1000));
          millis = int (unat ms mod 1000);
          days = secs div 86400;
          rem = secs mod 86400;
          (hh, mm, ss) = (rem sdiv 3600, (rem smod 3600) sdiv 60, rem smod 60);
          (year, m, d) = civil_from_days days in
      zero_pad 4 year @ ''-'' @ zero_pad 2 m @ ''-'' @ zero_pad 2 d @ ''T'' @
      zero_pad 2 hh @ '':'' @ zero_pad 2 mm @ '':'' @ zero_pad 2 ss @ ''.'' @ zero_pad 3 millis @ ''Z'')"

section \<open>Parsing\<close>

fun position :: "'a \<Rightarrow> 'a list \<Rightarrow> nat option" where
  "position x [] = None"
| "position x (y # ys) = (if y = x then Some 0 else map_option Suc (position x ys))"

definition month_num :: "string \<Rightarrow> int option" where
  "month_num m = map_option (\<lambda>i. int i + 1) (position m MON)"

definition days_from_civil :: "int \<Rightarrow> int \<Rightarrow> int \<Rightarrow> int" where
  "days_from_civil y m d =
     (let y' = (if m \<le> 2 then i64_wrap (y - 1) else y);
          era = (if 0 \<le> y' then y' else i64_wrap (y' - 399)) sdiv 400;
          yoe = i64_wrap (y' - i64_wrap (era * 400));
          doy = (153 * (if 2 < m then m - 3 else m + 9) + 2) sdiv 5 + d - 1;
          doe = i64_wrap (i64_wrap (i64_wrap (i64_wrap (yoe * 365) + yoe sdiv 4) - yoe sdiv 100) + doy) in
      i64_wrap (i64_wrap (i64_wrap (era * 146097) + doe) - 719468))"

definition next_word :: "string list \<Rightarrow> (string \<times> string list) option" where
  "next_word ws = (case ws of [] \<Rightarrow> None | w # ws' \<Rightarrow> Some (w, ws'))"

definition parse_http_date :: "string \<Rightarrow> u64 option" where
  "parse_http_date s =
     (let rest = (case split_once (CHR '','') s of Some (_, r) \<Rightarrow> r | None \<Rightarrow> s) in
      Option.bind (next_word (split_whitespace rest)) (\<lambda>(w1, ws1).
      Option.bind (parse_i64 w1) (\<lambda>day.
      Option.bind (next_word ws1) (\<lambda>(w2, ws2).
      Option.bind (month_num w2) (\<lambda>month.
      Option.bind (next_word ws2) (\<lambda>(w3, ws3).
      Option.bind (parse_i64 w3) (\<lambda>year.
      Option.bind (next_word ws3) (\<lambda>(time, _).
      Option.bind (next_word (split_char (CHR '':'') time)) (\<lambda>(t1, ts1).
      Option.bind (parse_i64 t1) (\<lambda>hh.
      Option.bind (next_word ts1) (\<lambda>(t2, ts2).
      Option.bind (parse_i64 t2) (\<lambda>mm.
      Option.bind (next_word ts2) (\<lambda>(t3, _).
      Option.bind (parse_i64 t3) (\<lambda>ss.
      if \<not> (1 \<le> day \<and> day \<le> 31) \<or> \<not> (0 \<le> hh \<and> hh \<le> 23) \<or> \<not> (0 \<le> mm \<and> mm \<le> 59) \<or> \<not> (0 \<le> ss \<and> ss \<le> 60) then None
      else
        let secs = i64_wrap (i64_wrap (i64_wrap (i64_wrap (days_from_civil year month day * 86400) + hh * 3600) + mm * 60) + ss) in
        if 0 \<le> secs then Some (word_of_int secs) else None))))))))))))))"

section \<open>Preconditions\<close>

definition NOT_MODIFIED :: nat where
  "NOT_MODIFIED = 304"

definition PRECONDITION_FAILED :: nat where
  "PRECONDITION_FAILED = 412"

definition precondition_status ::
    "string option \<Rightarrow> string option \<Rightarrow> string option \<Rightarrow> string option \<Rightarrow> string \<Rightarrow> u64 \<Rightarrow> nat option" where
  "precondition_status if_match if_none_match if_modified_since if_unmodified_since etag last_modified_ms =
     (let quoted = quote etag;
          modified_secs = last_modified_ms div 1000;
          failed =
            (case if_match of
               Some im \<Rightarrow> \<not> etag_list_matches im quoted
             | None \<Rightarrow>
                 (case if_unmodified_since of
                    Some ius \<Rightarrow> (case parse_http_date ius of Some threshold \<Rightarrow> threshold < modified_secs | None \<Rightarrow> False)
                  | None \<Rightarrow> False));
          unmodified =
            (case if_none_match of
               Some inm \<Rightarrow> etag_list_matches inm quoted
             | None \<Rightarrow>
                 (case if_modified_since of
                    Some ims \<Rightarrow> (case parse_http_date ims of Some threshold \<Rightarrow> modified_secs \<le> threshold | None \<Rightarrow> False)
                  | None \<Rightarrow> False)) in
      if failed then Some PRECONDITION_FAILED else if unmodified then Some NOT_MODIFIED else None)"

section \<open>The calendar\<close>

text \<open>A day of a 400-year era falls in the year the division finds, on one of its 366 days at most.\<close>

lemma year_of_era:
  fixes doe :: int
  assumes "0 \<le> doe" "doe \<le> 146096"
  defines "yoe \<equiv> (doe - doe div 1460 + doe div 36524 - doe div 146096) div 365"
  shows "0 \<le> yoe \<and> yoe \<le> 399 \<and> 365 * yoe + yoe div 4 - yoe div 100 \<le> doe \<and> doe \<le> 365 * yoe + yoe div 4 - yoe div 100 + 365"
proof (cases "doe = 146096")
  case True
  then show ?thesis by (simp add: yoe_def)
next
  case False
  define b r where "b = doe div 36524" and "r = doe mod 36524"
  define s u where "s = r div 1461" and "u = r mod 1461"
  have doe: "doe = 36524 * b + r" "0 \<le> r" "r < 36524" by (simp_all add: b_def r_def)
  then have b: "0 \<le> b" "b \<le> 3" using assms(1,2) False by linarith+
  have r: "r = 1461 * s + u" "0 \<le> u" "u \<le> 1460" by (simp_all add: s_def u_def)
  then have s: "0 \<le> s" "s \<le> 24" using doe(2,3) by linarith+
  define \<delta> :: int where "\<delta> = (24 * b + s + u) div 1460"
  have \<delta>: "0 \<le> \<delta>" "\<delta> \<le> 1" "1460 * \<delta> \<le> 24 * b + s + u" "24 * b + s + u < 1460 * \<delta> + 1460" using b s r unfolding \<delta>_def by linarith+
  have q1: "doe div 1460 = 25 * b + s + \<delta>"
  proof -
    have "doe = 1460 * (25 * b + s) + (24 * b + s + u)" using doe(1) r(1) by simp
    then show ?thesis unfolding \<delta>_def by simp
  qed
  have "doe div 146096 = 0" using assms(1,2) False by simp
  then have y: "yoe = (365 * (100 * b + 4 * s) + (u - \<delta>)) div 365"
    unfolding yoe_def q1 b_def [symmetric] using doe(1) r(1) by (simp add: algebra_simps)
  define v where "v = (u - \<delta>) div 365"
  have u\<delta>: "0 \<le> u - \<delta>" "u - \<delta> \<le> 1459" using \<delta> b s r by linarith+
  then have v: "0 \<le> v" "v \<le> 3" "365 * v \<le> u - \<delta>" "u - \<delta> \<le> 365 * v + 364" unfolding v_def by linarith+
  have yoe: "yoe = 100 * b + (4 * s + v)" unfolding y v_def by simp
  have "yoe div 4 = 25 * b + s" "yoe div 100 = b" unfolding yoe using v s by linarith+
  with yoe v doe r \<delta> s b show ?thesis by auto
qed


text \<open>The month and the day of the month, counted from the first of March.\<close>

lemma month_of_year:
  fixes doy :: int
  assumes "0 \<le> doy" "doy \<le> 365"
  defines "mp \<equiv> (5 * doy + 2) div 153"
  shows "0 \<le> mp \<and> mp \<le> 11 \<and> 0 \<le> doy - (153 * mp + 2) div 5 \<and> doy - (153 * mp + 2) div 5 \<le> 30"
proof -
  define q where "q = (153 * mp + 2) div 5"
  have "153 * mp \<le> 5 * doy + 2" "5 * doy + 2 \<le> 153 * mp + 152" unfolding mp_def by linarith+
  moreover have "5 * q \<le> 153 * mp + 2" "153 * mp + 2 \<le> 5 * q + 4" unfolding q_def by linarith+
  ultimately show ?thesis using assms(1,2) unfolding q_def [symmetric] by linarith
qed

lemma civil_from_days_inverse:
  fixes days :: int
  assumes "0 \<le> days" "days < 2 ^ 40" "civil_from_days days = (y, m, d)"
  shows "days_from_civil y m d = days" "1 \<le> m" "m \<le> 12" "1 \<le> d" "d \<le> 31" "0 \<le> y" "y < 2 ^ 40"
proof -
  define z era doe where "z = days + 719468" and "era = z div 146097" and "doe = z mod 146097"
  define yoe where "yoe = (doe - doe div 1460 + doe div 36524 - doe div 146096) div 365"
  define doy where "doy = doe - (365 * yoe + yoe div 4 - yoe div 100)"
  define mp where "mp = (5 * doy + 2) div 153"
  have z: "0 \<le> z" "z < 1099512347244" using assms(1,2) by (simp_all add: z_def)
  have era: "z = 146097 * era + doe" "0 \<le> doe" "doe \<le> 146096" by (simp_all add: era_def doe_def)
  then have eb: "0 \<le> era" "era < 8000000" using z by linarith+
  note Y = year_of_era [OF era(2,3), folded yoe_def]
  then have doy: "0 \<le> doy" "doy \<le> 365" by (simp_all add: doy_def)
  note M = month_of_year [OF doy, folded mp_def]
  let ?q = "(153 * mp + 2) div 5" and ?year = "if mp < 10 then yoe + era * 400 else yoe + era * 400 + 1"
    and ?month = "if mp < 10 then mp + 3 else mp - 9"
  have d1: "z sdiv 146097 = era" unfolding era_def by (rule sdiv_nonneg [OF z(1)]) simp
  have d2: "z - era * 146097 = doe" using era(1) by simp
  have d3: "doe sdiv 1460 = doe div 1460" "doe sdiv 36524 = doe div 36524" "doe sdiv 146096 = doe div 146096"
    by (rule sdiv_nonneg [OF era(2)], simp)+
  have "0 \<le> doe - doe div 1460 + doe div 36524 - doe div 146096" using era(2,3) by linarith
  then have d4: "(doe - doe div 1460 + doe div 36524 - doe div 146096) sdiv 365 = yoe"
    unfolding yoe_def by (rule sdiv_nonneg) simp
  have d5: "yoe sdiv 4 = yoe div 4" "yoe sdiv 100 = yoe div 100" by (rule sdiv_nonneg; use Y in simp)+
  have d6: "(5 * doy + 2) sdiv 153 = mp" unfolding mp_def by (rule sdiv_nonneg) (use doy in simp_all)
  have d7: "(153 * mp + 2) sdiv 5 = ?q" by (rule sdiv_nonneg) (use M in simp_all)
  have "civil_from_days days = (?year, ?month, doy - ?q + 1)"
    unfolding civil_from_days_def z_def [symmetric] Let_def if_P [OF z(1)] d1 d2 d3 d4 d5 doy_def [symmetric] d6 d7
    using M by auto
  then have ymd: "y = ?year" "m = ?month" "d = doy - ?q + 1" using assms(3) by simp_all
  show "1 \<le> m" "m \<le> 12" "1 \<le> d" "d \<le> 31" using ymd M by auto
  show "0 \<le> y" "y < 2 ^ 40" using ymd Y eb by auto
  show "days_from_civil y m d = days"
  proof -
    let ?y = "yoe + era * 400"
    have y': "(if m \<le> 2 then i64_wrap (y - 1) else y) = ?y" using ymd M Y eb by (auto simp: i64_range_def)
    have y0: "0 \<le> ?y" using Y eb by simp
    have e: "?y sdiv 400 = era" using Y eb by (simp add: sdiv_nonneg)
    have r: "i64_wrap (?y - i64_wrap (era * 400)) = yoe" using Y eb by (simp add: i64_range_def)
    have mp: "(153 * (if 2 < m then m - 3 else m + 9) + 2) sdiv 5 + d - 1 = doy"
    proof -
      have "(if 2 < m then m - 3 else m + 9) = mp" using ymd M by auto
      then show ?thesis using d7 ymd by simp
    qed
    have small: "i64_wrap x = x" if "0 \<le> x" "x \<le> 4611686018427387904" for x using that by (simp add: i64_range_def)
    have q: "0 \<le> yoe div 4" "yoe div 4 \<le> 99" "0 \<le> yoe div 100" "yoe div 100 \<le> yoe" using Y by linarith+
    have w: "i64_wrap (yoe * 365) = yoe * 365" "i64_wrap (yoe * 365 + yoe div 4) = yoe * 365 + yoe div 4"
      "i64_wrap (yoe * 365 + yoe div 4 - yoe div 100) = yoe * 365 + yoe div 4 - yoe div 100"
      "i64_wrap doe = doe" "i64_wrap (era * 146097) = era * 146097" "i64_wrap z = z" "i64_wrap days = days"
      by (rule small; use Y q eb era z assms(1) z_def in linarith)+
    have sums: "yoe * 365 + yoe div 4 - yoe div 100 + doy = doe" "era * 146097 + doe = z" "z - 719468 = days"
      using doy_def era(1) z_def by linarith+
    show ?thesis unfolding days_from_civil_def Let_def y' if_P [OF y0] e r mp d5 w sums ..
  qed
qed

section \<open>Printed dates parse back\<close>

lemma position_nth: "distinct xs \<Longrightarrow> i < length xs \<Longrightarrow> position (xs ! i) xs = Some i"
  by (induction xs arbitrary: i) (auto simp: nth_Cons' split: if_splits)

lemma length_MON: "length MON = 12" "length DOW = 7"
  by (simp_all add: MON_def DOW_def)

lemma month_num_MON: "i < 12 \<Longrightarrow> month_num (MON ! i) = Some (int i + 1)"
  using position_nth [of MON i] length_MON by (simp add: month_num_def MON_def)

lemma MON_graphic: "i < 12 \<Longrightarrow> list_all graphic (MON ! i) \<and> MON ! i \<noteq> []"
proof -
  have "list_all (\<lambda>w. list_all graphic w \<and> w \<noteq> []) MON" by (simp add: MON_def graphic_def)
  then show "i < 12 \<Longrightarrow> ?thesis" by (simp add: list_all_length length_MON)
qed

lemma DOW_no_comma: "i < 7 \<Longrightarrow> CHR '','' \<notin> set (DOW ! i)"
proof -
  have "list_all (\<lambda>w. CHR '','' \<notin> set w) DOW" by (simp add: DOW_def)
  then show "i < 7 \<Longrightarrow> ?thesis" by (simp add: list_all_length length_MON)
qed

lemma parse_date_text:
  assumes "CHR '','' \<notin> set dow" "list_all graphic mon" "mon \<noteq> []" "month_num mon = Some m"
    "1 \<le> d" "d \<le> 31" "0 \<le> y" "y < 2 ^ 63" "0 \<le> hh" "hh \<le> 23" "0 \<le> mm" "mm \<le> 59" "0 \<le> ss" "ss \<le> 60"
  shows "parse_http_date (dow @ '', '' @ zero_pad 2 d @ '' '' @ mon @ '' '' @ zero_pad 4 y @ '' '' @
      zero_pad 2 hh @ '':'' @ zero_pad 2 mm @ '':'' @ zero_pad 2 ss @ '' GMT'') =
    (let secs = i64_wrap (i64_wrap (i64_wrap (i64_wrap (days_from_civil y m d * 86400) + hh * 3600) + mm * 60) + ss) in
     if 0 \<le> secs then Some (word_of_int secs) else None)"
proof -
  let ?time = "zero_pad 2 hh @ '':'' @ zero_pad 2 mm @ '':'' @ zero_pad 2 ss"
  have g: "list_all graphic (zero_pad w n)" if "0 \<le> n" for w n using zero_pad_digits(1) [OF that] by (simp add: list_all_iff)
  have colon: "CHR '':'' \<notin> set (zero_pad w n)" if "0 \<le> n" for w n using zero_pad_digits(2) [OF that] by blast
  have "graphic (CHR '':'')" by (simp add: graphic_def)
  then have time: "list_all graphic ?time" "?time \<noteq> []" using g assms by simp_all
  have sp: "split_whitespace ('' '' @ zero_pad 2 d @ '' '' @ mon @ '' '' @ zero_pad 4 y @ '' '' @ ?time @ '' GMT'') =
      [zero_pad 2 d, mon, zero_pad 4 y, ?time, ''GMT'']"
    using split_whitespace_word(1) [OF g, of d 2] split_whitespace_word(1) [OF assms(2,3)] split_whitespace_word(1) [OF g, of y 4]
      split_whitespace_word(1) [OF time] split_whitespace_word(2) [of "''GMT''"] assms
    by (simp add: graphic_def)
  have tm: "split_char (CHR '':'') ?time = [zero_pad 2 hh, zero_pad 2 mm, zero_pad 2 ss]"
    using split_char_append [OF colon, of hh 2] split_char_append [OF colon, of mm 2] split_char_single [OF colon, of ss 2] assms by simp
  have num: "parse_i64 (zero_pad w n) = Some n" if "0 \<le> n" "n < 2 ^ 63" for w n by (rule parse_zero_pad [OF that])
  have "split_once (CHR '','') (dow @ '', '' @ zero_pad 2 d @ '' '' @ mon @ '' '' @ zero_pad 4 y @ '' '' @ ?time @ '' GMT'') =
      Some (dow, '' '' @ zero_pad 2 d @ '' '' @ mon @ '' '' @ zero_pad 4 y @ '' '' @ ?time @ '' GMT'')"
    using split_once_append [OF assms(1), of "'' '' @ zero_pad 2 d @ '' '' @ mon @ '' '' @ zero_pad 4 y @ '' '' @ ?time @ '' GMT''"] by simp
  then show ?thesis
    using assms sp tm by (simp add: parse_http_date_def next_word_def num)
qed

lemma http_date_round_trip:
  obtains s where "http_date ms = Ok s" "parse_http_date s = Some (ms div 1000)"
proof -
  define secs where "secs = int (unat ms div 1000)"
  define days rem where "days = secs div 86400" and "rem = secs mod 86400"
  define hh mm ss where "hh = rem div 3600" and "mm = rem mod 3600 div 60" and "ss = rem mod 60"
  obtain y m d where c: "civil_from_days days = (y, m, d)" by (metis prod_cases3)
  have secs: "0 \<le> secs" "secs \<le> 18446744073709552" unfolding secs_def
    using unsigned_less [of ms, where 'a = nat] by simp_all
  have "0 \<le> days" "days < 2 ^ 40" using secs by (simp_all add: days_def)
  note C = civil_from_days_inverse [OF this c]
  have rem: "0 \<le> rem" "rem < 86400" by (simp_all add: rem_def)
  have "rem mod 3600 mod 60 = ss" unfolding ss_def by (rule mod_mod_cancel) simp
  then have t: "0 \<le> hh" "hh \<le> 23" "0 \<le> mm" "mm \<le> 59" "0 \<le> ss" "ss \<le> 60" "hh * 3600 + mm * 60 + ss = rem"
    unfolding hh_def mm_def using rem div_mult_mod_eq [of rem 3600] div_mult_mod_eq [of "rem mod 3600" 60] by linarith+
  have trunc: "rem sdiv 3600 = hh" "(rem smod 3600) sdiv 60 = mm" "rem smod 60 = ss" "days smod 7 = days mod 7"
    unfolding hh_def mm_def ss_def using rem(1) \<open>0 \<le> days\<close> by (simp_all add: sdiv_nonneg smod_nonneg)
  have wrap: "i64_wrap secs = secs" using secs by (simp add: i64_range_def)
  let ?i = "nat ((days mod 7 + 4) mod 7)" and ?j = "nat (m - 1)"
  have ij: "?i < 7" "?j < 12" "int ?j + 1 = m" using C(2,3) by auto
  let ?s = "DOW ! ?i @ '', '' @ zero_pad 2 d @ '' '' @ MON ! ?j @ '' '' @ zero_pad 4 y @ '' '' @
      zero_pad 2 hh @ '':'' @ zero_pad 2 mm @ '':'' @ zero_pad 2 ss @ '' GMT''"
  have "http_date ms = Ok ?s"
    unfolding http_date_def secs_def [symmetric] wrap Let_def days_def [symmetric] rem_def [symmetric] trunc c
    using ij by (simp add: index_def DOW_def MON_def)
  moreover have "parse_http_date ?s = Some (ms div 1000)"
  proof -
    have small: "i64_wrap x = x" if "0 \<le> x" "x \<le> 4611686018427387904" for x using that by (simp add: i64_range_def)
    have sum: "days * 86400 + hh * 3600 + mm * 60 + ss = secs" using t(7) div_mult_mod_eq [of secs 86400] unfolding days_def rem_def by linarith
    have w: "i64_wrap (days * 86400) = days * 86400" "i64_wrap (days * 86400 + hh * 3600) = days * 86400 + hh * 3600"
      "i64_wrap (days * 86400 + hh * 3600 + mm * 60) = days * 86400 + hh * 3600 + mm * 60"
      by (rule small; use t secs sum \<open>0 \<le> days\<close> in linarith)+
    have y: "y < 2 ^ 63" using C(7) by simp
    have "secs = uint ms div uint (1000 :: u64)" by (simp add: secs_def zdiv_int)
    then have "word_of_int secs = ms div 1000" by (simp only: word_div_def)
    moreover have "month_num (MON ! ?j) = Some m" using month_num_MON [OF ij(2)] ij(3) by simp
    ultimately show ?thesis
      using parse_date_text [OF DOW_no_comma [OF ij(1)] _ _ _ C(4,5,6) y t(1-6), of "MON ! ?j" m] MON_graphic [OF ij(2)] secs(1)
      unfolding C(1) w sum wrap Let_def by simp
  qed
  ultimately show thesis by (rule that)
qed

end
