(* ===== verification/S3_Xml.thy ===== *)
theory S3_Xml
  imports S3_Dates
begin

text \<open>
  The XML documents the S3 front end answers with (\<open>crates/ozone-s3-gw/src/lib.rs\<close>). Each is the
  concatenation the source formats, element by element.
\<close>

definition XML_DECL :: string where
  "XML_DECL = ''<?xml version='' @ quote ''1.0'' @ '' encoding='' @ quote ''UTF-8'' @ ''?>''"

definition elem :: "string \<Rightarrow> string \<Rightarrow> string" where
  "elem name inner = ''<'' @ name @ ''>'' @ inner @ ''</'' @ name @ ''>''"

definition s3_document :: "string \<Rightarrow> string \<Rightarrow> string" where
  "s3_document name inner =
     XML_DECL @ ''<'' @ name @ '' xmlns='' @ quote ''http://s3.amazonaws.com/doc/2006-03-01/'' @ ''>'' @ inner @ ''</'' @ name @ ''>''"

definition quot_etag :: "string \<Rightarrow> string" where
  "quot_etag etag = elem ''ETag'' (''&quot;'' @ xml_escape etag @ ''&quot;'')"

definition initiate_mpu_xml :: "string \<Rightarrow> string \<Rightarrow> string \<Rightarrow> string" where
  "initiate_mpu_xml bucket key upload_id =
     s3_document ''InitiateMultipartUploadResult''
       (elem ''Bucket'' (xml_escape bucket) @ elem ''Key'' (xml_escape key) @ elem ''UploadId'' (xml_escape upload_id))"

definition complete_mpu_xml :: "string \<Rightarrow> string \<Rightarrow> string \<Rightarrow> string" where
  "complete_mpu_xml bucket key etag =
     s3_document ''CompleteMultipartUploadResult''
       (elem ''Location'' (''/'' @ xml_escape bucket @ ''/'' @ xml_escape key) @
        elem ''Bucket'' (xml_escape bucket) @ elem ''Key'' (xml_escape key) @ quot_etag etag)"

definition list_parts_xml :: "string \<Rightarrow> string \<Rightarrow> string \<Rightarrow> (u32 \<times> string \<times> u64) list \<Rightarrow> string" where
  "list_parts_xml bucket key upload_id parts =
     s3_document ''ListPartsResult''
       (elem ''Bucket'' (xml_escape bucket) @ elem ''Key'' (xml_escape key) @ elem ''UploadId'' (xml_escape upload_id) @
        elem ''IsTruncated'' ''false'' @
        concat (map (\<lambda>(pn, etag, n). elem ''Part''
          (elem ''PartNumber'' (nat_to_dec (unat pn)) @ quot_etag etag @ elem ''Size'' (nat_to_dec (unat n)))) parts))"

definition copy_object_xml :: "string \<Rightarrow> string" where
  "copy_object_xml etag =
     s3_document ''CopyObjectResult'' (elem ''LastModified'' (iso8601_millis 0) @ quot_etag etag)"

definition tagging_xml :: "(string \<times> string) list \<Rightarrow> string" where
  "tagging_xml tags =
     s3_document ''Tagging''
       (elem ''TagSet''
         (concat (map (\<lambda>(k, v). elem ''Tag'' (elem ''Key'' (xml_escape k) @ elem ''Value'' (xml_escape v))) tags)))"

definition object_attributes_xml :: "string list \<Rightarrow> string \<Rightarrow> u64 \<Rightarrow> string" where
  "object_attributes_xml requested etag n =
     s3_document ''GetObjectAttributesResponse''
       ((if ''ETag'' \<in> set requested then elem ''ETag'' (xml_escape etag) else []) @
        (if ''ObjectSize'' \<in> set requested then elem ''ObjectSize'' (nat_to_dec (unat n)) else []))"

definition delete_result_xml :: "(string \<times> (string \<times> string) option) list \<Rightarrow> bool \<Rightarrow> string" where
  "delete_result_xml results quiet =
     s3_document ''DeleteResult''
       (concat (map (\<lambda>(key, err).
          case err of
            None \<Rightarrow> if quiet then [] else elem ''Deleted'' (elem ''Key'' (xml_escape key))
          | Some (code, msg) \<Rightarrow>
              elem ''Error'' (elem ''Key'' (xml_escape key) @ elem ''Code'' (xml_escape code) @ elem ''Message'' (xml_escape msg)))
         results))"

definition bucket_location_xml :: "string \<Rightarrow> string" where
  "bucket_location_xml region = s3_document ''LocationConstraint'' (xml_escape region)"

definition list_buckets_xml :: "(string \<times> u64) list \<Rightarrow> string" where
  "list_buckets_xml buckets =
     s3_document ''ListAllMyBucketsResult''
       (elem ''Owner'' (elem ''ID'' ''ozone'' @ elem ''DisplayName'' ''ozone'') @
        elem ''Buckets'' (concat (map (\<lambda>(name, ctime).
          elem ''Bucket'' (elem ''Name'' (xml_escape name) @ elem ''CreationDate'' (iso8601_millis ctime))) buckets)))"

definition list_mpu_xml :: "string \<Rightarrow> (string \<times> string) list \<Rightarrow> string" where
  "list_mpu_xml bucket uploads =
     s3_document ''ListMultipartUploadsResult''
       (elem ''Bucket'' (xml_escape bucket) @ elem ''IsTruncated'' ''false'' @
        concat (map (\<lambda>(upload_id, key). elem ''Upload''
          (elem ''Key'' (xml_escape key) @ elem ''UploadId'' (xml_escape upload_id))) uploads))"

definition bool_to_string :: "bool \<Rightarrow> string" where
  "bool_to_string b = (if b then ''true'' else ''false'')"

definition listing_xml :: "listing \<Rightarrow> string" where
  "listing_xml l =
     s3_document ''ListBucketResult''
       (elem ''Name'' (xml_escape (ls_name l)) @ elem ''Prefix'' (xml_escape (ls_prefix l)) @
        (if ls_delimiter l \<noteq> [] then elem ''Delimiter'' (xml_escape (ls_delimiter l)) else []) @
        elem ''MaxKeys'' (nat_to_dec (unat (ls_max_keys l))) @
        elem ''KeyCount'' (nat_to_dec (length (ls_contents l) + length (ls_common_prefixes l))) @
        elem ''IsTruncated'' (bool_to_string (ls_is_truncated l)) @
        (if ls_next_continuation_token l \<noteq> []
         then elem ''NextContinuationToken'' (xml_escape (ls_next_continuation_token l)) else []) @
        concat (map (\<lambda>e. elem ''Contents''
          (elem ''Key'' (xml_escape (oe_key e)) @ elem ''LastModified'' (iso8601_millis (oe_last_modified_ms e)) @
           quot_etag (oe_etag e) @ elem ''Size'' (nat_to_dec (unat (oe_size e))) @ elem ''StorageClass'' ''STANDARD''))
          (ls_contents l)) @
        concat (map (\<lambda>p. elem ''CommonPrefixes'' (elem ''Prefix'' (xml_escape p))) (ls_common_prefixes l)))"

definition error_xml :: "string \<Rightarrow> string \<Rightarrow> string" where
  "error_xml code message = XML_DECL @ elem ''Error'' (elem ''Code'' code @ elem ''Message'' message)"

end
