(* ===== verification/S3_Parse_Correct.thy ===== *)
theory S3_Parse_Correct
  imports S3_Xml
begin

text \<open>
  What the parsers and printers of the S3 front end guarantee: escaped text and tag sets read back as
  they were written, dates parse back to the second, ranges stay within the object, framed bodies
  decode to their payload, and encoded query strings to their values.
\<close>

section \<open>XML text\<close>

definition esc :: "char \<Rightarrow> string" where
  "esc c = (if c = CHR ''&'' then ''&amp;'' else if c = CHR ''<'' then ''&lt;'' else if c = CHR ''>'' then ''&gt;'' else [c])"

lemma str_replace_char: "str_replace [c] r s = concat (map (\<lambda>x. if x = c then r else [x]) s)"
  by (induction s) auto

lemma xml_escape_chars: "xml_escape s = concat (map esc s)"
  unfolding xml_escape_def str_replace_char by (induction s) (simp_all add: esc_def)

lemma xml_unescape_escape: "xml_unescape (xml_escape s) = s"
proof -
  let ?k = "\<lambda>lt gt c. if c = CHR ''&'' then ''&amp;'' else if c = CHR ''<'' then lt else if c = CHR ''>'' then gt else [c]"
  have 1: "str_replace ''&lt;'' ''<'' (concat (map esc s)) = concat (map (?k ''<'' ''&gt;'') s)"
    by (induction s) (simp_all add: esc_def)
  have 2: "str_replace ''&gt;'' ''>'' (concat (map (?k ''<'' ''&gt;'') s)) = concat (map (?k ''<'' ''>'') s)"
    by (induction s) simp_all
  have 3: "str_replace ''&quot;'' r (concat (map (?k ''<'' ''>'') s)) = concat (map (?k ''<'' ''>'') s)" for r
    by (induction s) simp_all
  have 4: "str_replace ''&apos;'' r (concat (map (?k ''<'' ''>'') s)) = concat (map (?k ''<'' ''>'') s)" for r
    by (induction s) simp_all
  have 5: "str_replace ''&amp;'' ''&'' (concat (map (?k ''<'' ''>'') s)) = s"
    by (induction s) simp_all
  show ?thesis unfolding xml_unescape_def xml_escape_chars 1 2 3 4 5 ..
qed

lemma xml_escape_no_lt: "CHR ''<'' \<notin> set (xml_escape s)"
  by (auto simp: xml_escape_chars esc_def split: if_splits)

lemma is_utf8_xml_escape: "is_utf8 s \<Longrightarrow> is_utf8 (xml_escape s)"
  unfolding xml_escape_chars
proof (induction s rule: is_utf8_induct)
  case (Char u t)
  from utf8_char_cases [OF Char(1)] show ?case
  proof
    assume "\<exists>c. u = [c] \<and> of_char c < (0x80 :: nat)"
    then obtain c where "u = [c]" "of_char c < (0x80 :: nat)" by blast
    then show ?thesis using Char(3) is_utf8_append [OF is_utf8_ascii, of "esc c"] by (simp add: is_ascii_def esc_def)
  next
    assume "\<forall>c\<in>set u. (0x80 :: nat) \<le> of_char c"
    then have "\<forall>c\<in>set u. esc c = [c]" by (auto simp: esc_def)
    then have "concat (map esc u) = u" by (induction u) auto
    then show ?thesis using Char(1,3) by (simp add: is_utf8_char)
  qed
qed simp

section \<open>Searching past text without tags\<close>

lemma str_find_skip:
  assumes "CHR ''<'' \<notin> set a"
  shows "str_find (CHR ''<'' # p) (a @ s) = map_option (\<lambda>i. length a + i) (str_find (CHR ''<'' # p) s)"
  using assms by (induction a; cases "str_find (CHR ''<'' # p) s") auto

lemma str_find_here: "str_find p (p @ s) = Some 0"
proof (cases "p @ s")
  case (Cons a t)
  then have "prefix p (a # t)" by (metis prefixI)
  then show ?thesis by (simp add: Cons)
qed simp

section \<open>Tag sets\<close>

definition tag_xml :: "string \<times> string \<Rightarrow> string" where
  "tag_xml t = elem ''Tag'' (elem ''Key'' (xml_escape (fst t)) @ elem ''Value'' (xml_escape (snd t)))"

lemma extract_tag:
  "extract_xml_element (''<Key>'' @ xml_escape k @ ''</Key><Value>'' @ xml_escape v @ ''</Value>'') ''Key'' = Some (xml_escape k)"
  "extract_xml_element (''<Key>'' @ xml_escape k @ ''</Key><Value>'' @ xml_escape v @ ''</Value>'') ''Value'' = Some (xml_escape v)"
  using str_find_skip [OF xml_escape_no_lt]
  by (simp_all add: extract_xml_element_def Let_def)

lemma tag_blocks_tag:
  "tag_blocks (tag_xml (k, v) @ rest) tags = tag_blocks rest (tags @ [(k, v)])"
proof -
  define b where "b = ''<Key>'' @ xml_escape k @ ''</Key><Value>'' @ xml_escape v @ ''</Value>''"
  have t: "tag_xml (k, v) @ rest = ''<Tag>'' @ b @ ''</Tag>'' @ rest" by (simp add: tag_xml_def elem_def b_def)
  have f1: "str_find ''<Tag>'' (tag_xml (k, v) @ rest) = Some 0" unfolding t by (rule str_find_here)
  have f2: "str_find ''</Tag>'' (b @ ''</Tag>'' @ rest) = Some (length b)"
    using str_find_skip [OF xml_escape_no_lt] by (simp add: b_def)
  have d: "drop (0 + length ''<Tag>'') (tag_xml (k, v) @ rest) = b @ ''</Tag>'' @ rest" unfolding t by simp
  show ?thesis
    unfolding tag_blocks.simps [of "tag_xml (k, v) @ rest"] f1 option.case d Let_def f2
    using extract_tag [of k v, folded b_def] by (simp add: ok_or_def xml_unescape_escape)
qed

lemma tag_blocks_tags: "tag_blocks (concat (map tag_xml ts) @ rest) tags = tag_blocks rest (tags @ ts)"
  by (induction ts arbitrary: tags) (auto simp: tag_blocks_tag)

lemma tagging_xml_tags: "tagging_xml tags = s3_document ''Tagging'' (elem ''TagSet'' (concat (map tag_xml tags)))"
  unfolding tagging_xml_def tag_xml_def [abs_def] case_prod_beta ..

lemma tag_blocks_skip:
  assumes "str_find ''<Tag>'' (h @ s) = map_option (\<lambda>i. length h + i) (str_find ''<Tag>'' s)"
  shows "tag_blocks (h @ s) tags = tag_blocks s tags"
proof -
  have d: "drop (length h + i + n) (h @ s) = drop (i + n) s" for i n by simp
  show ?thesis unfolding tag_blocks.simps [of "h @ s"] tag_blocks.simps [of s] assms
    by (cases "str_find ''<Tag>'' s") (simp_all only: option.map option.case d)
qed

definition tagging_head :: string where
  "tagging_head = XML_DECL @ ''<Tagging xmlns='' @ quote ''http://s3.amazonaws.com/doc/2006-03-01/'' @ ''><TagSet>''"

lemma str_find_tag_head: "str_find ''<Tag>'' (tagging_head @ s) = map_option (\<lambda>i. length tagging_head + i) (str_find ''<Tag>'' s)"
  by (cases "str_find ''<Tag>'' s") (simp_all add: tagging_head_def XML_DECL_def quote_def)

text \<open>
  C28: tag sets survive the trip. A tag set within S3's limits, with keys and values that are text,
  printed as the document of GetObjectTagging and parsed as the body of PutObjectTagging comes back
  unchanged, whatever markup its keys and values contain.
\<close>

theorem parse_tagging_xml:
  assumes "validate_tags tags = Ok ()" "\<forall>(k, v)\<in>set tags. is_utf8 k \<and> is_utf8 v"
  shows "parse_tagging (bytes_of (tagging_xml tags)) = Ok tags"
proof -
  let ?tags = "concat (map tag_xml tags)" and ?foot = "''</TagSet></Tagging>''"
  have doc: "tagging_xml tags = tagging_head @ ?tags @ ?foot" by (simp add: tagging_xml_tags s3_document_def elem_def tagging_head_def)
  have "is_utf8 tagging_head" by (rule is_utf8_ascii) (simp add: is_ascii_def tagging_head_def XML_DECL_def quote_def)
  moreover have "is_utf8 (tag_xml t)" if "t \<in> set tags" for t
  proof -
    have "is_utf8 ''<Tag><Key>''" "is_utf8 ''</Key><Value>''" "is_utf8 ''</Value></Tag>''"
      by (rule is_utf8_ascii, simp add: is_ascii_def)+
    then have "is_utf8 (''<Tag><Key>'' @ xml_escape (fst t) @ ''</Key><Value>'' @ xml_escape (snd t) @ ''</Value></Tag>'')"
      using assms(2) that by (intro is_utf8_append is_utf8_xml_escape) auto
    then show ?thesis by (simp add: tag_xml_def elem_def)
  qed
  then have "is_utf8 ?tags" using is_utf8_concat by simp
  moreover have "is_utf8 ?foot" by (rule is_utf8_ascii) (simp add: is_ascii_def)
  ultimately have u: "is_utf8 (tagging_xml tags)" unfolding doc by (intro is_utf8_append)
  have "tag_blocks (tagging_xml tags) [] = tag_blocks (?tags @ ?foot) []"
    unfolding doc by (rule tag_blocks_skip [OF str_find_tag_head])
  also have "\<dots> = tag_blocks ?foot tags" by (simp add: tag_blocks_tags)
  also have "\<dots> = Ok tags" by (simp add: tag_blocks.simps)
  finally show ?thesis using u assms(1) by (simp add: parse_tagging_def)
qed

theorem parse_tagging_xml_witness:
  "parse_tagging (bytes_of (tagging_xml [(''team'', ''a&b''), (''</Key>'', ''<Tag>'')])) = Ok [(''team'', ''a&b''), (''</Key>'', ''<Tag>'')]"
proof (rule parse_tagging_xml)
  show "validate_tags [(''team'', ''a&b''), (''</Key>'', ''<Tag>'')] = Ok ()"
    by (simp add: validate_tags_def char_count_def is_cont_def)
qed (auto intro!: is_utf8_ascii simp: is_ascii_def)

section \<open>Byte ranges\<close>

lemma parse_usize_dec: "n < 2 ^ 64 \<Longrightarrow> parse_usize (nat_to_dec n) = Some n"
  unfolding parse_usize_def by (rule parse_nat_to_dec) simp

lemma dec_graphic: "c \<in> set (nat_to_dec n) \<Longrightarrow> graphic c"
  using set_nat_to_dec [of n] graphic_digit by auto

lemma trim_dec [simp]: "trim (nat_to_dec n) = nat_to_dec n"
  using dec_graphic [OF hd_in_set] dec_graphic [OF last_in_set] by (intro trim_graphic) simp

lemma trim_Nil [simp]: "trim [] = []"
  by (simp add: trim_def)

lemma dec_no_dash: "CHR ''-'' \<notin> set (nat_to_dec n)"
  by (rule nat_to_dec_notin) simp

lemma range_header:
  assumes "list_all graphic e"
  shows "strip_prefix ''bytes='' (trim (''bytes='' @ a @ ''-'' @ e)) = Some (a @ ''-'' @ e)"
proof -
  have "graphic (last (''-'' @ e))" using assms by (auto simp: list_all_iff graphic_def)
  then have "trim (''bytes='' @ a @ ''-'' @ e) = ''bytes='' @ a @ ''-'' @ e" by (intro trim_graphic) (simp add: graphic_def)
  then show ?thesis by (simp add: strip_prefix_def)
qed

text \<open>
  C29: a range never leaves the object, and well-formed ranges select what they name. Whatever the
  header, a range that is served is not empty and ends inside the object, so slicing it out cannot
  panic; and for positions that fit 64 bits, the three forms of a byte range select their bytes,
  clamped to the object, or are answered as unsatisfiable. This is for objects of every length: no
  range of an empty object can be served.
\<close>

theorem parse_range_bounds:
  assumes "a < 2 ^ 64" "b < 2 ^ 64"
  shows "(\<forall>header start stop. parse_range header len = Satisfiable start stop \<longrightarrow> start \<le> stop \<and> stop < len) \<and>
    parse_range (''bytes='' @ nat_to_dec a @ ''-'' @ nat_to_dec b) len =
      (if a \<le> b \<and> a < len then Satisfiable a (min b (len - 1)) else Unsatisfiable) \<and>
    parse_range (''bytes='' @ nat_to_dec a @ ''-'') len = (if a < len then Satisfiable a (len - 1) else Unsatisfiable) \<and>
    parse_range (''bytes=-'' @ nat_to_dec b) len = (if b = 0 \<or> len = 0 then Unsatisfiable else Satisfiable (len - b) (len - 1))"
proof (intro conjI allI impI)
  fix header start stop
  assume "parse_range header len = Satisfiable start stop"
  then show "start \<le> stop" "stop < len"
    by (auto simp: parse_range_def Let_def split: option.splits if_splits)
next
  show "parse_range (''bytes='' @ nat_to_dec a @ ''-'' @ nat_to_dec b) len =
      (if a \<le> b \<and> a < len then Satisfiable a (min b (len - 1)) else Unsatisfiable)"
    using range_header [of "nat_to_dec b" "nat_to_dec a"] split_once_append [OF dec_no_dash, of a "nat_to_dec b"] assms dec_graphic
    by (auto simp: parse_range_def parse_usize_dec Let_def list_all_iff)
next
  show "parse_range (''bytes='' @ nat_to_dec a @ ''-'') len = (if a < len then Satisfiable a (len - 1) else Unsatisfiable)"
    using range_header [of "[]" "nat_to_dec a"] split_once_append [OF dec_no_dash, of a "[]"] assms
    by (auto simp: parse_range_def parse_usize_dec Let_def)
next
  show "parse_range (''bytes=-'' @ nat_to_dec b) len = (if b = 0 \<or> len = 0 then Unsatisfiable else Satisfiable (len - b) (len - 1))"
    using range_header [of "nat_to_dec b" "[]"] split_once_append [of "CHR ''-''" "[]" "nat_to_dec b"] assms dec_graphic
    by (auto simp: parse_range_def parse_usize_dec Let_def list_all_iff)
qed

theorem parse_range_bounds_witness:
  "parse_range (''bytes='' @ nat_to_dec 90 @ ''-'' @ nat_to_dec 999) 100 = Satisfiable 90 99 \<and>
   parse_range (''bytes=-'' @ nat_to_dec 999) 100 = Satisfiable 0 99 \<and>
   parse_range (''bytes=-'' @ nat_to_dec 999) 0 = Unsatisfiable"
  using parse_range_bounds [of 90 999 100] parse_range_bounds [of 90 999 0] by simp

section \<open>Framed bodies\<close>

text \<open>The framing a client applies: each chunk's size in hexadecimal, an extension, and its bytes.\<close>

definition hex_char :: "nat \<Rightarrow> char" where
  "hex_char d = (if d < 10 then char_of (48 + d) else char_of (87 + d))"

fun nat_to_hex :: "nat \<Rightarrow> string" where
  "nat_to_hex n = (if n < 16 then [hex_char n] else nat_to_hex (n div 16) @ [hex_char (n mod 16)])"

declare nat_to_hex.simps [simp del]

definition CRLF :: bytes where
  "CRLF = [13, 10]"

definition extension_ok :: "bytes \<Rightarrow> bool" where
  "extension_ok ext \<longleftrightarrow> (ext = [] \<or> hd ext = 59) \<and> 13 \<notin> set ext"

definition aws_frame :: "bytes \<times> bytes \<Rightarrow> bytes" where
  "aws_frame c = (case c of (ext, data) \<Rightarrow> bytes_of (nat_to_hex (length data)) @ ext @ CRLF @ data @ CRLF)"

lemma to_digit_hex: "d < 16 \<Longrightarrow> to_digit 16 (hex_char d) = Some d"
  by (auto simp: to_digit_def hex_char_def)

lemma parse_digits_hex: "n \<le> mx \<Longrightarrow> parse_digits 16 mx 0 (nat_to_hex n @ cs) = parse_digits 16 mx n cs"
proof (induction n arbitrary: cs rule: nat_to_hex.induct)
  case (1 n)
  show ?case
  proof (cases "n < 16")
    case True
    then show ?thesis using "1.prems" by (subst nat_to_hex.simps) (simp add: to_digit_hex)
  next
    case False
    have "n div 16 \<le> mx" using "1.prems" by simp
    with "1.IH" [OF False this] "1.prems" False show ?thesis
      by (subst nat_to_hex.simps) (simp add: to_digit_hex)
  qed
qed

lemma hex_char_graphic: "d < 16 \<Longrightarrow> graphic (hex_char d) \<and> hex_char d \<noteq> CHR '';'' \<and> hex_char d \<noteq> CHR ''+''"
  by (auto simp: hex_char_def graphic_def char_of_eq_iff take_bit_eq_mod)

lemma nat_to_hex_graphic: "c \<in> set (nat_to_hex n) \<Longrightarrow> graphic c \<and> c \<noteq> CHR '';'' \<and> c \<noteq> CHR ''+''"
proof (induction n rule: nat_to_hex.induct)
  case (1 n)
  show ?case
  proof (cases "n < 16")
    case True
    then show ?thesis using "1.prems" hex_char_graphic [of n] by (simp add: nat_to_hex.simps [of n])
  next
    case False
    then show ?thesis using "1.prems" "1.IH" hex_char_graphic [of "n mod 16"] by (auto simp: nat_to_hex.simps [of n])
  qed
qed

lemma nat_to_hex_nonempty [simp]: "nat_to_hex n \<noteq> []"
  by (subst nat_to_hex.simps) simp

lemma parse_hex: "n \<le> mx \<Longrightarrow> parse_unsigned 16 mx (nat_to_hex n) = Some n"
proof -
  assume "n \<le> mx"
  then have p: "parse_digits 16 mx 0 (nat_to_hex n) = Some n" using parse_digits_hex [of n mx "[]"] by simp
  obtain c cs where s: "nat_to_hex n = c # cs" by (cases "nat_to_hex n") auto
  then have "c \<noteq> CHR ''+''" using nat_to_hex_graphic [of c n] by simp
  with s p show ?thesis by (simp add: parse_unsigned_def)
qed

lemma trim_hex: "trim (nat_to_hex n) = nat_to_hex n"
  using nat_to_hex_graphic [OF hd_in_set] nat_to_hex_graphic [OF last_in_set] by (intro trim_graphic) simp

lemma crlf_position_skip: "13 \<notin> set a \<Longrightarrow> crlf_position (a @ 13 # 10 # s) = Some (length a)"
proof (induction a)
  case (Cons x a)
  then show ?case by (cases a) auto
qed simp

lemma bytes_of_mem: "b \<in> set (bytes_of s) \<longleftrightarrow> (\<exists>c\<in>set s. b = of_nat (of_char c))"
  by (auto simp: bytes_of_def)

lemma hex_bytes: "b \<in> set (bytes_of (nat_to_hex n)) \<Longrightarrow> b \<noteq> 13 \<and> b \<noteq> (59 :: u8)"
proof -
  assume "b \<in> set (bytes_of (nat_to_hex n))"
  then obtain c where c: "c \<in> set (nat_to_hex n)" "b = of_nat (of_char c)" by (auto simp: bytes_of_mem)
  have g: "graphic c" "c \<noteq> CHR '';''" using nat_to_hex_graphic [OF c(1)] by simp_all
  have u: "unat b = of_char c" using of_char_lt [of c] by (simp add: c(2) unat_of_nat)
  have "of_char c \<noteq> (59 :: nat)" using g(2) of_char_eq_iff [of c "CHR '';''", where 'a = nat] by simp
  with g(1) u show ?thesis by (auto simp: graphic_def)
qed

lemma from_utf8_hex: "from_utf8 (bytes_of (nat_to_hex n)) = Some (nat_to_hex n)"
proof -
  have "is_ascii (nat_to_hex n)" using nat_to_hex_graphic [of _ n] by (fastforce simp: is_ascii_def list_all_iff graphic_def)
  then show ?thesis by (simp add: from_utf8_def is_utf8_ascii)
qed

text \<open>The size line of a chunk that starts at position \<open>length pre\<close>.\<close>

lemma aws_size_line:
  fixes pre rest ext :: bytes and n :: nat
  assumes "extension_ok ext" "n < 2 ^ 64"
  defines "hx \<equiv> bytes_of (nat_to_hex n)"
  defines "raw \<equiv> pre @ hx @ ext @ CRLF @ rest" and "nl \<equiv> length pre + length hx + length ext"
  shows "aws_chunks raw (length pre) out =
    (if n = 0 then Ok out
     else
       let i2 = (nl + 2 + n) mod 2 ^ 64 in
       if length raw < i2 then Err (BadRequest ''aws-chunked: truncated chunk'')
       else rbind (slice_range raw (nl + 2) i2) (\<lambda>p. aws_chunks raw (if take 2 (drop i2 raw) = [13, 10] then i2 + 2 else i2) (out @ p)))"
proof -
  have no13: "13 \<notin> set (hx @ ext)" using hex_bytes [of 13 n] assms(1) by (auto simp: hx_def extension_ok_def)
  have "drop (length pre) raw = (hx @ ext) @ 13 # 10 # rest" by (simp add: raw_def CRLF_def)
  then have f: "find_crlf raw (length pre) = Some nl"
    using crlf_position_skip [OF no13, of rest] by (simp add: find_crlf_def raw_def nl_def CRLF_def)
  have s: "slice_range raw (length pre) nl = Ok (hx @ ext)"
    by (simp add: raw_def nl_def CRLF_def slice_range_def)
  have "takeWhile (\<lambda>b. b \<noteq> 59) (hx @ ext) = hx"
    using assms(1) hex_bytes [of _ n] by (cases ext) (auto simp: hx_def extension_ok_def takeWhile_append)
  then have u: "from_utf8 (takeWhile (\<lambda>b. b \<noteq> 59) (hx @ ext)) = Some (nat_to_hex n)" by (simp add: hx_def from_utf8_hex)
  have p: "parse_unsigned 16 (2 ^ 64 - 1) (trim (nat_to_hex n)) = Some n"
    unfolding trim_hex by (rule parse_hex) (use assms(2) in simp)
  show ?thesis
    by (subst aws_chunks.simps) (simp only: f s u p ok_or.simps rbind.simps)
qed

lemma aws_chunks_frame:
  assumes "extension_ok ext" "data \<noteq> []" "length (pre @ aws_frame (ext, data) @ rest) < 2 ^ 64"
  shows "aws_chunks (pre @ aws_frame (ext, data) @ rest) (length pre) out =
    aws_chunks (pre @ aws_frame (ext, data) @ rest) (length (pre @ aws_frame (ext, data))) (out @ data)"
proof -
  let ?n = "length data" and ?hx = "bytes_of (nat_to_hex (length data))"
  let ?raw = "pre @ ?hx @ ext @ CRLF @ data @ CRLF @ rest" and ?nl = "length pre + length ?hx + length ext"
  have raw: "pre @ aws_frame (ext, data) @ rest = ?raw" by (simp add: aws_frame_def)
  have crlf: "length CRLF = 2" by (simp add: CRLF_def)
  have len: "?nl + 2 + ?n + 2 + length rest < 2 ^ 64" using assms(3) unfolding raw by (simp add: crlf)
  then have m: "(?nl + 2 + ?n) mod 2 ^ 64 = ?nl + 2 + ?n" by (intro mod_less) linarith
  have before: "?raw = (pre @ ?hx @ ext @ CRLF) @ data @ CRLF @ rest" "length (pre @ ?hx @ ext @ CRLF) = ?nl + 2" by (simp_all add: crlf)
  have s: "slice_range ?raw (?nl + 2) (?nl + 2 + ?n) = Ok data"
    unfolding before(1) before(2) [symmetric] by (simp add: slice_range_def)
  have t: "take 2 (drop (?nl + 2 + ?n) ?raw) = [13, 10]"
    unfolding before(1) before(2) [symmetric] by (simp add: CRLF_def)
  have fr: "length (pre @ aws_frame (ext, data)) = ?nl + 2 + ?n + 2" by (simp add: aws_frame_def crlf)
  have n: "?n < 2 ^ 64" "?n \<noteq> 0" using len assms(2) by (linarith, simp)
  have "\<not> length ?raw < ?nl + 2 + ?n" by (simp add: crlf)
  then show ?thesis
    unfolding fr raw using aws_size_line [OF assms(1) n(1), of pre "data @ CRLF @ rest" out] n(2) by (simp only: m s t Let_def rbind.simps if_False if_True refl)
qed

lemma aws_chunks_frames:
  assumes "\<forall>(ext, data)\<in>set cs. extension_ok ext \<and> data \<noteq> []" "length (pre @ concat (map aws_frame cs) @ rest) < 2 ^ 64"
  shows "aws_chunks (pre @ concat (map aws_frame cs) @ rest) (length pre) out =
    aws_chunks (pre @ concat (map aws_frame cs) @ rest) (length (pre @ concat (map aws_frame cs))) (out @ concat (map snd cs))"
  using assms
proof (induction cs arbitrary: pre out)
  case (Cons c cs)
  obtain ext data where c: "c = (ext, data)" by fastforce
  let ?rest = "concat (map aws_frame cs) @ rest"
  have "aws_chunks (pre @ aws_frame c @ ?rest) (length pre) out =
      aws_chunks (pre @ aws_frame c @ ?rest) (length (pre @ aws_frame c)) (out @ data)"
    unfolding c by (rule aws_chunks_frame) (use Cons.prems c in auto)
  also have "\<dots> = aws_chunks ((pre @ aws_frame c) @ ?rest) (length ((pre @ aws_frame c) @ concat (map aws_frame cs))) ((out @ data) @ concat (map snd cs))"
    using Cons.IH [of "pre @ aws_frame c" "out @ data"] Cons.prems by simp
  finally show ?case by (simp add: c)
qed simp

text \<open>
  C30: a framed body decodes to its payload. Whatever the chunks of an upload, their extensions
  (signatures) and the trailer after the last one, the decoder returns exactly the bytes the client
  framed, as long as the whole body has fewer than \<open>2^64\<close> bytes.
\<close>

theorem decode_aws_chunked_payload:
  assumes "\<forall>(ext, data)\<in>set cs. extension_ok ext \<and> data \<noteq> []" "extension_ok last_ext"
    "length (concat (map aws_frame cs) @ bytes_of ''0'' @ last_ext @ CRLF @ trailer) < 2 ^ 64"
  shows "decode_aws_chunked (concat (map aws_frame cs) @ bytes_of ''0'' @ last_ext @ CRLF @ trailer) = Ok (concat (map snd cs))"
proof -
  have z: "nat_to_hex 0 = ''0''" by (simp add: nat_to_hex.simps hex_char_def char_of_eq_iff)
  let ?fs = "concat (map aws_frame cs)" and ?tail = "bytes_of (nat_to_hex 0) @ last_ext @ CRLF @ trailer"
  have "aws_chunks (?fs @ ?tail) 0 [] = aws_chunks (?fs @ ?tail) (length ?fs) (concat (map snd cs))"
    using aws_chunks_frames [OF assms(1), of "[]" ?tail "[]"] assms(3) z by simp
  also have "\<dots> = Ok (concat (map snd cs))" using aws_size_line [OF assms(2), of 0 ?fs trailer] by simp
  finally show ?thesis unfolding decode_aws_chunked_def z .
qed

theorem decode_aws_chunked_payload_witness:
  "decode_aws_chunked (concat (map aws_frame [(bytes_of '';chunk-signature=a'', bytes_of ''hello''), ([], bytes_of ''world!'')]) @
      bytes_of ''0'' @ bytes_of '';chunk-signature=c'' @ CRLF @ bytes_of ''x-amz-checksum-crc32:AAAAAA=='' @ CRLF) = Ok (bytes_of ''helloworld!'')"
  using decode_aws_chunked_payload [of "[(bytes_of '';chunk-signature=a'', bytes_of ''hello''), ([], bytes_of ''world!'')]"
      "bytes_of '';chunk-signature=c''" "bytes_of ''x-amz-checksum-crc32:AAAAAA=='' @ CRLF"]
  by (simp add: extension_ok_def bytes_of_def aws_frame_def CRLF_def nat_to_hex.simps)

text \<open>A chunk size near \<open>2^64\<close> wraps the end of the chunk below its start, and slicing it panics.\<close>

lemma decode_aws_chunked_overflow: "decode_aws_chunked (bytes_of ''ffffffffffffffff'' @ CRLF) = Panic"
proof -
  have h: "nat_to_hex (2 ^ 64 - 1) = ''ffffffffffffffff''" by (simp add: nat_to_hex.simps hex_char_def char_of_eq_iff)
  show ?thesis
    using aws_size_line [of "[]" "2 ^ 64 - 1" "[]" "[]" "[]"] unfolding h
    by (simp add: decode_aws_chunked_def extension_ok_def bytes_of_def CRLF_def slice_range_def)
qed

section \<open>Encoded query strings\<close>

text \<open>Percent-encoding as clients apply it: every byte but the unreserved ones is escaped.\<close>

definition unreserved :: "char \<Rightarrow> bool" where
  "unreserved c \<longleftrightarrow> (let n = of_char c :: nat in
     65 \<le> n \<and> n \<le> 90 \<or> 97 \<le> n \<and> n \<le> 122 \<or> 48 \<le> n \<and> n \<le> 57 \<or> c \<in> set ''-._~'')"

definition pct_char :: "char \<Rightarrow> string" where
  "pct_char c = (if unreserved c then [c] else ''%'' @ [hex_char (of_char c div 16), hex_char (of_char c mod 16)])"

definition pct_encode :: "string \<Rightarrow> string" where
  "pct_encode s = concat (map pct_char s)"

lemma pct_bytes_char: "pct_bytes (pct_char c @ s) = c # pct_bytes s"
proof (cases "unreserved c")
  case True
  then have "c \<noteq> CHR ''+''" "c \<noteq> CHR ''%''" by (auto simp: unreserved_def)
  with True show ?thesis by (simp add: pct_char_def)
next
  case False
  have "of_char c div 16 < (16 :: nat)" using of_char_lt [of c] by (intro less_mult_imp_div_less) simp
  then show ?thesis using False by (simp add: pct_char_def to_digit_hex)
qed

lemma pct_decode_encode: "is_utf8 s \<Longrightarrow> pct_decode (pct_encode s) = s"
proof -
  have "pct_bytes (pct_encode s) = s" by (induction s) (simp_all add: pct_encode_def pct_bytes_char)
  then show "is_utf8 s \<Longrightarrow> ?thesis" by (simp add: pct_decode_def utf8_lossy_valid)
qed

lemma pct_encode_chars:
  assumes "x \<in> set (pct_encode s)"
  shows "graphic x" "x \<noteq> CHR ''&''" "x \<noteq> CHR ''=''"
proof -
  obtain c where c: "x \<in> set (pct_char c)" using assms by (auto simp: pct_encode_def)
  have d: "of_char c div 16 < (16 :: nat)" "of_char c mod 16 < (16 :: nat)"
    using of_char_lt [of c] by (auto intro: less_mult_imp_div_less)
  have h: "graphic (hex_char n) \<and> hex_char n \<noteq> CHR ''&'' \<and> hex_char n \<noteq> CHR ''=''" if "n < 16" for n
    using that by (auto simp: hex_char_def graphic_def char_of_eq_iff take_bit_eq_mod)
  have "graphic x \<and> x \<noteq> CHR ''&'' \<and> x \<noteq> CHR ''=''"
    using c h [OF d(1)] h [OF d(2)] by (auto simp: pct_char_def unreserved_def graphic_def Let_def split: if_splits)
  then show "graphic x" "x \<noteq> CHR ''&''" "x \<noteq> CHR ''=''" by simp_all
qed

definition query_string :: "(string \<times> string) list \<Rightarrow> string" where
  "query_string kvs = join ''&'' (map (\<lambda>(k, v). k @ ''='' @ pct_encode v) kvs)"

text \<open>
  C31: query parameters arrive as sent. From a query string whose values a client percent-encoded,
  looking up a name returns the first value given for it, decoded, and nothing for a name that is not
  there, whatever separators the values contain.
\<close>

theorem query_param_encoded:
  assumes "kvs \<noteq> []" "\<forall>(k, v)\<in>set kvs. CHR ''&'' \<notin> set k \<and> CHR ''='' \<notin> set k \<and> is_utf8 v"
  shows "query_param (Some (query_string kvs)) key = map_of kvs key"
proof -
  let ?pair = "\<lambda>(k, v). k @ ''='' @ pct_encode v"
  let ?f = "\<lambda>kv. let (k, v) = (case split_once (CHR ''='') kv of Some p \<Rightarrow> p | None \<Rightarrow> (kv, [])) in
      if k = key then Some (pct_decode v) else None"
  have "split_char (CHR ''&'') (query_string kvs) = map ?pair kvs"
    unfolding query_string_def by (rule split_char_join) (use assms pct_encode_chars in fastforce)+
  moreover have "find_map ?f (map ?pair kvs) = map_of kvs key"
    using assms(2)
  proof (induction kvs)
    case (Cons kv kvs)
    obtain k v where kv: "kv = (k, v)" by fastforce
    have "split_once (CHR ''='') (k @ CHR ''='' # pct_encode v) = Some (k, pct_encode v)"
      using Cons.prems kv by (intro split_once_append) simp
    then show ?case using Cons kv by (simp add: pct_decode_encode)
  qed simp
  ultimately show ?thesis by (simp add: query_param_def)
qed

theorem query_param_encoded_witness:
  "query_param (Some (query_string [(''prefix'', ''a/b&c=d''), (''max-keys'', ''10'')])) ''prefix'' = Some ''a/b&c=d''"
  using query_param_encoded [of "[(''prefix'', ''a/b&c=d''), (''max-keys'', ''10'')]" "''prefix''"]
  by (simp add: is_utf8_ascii is_ascii_def)

text \<open>
  C32: tags sent with an upload arrive as sent. The value of an \<open>x-amz-tagging\<close> header a client encoded
  from a tag set within S3's limits parses to that tag set.
\<close>

theorem parse_tagging_header_encoded:
  assumes "tags \<noteq> []" "validate_tags tags = Ok ()" "\<forall>(k, v)\<in>set tags. is_utf8 k \<and> is_utf8 v"
  shows "parse_tagging_header (join ''&'' (map (\<lambda>(k, v). pct_encode k @ ''='' @ pct_encode v) tags)) = Ok tags"
proof -
  let ?pair = "\<lambda>(k, v). pct_encode k @ ''='' @ pct_encode v"
  let ?h = "join ''&'' (map ?pair tags)"
  have chars: "\<forall>s\<in>set (map ?pair tags). s \<noteq> [] \<and> (\<forall>c\<in>set s. graphic c \<and> c \<noteq> CHR ''&'')"
    using pct_encode_chars by (fastforce simp: graphic_def)
  have g: "list_all graphic ?h" by (rule join_all) (use chars in \<open>auto simp: list_all_iff graphic_def\<close>)
  have ne: "?h \<noteq> []" by (rule join_nonempty) (use assms(1) chars in auto)
  have t: "trim ?h = ?h" by (rule trim_graphic) (use g ne in \<open>auto simp: list_all_iff\<close>)
  have sp: "split_char (CHR ''&'') ?h = map ?pair tags" by (rule split_char_join) (use assms(1) chars in auto)
  let ?f = "\<lambda>pair. let (k, v) = (case split_once (CHR ''='') pair of Some p \<Rightarrow> p | None \<Rightarrow> (pair, [])) in (pct_decode k, pct_decode v)"
  have "?f (?pair (k, v)) = (k, v)" if "(k, v) \<in> set tags" for k v
  proof -
    have "CHR ''='' \<notin> set (pct_encode k)" using pct_encode_chars(3) by blast
    then have "split_once (CHR ''='') (pct_encode k @ CHR ''='' # pct_encode v) = Some (pct_encode k, pct_encode v)" by (rule split_once_append)
    then show ?thesis using assms(3) that by (auto simp: pct_decode_encode)
  qed
  then have "(?f \<circ> ?pair) t = t" if "t \<in> set tags" for t using that by (cases t) (simp only: comp_apply)
  then have "map ?f (map ?pair tags) = tags" unfolding map_map by (rule map_idI)
  then show ?thesis using t ne sp assms(2) by (simp add: parse_tagging_header_def Let_def)
qed

theorem parse_tagging_header_encoded_witness:
  "parse_tagging_header (join ''&'' (map (\<lambda>(k, v). pct_encode k @ ''='' @ pct_encode v) [(''a/b'', ''c d''), (''team'', ''x=y&z'')])) =
     Ok [(''a/b'', ''c d''), (''team'', ''x=y&z'')]"
proof (rule parse_tagging_header_encoded)
  show "validate_tags [(''a/b'', ''c d''), (''team'', ''x=y&z'')] = Ok ()"
    by (simp add: validate_tags_def char_count_def is_cont_def)
qed (auto intro!: is_utf8_ascii simp: is_ascii_def)

section \<open>Dates and preconditions\<close>

text \<open>
  C27: printed dates parse back. For every time stamp a manager can report, printing it as
  \<open>Last-Modified\<close> does not panic, and parsing what was printed gives the time stamp to the second.
\<close>

theorem http_date_parses:
  "\<exists>s. http_date ms = Ok s \<and> parse_http_date s = Some (ms div 1000)"
  using http_date_round_trip [of ms] by blast

text \<open>An entity tag as the gateway makes them: visible text without commas.\<close>

definition plain_etag :: "string \<Rightarrow> bool" where
  "plain_etag etag \<longleftrightarrow> list_all (\<lambda>c. graphic c \<and> c \<noteq> CHR '','') etag"

lemma own_etag_matches: "plain_etag etag \<Longrightarrow> etag_list_matches (quote etag) (quote etag)"
proof -
  assume "plain_etag etag"
  then have g: "list_all graphic (quote etag)" "CHR '','' \<notin> set (quote etag)"
    by (auto simp: plain_etag_def quote_def list_all_iff graphic_def)
  have "trim (quote etag) = quote etag" by (rule trim_graphic) (simp add: quote_def graphic_def)
  then show ?thesis using split_char_single [OF g(2)] by (simp add: etag_list_matches_def)
qed

text \<open>
  C33: conditional requests agree with the validators the gateway hands out. Take an object's entity
  tag and the \<open>Last-Modified\<close> date printed for it. Sent back as \<open>If-None-Match\<close>, the tag gives 304, whatever
  \<open>If-Modified-Since\<close> says; sent back alone as \<open>If-Modified-Since\<close>, the date gives 304; sent as
  \<open>If-Match\<close> or \<open>If-Unmodified-Since\<close> they let the read through. An \<open>If-Match\<close> that does not list the
  tag gives 412 whatever the other headers say, and a request without conditions is not conditional.
\<close>

theorem own_validators:
  assumes "plain_etag etag" "http_date ms = (Ok modified :: (gateway_error, string) result)" "\<not> etag_list_matches other (quote etag)"
  shows "precondition_status None (Some (quote etag)) ims None etag ms = Some NOT_MODIFIED \<and>
    precondition_status None None (Some modified) None etag ms = Some NOT_MODIFIED \<and>
    precondition_status (Some (quote etag)) None None ius etag ms = None \<and>
    precondition_status None None None (Some modified) etag ms = None \<and>
    precondition_status (Some other) inm ims ius etag ms = Some PRECONDITION_FAILED \<and>
    precondition_status None None None None etag ms = None"
proof -
  obtain s where "http_date ms = (Ok s :: (gateway_error, string) result)" "parse_http_date s = Some (ms div 1000)"
    by (rule http_date_round_trip)
  with assms(2) have "parse_http_date modified = Some (ms div 1000)" by simp
  with own_etag_matches [OF assms(1)] assms(3) show ?thesis by (simp add: precondition_status_def)
qed

lemma http_date_epoch: "http_date 0 = (Ok ''Thu, 01 Jan 1970 00:00:00 GMT'' :: (gateway_error, string) result)"
  by code_simp

theorem own_validators_witness:
  "precondition_status None None (Some ''Thu, 01 Jan 1970 00:00:00 GMT'') None ''abc'' 0 = Some NOT_MODIFIED \<and>
   precondition_status (Some ''*x'') (Some ''*'') None None ''abc'' 0 = Some PRECONDITION_FAILED"
proof -
  have t: "trim ''*x'' = ''*x''" by (rule trim_graphic) (simp add: graphic_def)
  have "\<not> etag_list_matches ''*x'' (quote ''abc'')"
    by (simp add: etag_list_matches_def t quote_def strip_prefix_def)
  with own_validators [of "''abc''" 0 "''Thu, 01 Jan 1970 00:00:00 GMT''" "''*x''" None None "Some ''*''"] http_date_epoch
  show ?thesis by (simp add: plain_etag_def graphic_def)
qed

text \<open>A year far enough ahead wraps the product with the seconds of a day: the date reads as February 1970.\<close>

lemma parse_http_date_overflow: "parse_http_date ''Fri, 01 Jan 584554051224 00:00:00 GMT'' = Some 4553984"
proof -
  have z: "zero_pad 2 1 = ''01''" "zero_pad 4 584554051224 = ''584554051224''" "zero_pad 2 0 = ''00''"
    by (simp_all add: zero_pad_def nat_to_dec.simps digit_char_def char_of_eq_iff)
  have m: "month_num ''Jan'' = Some 1" by (simp add: month_num_def MON_def)
  have d: "days_from_civil 584554051224 1 1 = 213503982334654" by code_simp
  have w: "i64_wrap 18446744073714105600 = 4553984" "i64_wrap 4553984 = 4553984" by code_simp+
  show ?thesis
    using parse_date_text [of "''Fri''" "''Jan''" 1 1 584554051224 0 0 0] m by (simp add: z d w graphic_def Let_def)
qed

text \<open>
  A key with an encoded character is stored under its encoded name, and copied from its decoded name.
\<close>

lemma copy_source_decoded: "split_path ''/b/a%20b'' = (''b'', ''a%20b'') \<and> parse_copy_source ''/b/a%20b'' = Ok (''b'', ''a b'')"
proof -
  have "is_utf8 ''b''" "is_utf8 ''a b''" by (rule is_utf8_ascii, simp add: is_ascii_def)+
  moreover have "char_of (32 :: nat) = CHR '' ''" by (simp add: char_of_eq_iff)
  ultimately show ?thesis
    by (simp add: split_path_def parse_copy_source_def trim_start_char_def split_once_def pct_decode_def utf8_lossy_valid to_digit_def)
qed

end
