(* ===== verification/S3_Route.thy ===== *)
theory S3_Route
  imports S3_Xml
begin

text \<open>
  \<open>crates/ozone-s3-gw/src/lib.rs\<close>: one HTTP request, from its headers to its response. The HTTP library
  is a record of functions: looking up request headers (a value that is not text reads as absent) and
  whether a response builder accepts a header; a response with a header it rejects panics, as the
  source expects it to be valid. The text of errors that wrap another crate's is a parameter too.
\<close>

section \<open>Requests and responses\<close>

datatype http_method = GET | PUT | POST | HEAD | DELETE | OtherMethod string

record 'h http_lib =
  hl_get :: "'h \<Rightarrow> string \<Rightarrow> string option"
  hl_get_all :: "'h \<Rightarrow> string \<Rightarrow> string list"
  hl_iter :: "'h \<Rightarrow> (string \<times> string option) list"
  hl_valid :: "string \<Rightarrow> string \<Rightarrow> bool"
  hl_inner :: "gateway_error \<Rightarrow> string"

record 'h request =
  rq_method :: http_method
  rq_path :: string
  rq_query :: "string option"
  rq_headers :: 'h
  rq_body :: "(string, bytes) result"

record response =
  rp_status :: nat
  rp_headers :: "(string \<times> string) list"
  rp_body :: bytes

definition respond :: "'h http_lib \<Rightarrow> nat \<Rightarrow> (string \<times> string) list \<Rightarrow> bytes \<Rightarrow> ('e, response) result" where
  "respond http status headers body =
     (if list_all (\<lambda>(k, v). hl_valid http k v) headers
      then Ok \<lparr>rp_status = status, rp_headers = headers, rp_body = body\<rparr> else Panic)"

definition method_name :: "http_method \<Rightarrow> string" where
  "method_name m =
     (case m of GET \<Rightarrow> ''GET'' | PUT \<Rightarrow> ''PUT'' | POST \<Rightarrow> ''POST'' | HEAD \<Rightarrow> ''HEAD'' | DELETE \<Rightarrow> ''DELETE'' | OtherMethod s \<Rightarrow> s)"

definition status_only :: "'h http_lib \<Rightarrow> nat \<Rightarrow> ('e, response) result" where
  "status_only http status = respond http status [] []"

definition xml_ok :: "'h http_lib \<Rightarrow> string \<Rightarrow> ('e, response) result" where
  "xml_ok http xml = respond http 200 [(''content-type'', ''application/xml'')] (bytes_of xml)"

text \<open>\<open>Display\<close> of the gateway's errors; the transparent ones print what they wrap.\<close>

definition gateway_display :: "(gateway_error \<Rightarrow> string) \<Rightarrow> gateway_error \<Rightarrow> string" where
  "gateway_display inner e =
     (case e of
        NoSuchKey \<Rightarrow> ''no such key''
      | NoSuchBucket \<Rightarrow> ''no such bucket''
      | NoSuchUpload \<Rightarrow> ''no such upload''
      | BadRequest m \<Rightarrow> ''bad request: '' @ m
      | GwInternal m \<Rightarrow> ''internal error: '' @ m
      | other \<Rightarrow> inner other)"

definition error_status :: "gateway_error \<Rightarrow> nat" where
  "error_status e =
     (case e of NoSuchKey \<Rightarrow> 404 | NoSuchBucket \<Rightarrow> 404 | NoSuchUpload \<Rightarrow> 404 | BadRequest _ \<Rightarrow> 400 | _ \<Rightarrow> 500)"

definition error_response :: "'h http_lib \<Rightarrow> gateway_error \<Rightarrow> ('e, response) result" where
  "error_response http e =
     respond http (error_status e) [(''content-type'', ''application/xml'')]
       (bytes_of (error_xml (s3_code e) (xml_escape (gateway_display (hl_inner http) e))))"

definition precondition_failed_response :: "'h http_lib \<Rightarrow> ('e, response) result" where
  "precondition_failed_response http =
     respond http PRECONDITION_FAILED [(''content-type'', ''application/xml'')]
       (bytes_of (error_xml ''PreconditionFailed'' ''At least one of the preconditions you specified did not hold.''))"

definition range_not_satisfiable_response :: "'h http_lib \<Rightarrow> nat \<Rightarrow> ('e, response) result" where
  "range_not_satisfiable_response http len =
     respond http 416 [(''content-range'', ''bytes */'' @ nat_to_dec len), (''content-type'', ''application/xml'')]
       (bytes_of (error_xml ''InvalidRange'' ''The requested range is not satisfiable''))"

section \<open>Headers\<close>

definition PRINCIPAL_HEADER :: string where
  "PRINCIPAL_HEADER = ''x-auth-principal''"

definition CONTENT_TYPE_META_KEY :: string where
  "CONTENT_TYPE_META_KEY = ''content-type''"

definition extract_principal :: "'h http_lib \<Rightarrow> 'h \<Rightarrow> string" where
  "extract_principal http h =
     (case hl_get http h PRINCIPAL_HEADER of
        Some (c # p) \<Rightarrow> c # p
      | _ \<Rightarrow>
          (case hl_get http h ''authorization'' of
             None \<Rightarrow> ''anonymous''
           | Some auth \<Rightarrow>
               (case str_find ''Credential='' auth of
                  None \<Rightarrow> ''anonymous''
                | Some pos \<Rightarrow>
                    let akid = hd (split_char (CHR ''/'') (drop (pos + length ''Credential='') auth)) in
                    if akid \<noteq> [] then akid else ''anonymous'')))"

definition is_aws_chunked :: "'h http_lib \<Rightarrow> 'h \<Rightarrow> bool" where
  "is_aws_chunked http h =
     (let streaming_sha = (case hl_get http h ''x-amz-content-sha256'' of Some s \<Rightarrow> prefix ''STREAMING'' s | None \<Rightarrow> False);
          chunked_enc = (case hl_get http h ''content-encoding'' of Some s \<Rightarrow> str_find ''aws-chunked'' s \<noteq> None | None \<Rightarrow> False) in
      streaming_sha \<or> chunked_enc)"

definition collect_user_metadata :: "'h http_lib \<Rightarrow> 'h \<Rightarrow> string_map" where
  "collect_user_metadata http h =
     foldl (\<lambda>m (n, value).
       if prefix ''x-amz-meta-'' n then (case value of Some v \<Rightarrow> btree_insert n v m | None \<Rightarrow> m) else m)
       (case hl_get http h ''content-type'' of Some ct \<Rightarrow> btree_insert CONTENT_TYPE_META_KEY ct [] | None \<Rightarrow> [])
       (hl_iter http h)"

definition apply_object_metadata :: "gw_libs \<Rightarrow> string_map \<Rightarrow> (string \<times> string) list" where
  "apply_object_metadata lib metadata =
     (let content_type = (case map_of metadata CONTENT_TYPE_META_KEY of Some t \<Rightarrow> t | None \<Rightarrow> ''application/octet-stream'') in
      (''content-type'', content_type) # filter (\<lambda>(k, _). prefix ''x-amz-meta-'' k) (lib_hash_order lib metadata))"

record request_info =
  ri_principal :: string
  ri_aws_chunked :: bool
  ri_copy_source :: "string option"
  ri_replace_metadata :: bool
  ri_replace_tags :: bool
  ri_range :: "string option"
  ri_user_metadata :: string_map
  ri_if_match :: "string option"
  ri_if_none_match :: "string option"
  ri_if_modified_since :: "string option"
  ri_if_unmodified_since :: "string option"
  ri_tagging :: "string option"
  ri_object_attributes :: "string option"

definition read_headers :: "'h http_lib \<Rightarrow> 'h \<Rightarrow> request_info" where
  "read_headers http h =
     (let get = hl_get http h;
          directive = (\<lambda>name. case get name of Some d \<Rightarrow> eq_ignore_ascii_case d ''REPLACE'' | None \<Rightarrow> False);
          joined = join '','' (hl_get_all http h ''x-amz-object-attributes'') in
      \<lparr>ri_principal = extract_principal http h, ri_aws_chunked = is_aws_chunked http h,
       ri_copy_source = get ''x-amz-copy-source'',
       ri_replace_metadata = directive ''x-amz-metadata-directive'', ri_replace_tags = directive ''x-amz-tagging-directive'',
       ri_range = get ''range'', ri_user_metadata = collect_user_metadata http h,
       ri_if_match = get ''if-match'', ri_if_none_match = get ''if-none-match'',
       ri_if_modified_since = get ''if-modified-since'', ri_if_unmodified_since = get ''if-unmodified-since'',
       ri_tagging = get ''x-amz-tagging'',
       ri_object_attributes = (if joined \<noteq> [] then Some joined else None)\<rparr>)"

definition collect_body :: "'h request \<Rightarrow> (gateway_error, bytes) result" where
  "collect_body req = map_err (\<lambda>e. BadRequest (''reading request body: '' @ e)) (rq_body req)"

definition request_body :: "'h request \<Rightarrow> request_info \<Rightarrow> (gateway_error, bytes) result" where
  "request_body req ri =
     rbind (collect_body req) (\<lambda>raw. if ri_aws_chunked ri then decode_aws_chunked raw else Ok raw)"

section \<open>Object subresources\<close>

type_synonym ('o, 's) answer = "('o, 's) world \<times> (gateway_error, response) result"

definition tagging_route ::
    "'h http_lib \<Rightarrow> 'o gateway \<Rightarrow> ('o, 's) world \<Rightarrow> 'h request \<Rightarrow> request_info \<Rightarrow> string \<Rightarrow> string \<Rightarrow> ('o, 's) answer" where
  "tagging_route http gw w req ri bucket key =
     (case rq_method req of
        PUT \<Rightarrow>
          try_st w (request_body req ri) (\<lambda>body.
          try_st w (parse_tagging body) (\<lambda>tags.
          try_upd (gw_put_object_tagging gw w bucket key (ri_principal ri) tags) (\<lambda>w1 _.
          (w1, status_only http 200))))
      | GET \<Rightarrow>
          try_upd (gw_get_object_tagging gw w bucket key (ri_principal ri)) (\<lambda>w1 tags.
          (w1, xml_ok http (tagging_xml tags)))
      | DELETE \<Rightarrow>
          try_upd (gw_put_object_tagging gw w bucket key (ri_principal ri) []) (\<lambda>w1 _.
          (w1, status_only http 204))
      | _ \<Rightarrow> (w, Err (BadRequest ''unsupported tagging operation'')))"

definition attributes_route ::
    "'h http_lib \<Rightarrow> 'o gateway \<Rightarrow> ('o, 's) world \<Rightarrow> 'h request \<Rightarrow> request_info \<Rightarrow> string \<Rightarrow> string \<Rightarrow> ('o, 's) answer" where
  "attributes_route http gw w req ri bucket key =
     (if rq_method req \<noteq> GET then (w, Err (BadRequest ''unsupported attributes operation''))
      else
        let requested = (case ri_object_attributes ri of Some h \<Rightarrow> parse_object_attributes_header h | None \<Rightarrow> []) in
        if requested = [] then (w, Err (BadRequest ''missing x-amz-object-attributes header''))
        else
          try_upd (gw_object_attributes gw w bucket key (ri_principal ri)) (\<lambda>w1 (etag, n, mod_ms).
          try_st w1 (http_date mod_ms) (\<lambda>modified.
          (w1, respond http 200 [(''content-type'', ''application/xml''), (''last-modified'', modified)]
             (bytes_of (object_attributes_xml requested etag n))))))"

definition multipart_route ::
    "'h http_lib \<Rightarrow> gw_libs \<Rightarrow> 'o gateway \<Rightarrow> ('o, 's) world \<Rightarrow> 'h request \<Rightarrow> request_info \<Rightarrow> string \<Rightarrow> string \<Rightarrow> string
       \<Rightarrow> ('o, 's) answer" where
  "multipart_route http lib gw w req ri bucket key upload_id =
     (case rq_method req of
        PUT \<Rightarrow>
          try_st w (ok_or (Option.bind (query_param (rq_query req) ''partNumber'') parse_u32)
            (BadRequest ''missing or invalid partNumber'')) (\<lambda>part_number.
          try_st w (request_body req ri) (\<lambda>body.
          try_upd (gw_upload_part lib gw w bucket key (ri_principal ri) upload_id part_number body) (\<lambda>w1 etag.
          (w1, respond http 200 [(''etag'', quote etag)] []))))
      | POST \<Rightarrow>
          try_st w (request_body req ri) (\<lambda>body.
          try_st w (parse_complete_parts body) (\<lambda>part_numbers.
          try_upd (gw_complete_multipart gw w bucket key (ri_principal ri) upload_id part_numbers) (\<lambda>w1 etag.
          (w1, xml_ok http (complete_mpu_xml bucket key etag)))))
      | DELETE \<Rightarrow>
          try_upd (gw_abort_multipart gw w bucket key (ri_principal ri) upload_id) (\<lambda>w1 _.
          (w1, status_only http 204))
      | GET \<Rightarrow>
          try_upd (gw_list_parts gw w bucket key (ri_principal ri) upload_id) (\<lambda>w1 parts.
          (w1, xml_ok http (list_parts_xml bucket key upload_id parts)))
      | _ \<Rightarrow> (w, Err (BadRequest ''unsupported multipart operation'')))"

section \<open>Buckets\<close>

definition delete_objects_route ::
    "'h http_lib \<Rightarrow> 'o gateway \<Rightarrow> ('o, 's) world \<Rightarrow> 'h request \<Rightarrow> request_info \<Rightarrow> string \<Rightarrow> ('o, 's) answer" where
  "delete_objects_route http gw w req ri bucket =
     try_st w (request_body req ri) (\<lambda>body.
     try_st w (parse_delete_request body) (\<lambda>(keys, quiet).
     if 1000 < length keys then (w, Err (BadRequest ''a delete request can contain at most 1000 keys''))
     else
       try_upd (gw_delete_objects (gateway_display (hl_inner http)) gw w bucket keys (ri_principal ri)) (\<lambda>w1 results.
       (w1, xml_ok http (delete_result_xml results quiet)))))"

definition list_route ::
    "'h http_lib \<Rightarrow> 'o gateway \<Rightarrow> nat \<Rightarrow> ('o, 's) world \<Rightarrow> string option \<Rightarrow> request_info \<Rightarrow> string \<Rightarrow> ('o, 's) answer option" where
  "list_route http gw n w q ri bucket =
     (let param = (\<lambda>name. case query_param q name of Some v \<Rightarrow> v | None \<Rightarrow> []);
          max_keys = (case query_param q ''max-keys'' of
              None \<Rightarrow> Ok 1000
            | Some v \<Rightarrow> (case parse_u32 (trim v) of Some m \<Rightarrow> Ok (min m 1000) | None \<Rightarrow> Err (BadRequest ''invalid max-keys''))) in
      case max_keys of
        Ok m \<Rightarrow>
          map_option (\<lambda>r. try_upd r (\<lambda>w1 listing. (w1, xml_ok http (listing_xml listing))))
            (gw_list_objects gw n w bucket (ri_principal ri) (param ''prefix'') (param ''delimiter'') m (param ''continuation-token''))
      | Err e \<Rightarrow> Some (w, Err e)
      | Panic \<Rightarrow> Some (w, Panic))"

definition bucket_route ::
    "'h http_lib \<Rightarrow> 'o gateway \<Rightarrow> nat \<Rightarrow> ('o, 's) world \<Rightarrow> 'h request \<Rightarrow> request_info \<Rightarrow> string \<Rightarrow> ('o, 's) answer option" where
  "bucket_route http gw n w req ri bucket =
     (let q = rq_query req; who = ri_principal ri in
      if rq_method req = POST \<and> query_param q ''delete'' \<noteq> None then Some (delete_objects_route http gw w req ri bucket)
      else if rq_method req = GET \<and> query_param q ''location'' \<noteq> None
      then Some (w, xml_ok http (bucket_location_xml (gw_region gw)))
      else if rq_method req = GET \<and> query_param q ''uploads'' \<noteq> None
      then Some (try_upd (gw_list_multipart_uploads gw w bucket who) (\<lambda>w1 uploads. (w1, xml_ok http (list_mpu_xml bucket uploads))))
      else case rq_method req of
          HEAD \<Rightarrow> Some (try_upd (gw_head_bucket gw w bucket who) (\<lambda>w1 _. (w1, status_only http 200)))
        | PUT \<Rightarrow> Some (try_upd (gw_create_bucket gw w bucket who) (\<lambda>w1 _.
            (w1, respond http 200 [(''location'', ''/'' @ bucket)] [])))
        | DELETE \<Rightarrow> Some (try_upd (gw_delete_bucket gw w bucket who) (\<lambda>w1 _. (w1, status_only http 204)))
        | GET \<Rightarrow> list_route http gw n w q ri bucket
        | m \<Rightarrow> Some (w, Err (BadRequest (''unsupported operation: '' @ method_name m @ '' '' @ rq_path req))))"

section \<open>Objects\<close>

definition header_tags :: "request_info \<Rightarrow> (gateway_error, (string \<times> string) list) result" where
  "header_tags ri = (case ri_tagging ri of Some h \<Rightarrow> parse_tagging_header h | None \<Rightarrow> Ok [])"

definition copy_route ::
    "'h http_lib \<Rightarrow> gw_libs \<Rightarrow> 'o gateway \<Rightarrow> ('o, 's) world \<Rightarrow> request_info \<Rightarrow> string \<Rightarrow> string \<Rightarrow> string \<Rightarrow> ('o, 's) answer" where
  "copy_route http lib gw w ri bucket key source =
     try_st w (parse_copy_source source) (\<lambda>(src_bucket, src_key).
     if src_bucket = bucket \<and> src_key = key \<and> \<not> ri_replace_metadata ri
     then (w, Err (BadRequest ''copy destination is the same as the source without replacing metadata''))
     else
       try_st w (if ri_replace_tags ri then header_tags ri else Ok []) (\<lambda>tags.
       let directives = \<lparr>cpd_replace_metadata = ri_replace_metadata ri, cpd_metadata = ri_user_metadata ri,
                         cpd_replace_tags = ri_replace_tags ri, cpd_tags = tags\<rparr> in
       try_upd (gw_copy_object lib gw w bucket key src_bucket src_key (ri_principal ri) directives) (\<lambda>w1 (etag, _).
       (w1, xml_ok http (copy_object_xml etag)))))"

definition put_route ::
    "'h http_lib \<Rightarrow> gw_libs \<Rightarrow> 'o gateway \<Rightarrow> ('o, 's) world \<Rightarrow> 'h request \<Rightarrow> request_info \<Rightarrow> string \<Rightarrow> string \<Rightarrow> ('o, 's) answer" where
  "put_route http lib gw w req ri bucket key =
     (let write = (\<lambda>w.
        case ri_copy_source ri of
          Some source \<Rightarrow> copy_route http lib gw w ri bucket key source
        | None \<Rightarrow>
            try_st w (request_body req ri) (\<lambda>body.
            try_st w (header_tags ri) (\<lambda>tags.
            try_upd (gw_put_object lib gw w bucket key (ri_principal ri) body (ri_user_metadata ri) tags) (\<lambda>w1 etag.
            (w1, respond http 200 [(''etag'', quote etag)] []))))) in
      if ri_if_none_match ri = Some ''*''
      then
        (case gw_head_object gw w bucket key (ri_principal ri) of
           (w1, Ok _) \<Rightarrow> (w1, precondition_failed_response http)
         | (w1, Err _) \<Rightarrow> write w1
         | (w1, Panic) \<Rightarrow> (w1, Panic))
      else write w)"

definition precondition_response :: "'h http_lib \<Rightarrow> nat \<Rightarrow> ('e, response) result" where
  "precondition_response http status =
     (if status = NOT_MODIFIED then status_only http status else precondition_failed_response http)"

definition check_preconditions :: "request_info \<Rightarrow> string \<Rightarrow> u64 \<Rightarrow> nat option" where
  "check_preconditions ri etag mod_ms =
     precondition_status (ri_if_match ri) (ri_if_none_match ri) (ri_if_modified_since ri) (ri_if_unmodified_since ri) etag mod_ms"

definition get_route ::
    "'h http_lib \<Rightarrow> gw_libs \<Rightarrow> 'o gateway \<Rightarrow> ('o, 's) world \<Rightarrow> request_info \<Rightarrow> string \<Rightarrow> string \<Rightarrow> ('o, 's) answer" where
  "get_route http lib gw w ri bucket key =
     (let read = (\<lambda>w.
        try_upd (gw_get_object lib gw w bucket key (ri_principal ri)) (\<lambda>w1 (data, etag, metadata, mod_ms).
        let reply = (\<lambda>status extra body.
              try_st w1 (http_date mod_ms) (\<lambda>modified.
              (w1, respond http status ([(''etag'', quote etag), (''last-modified'', modified)] @ extra @
                 [(''content-length'', nat_to_dec (length body))] @ apply_object_metadata lib metadata) body))) in
        case ri_range ri of
          None \<Rightarrow> reply 200 [] data
        | Some rng \<Rightarrow>
            (case parse_range rng (length data) of
               Satisfiable start stop \<Rightarrow>
                 try_st w1 (slice_range data start (stop + 1)) (\<lambda>part.
                 reply 206 [(''content-range'', ''bytes '' @ nat_to_dec start @ ''-'' @ nat_to_dec stop @ ''/'' @ nat_to_dec (length data))] part)
             | Unsatisfiable \<Rightarrow> (w1, range_not_satisfiable_response http (length data))
             | Whole \<Rightarrow> reply 200 [] data))) in
      if ri_if_match ri \<noteq> None \<or> ri_if_none_match ri \<noteq> None \<or> ri_if_modified_since ri \<noteq> None \<or> ri_if_unmodified_since ri \<noteq> None
      then
        try_upd (gw_head_object gw w bucket key (ri_principal ri)) (\<lambda>w1 (_, etag, _, mod_ms).
        case check_preconditions ri etag mod_ms of
          Some status \<Rightarrow> (w1, precondition_response http status)
        | None \<Rightarrow> read w1)
      else read w)"

definition head_route ::
    "'h http_lib \<Rightarrow> gw_libs \<Rightarrow> 'o gateway \<Rightarrow> ('o, 's) world \<Rightarrow> request_info \<Rightarrow> string \<Rightarrow> string \<Rightarrow> ('o, 's) answer" where
  "head_route http lib gw w ri bucket key =
     try_upd (gw_head_object gw w bucket key (ri_principal ri)) (\<lambda>w1 (n, etag, metadata, mod_ms).
     case check_preconditions ri etag mod_ms of
       Some status \<Rightarrow> (w1, precondition_response http status)
     | None \<Rightarrow>
         try_st w1 (http_date mod_ms) (\<lambda>modified.
         (w1, respond http 200 ([(''etag'', quote etag), (''last-modified'', modified), (''content-length'', nat_to_dec (unat n))] @
            apply_object_metadata lib metadata) [])))"

definition object_route ::
    "'h http_lib \<Rightarrow> gw_libs \<Rightarrow> 'o gateway \<Rightarrow> ('o, 's) world \<Rightarrow> 'h request \<Rightarrow> request_info \<Rightarrow> string \<Rightarrow> string \<Rightarrow> ('o, 's) answer" where
  "object_route http lib gw w req ri bucket key =
     (let q = rq_query req in
      if query_param q ''tagging'' \<noteq> None then tagging_route http gw w req ri bucket key
      else if query_param q ''attributes'' \<noteq> None then attributes_route http gw w req ri bucket key
      else if rq_method req = POST \<and> query_param q ''uploads'' \<noteq> None
      then try_upd (gw_initiate_multipart gw w bucket key (ri_principal ri)) (\<lambda>w1 upload_id.
        (w1, xml_ok http (initiate_mpu_xml bucket key upload_id)))
      else case query_param q ''uploadId'' of
          Some upload_id \<Rightarrow> multipart_route http lib gw w req ri bucket key upload_id
        | None \<Rightarrow>
            (case rq_method req of
               PUT \<Rightarrow> put_route http lib gw w req ri bucket key
             | GET \<Rightarrow> get_route http lib gw w ri bucket key
             | HEAD \<Rightarrow> head_route http lib gw w ri bucket key
             | DELETE \<Rightarrow> try_upd (gw_delete_object gw w bucket key (ri_principal ri)) (\<lambda>w1 _. (w1, status_only http 204))
             | m \<Rightarrow> (w, Err (BadRequest (''unsupported operation: '' @ method_name m @ '' '' @ rq_path req)))))"

section \<open>Dispatch\<close>

definition route ::
    "'h http_lib \<Rightarrow> gw_libs \<Rightarrow> 'o gateway \<Rightarrow> nat \<Rightarrow> ('o, 's) world \<Rightarrow> 'h request \<Rightarrow> ('o, 's) answer option" where
  "route http lib gw n w req =
     (let ri = read_headers http (rq_headers req); (bucket, key) = split_path (rq_path req) in
      if bucket = [] then
        (if rq_method req = GET
         then Some (try_upd (gw_list_buckets gw w (ri_principal ri)) (\<lambda>w1 buckets. (w1, xml_ok http (list_buckets_xml buckets))))
         else Some (w, Err (BadRequest ''missing bucket in path'')))
      else if key \<noteq> [] then Some (object_route http lib gw w req ri bucket key)
      else bucket_route http gw n w req ri bucket)"

definition handle ::
    "'h http_lib \<Rightarrow> gw_libs \<Rightarrow> 'o gateway \<Rightarrow> nat \<Rightarrow> ('o, 's) world \<Rightarrow> 'h request
       \<Rightarrow> (('o, 's) world \<times> (gateway_error, response) result) option" where
  "handle http lib gw n w req =
     map_option (\<lambda>(w1, r). (w1, case r of Ok resp \<Rightarrow> Ok resp | Err e \<Rightarrow> error_response http e | Panic \<Rightarrow> Panic))
       (route http lib gw n w req)"

end
