(* ===== verification/Spec2Isabelle.thy ===== *)
theory Spec2Isabelle
  imports Ec_Correct Repair_Correct Gateway_Props S3_Parse_Correct S3_Route
begin

text \<open>
  Verification of a Rust implementation of Ozone's S3 storage path: the S3 gateway that stripes
  objects over datanodes, the datanode that keeps the shards, the clients between them, and the
  coding, checksumming, scrubbing and repair that keep objects readable when disks and datanodes
  fail. Paths below are relative to \<open>src/crates\<close>.

  \<^bold>\<open>The program.\<close> The S3 front end (\<open>ozone-s3-gw/src/lib.rs\<close>) parses a request and calls the data
  path (\<open>ozone-s3-gw/src/backend.rs\<close>). A put asks the Ozone Manager for blocks
  (\<open>ozone-om-client\<close>), stripes the object over \<open>k\<close> data and \<open>p\<close> parity shards (\<open>ozone-ec\<close>, on the ISA-L
  bindings of \<open>isa-l-safe\<close>), stores each shard as one chunk of one block on one datanode
  (\<open>ozone-dn-client\<close>) and commits the key. A get looks the key up, reads the shards it can and decodes.
  A datanode (\<open>ozone-dn-server\<close>) stores chunk bytes in files (\<open>ozone-storage\<close>) and block and container
  records in an embedded key-value store (\<open>ozone-fjall-store\<close>), answers the RPCs of
  \<open>proto/datanode_gateway_v1.proto\<close>, scans itself for bit rot, and rebuilds lost shards from the
  survivors on its peers. The manager of the integration tests is \<open>test-fixtures/src/compliant_om.rs\<close>.

  \<^bold>\<open>Conventions.\<close> A fallible function returns a \<open>result\<close>: \<open>Ok\<close>, \<open>Err\<close> or \<open>Panic\<close>; a \<open>Panic\<close> is an
  out-of-range index, a failed subtraction or an explicit panic of the source. A stateful function
  returns its new state beside its result. Fixed-width integers are words, and arithmetic on them
  wraps as in a release build; the counters of the manager fixture, which only runs under the test
  profile, are checked. \<open>usize\<close> is a natural number, with the wrap written out where a client controls
  the operands (\<open>decode_aws_chunked\<close>). A \<open>BTreeMap\<close> is an association list sorted by key; so is a
  \<open>HashMap\<close>, with the order of its iteration a parameter where it shows. A string is the list of its
  UTF-8 bytes. Third-party code is a parameter: the C library, CRC32C, MD5, the keyspace and the codec
  of the metadata store, the system calls on files, the HTTP library, the manager behind its channel.
  What is relied on of it is a locale or a named predicate, and each has an instance on which the
  properties are applied.

  \<^bold>\<open>Fuel.\<close> Streams and unbounded loops carry a patience \<open>n\<close>, the number of pages or messages the caller
  is willing to take; \<open>None\<close> stands for a call that has not returned by then. The properties state how
  large \<open>n\<close> has to be: one more than the number of blocks of a container is enough for a listing (C18)
  and for a scrub pass (C20). All other recursion terminates by itself.

  \<^bold>\<open>Foundations.\<close>
  \<^item> \<open>Ozone_Prelude\<close>: results, checked folds, sorted maps, byte-level lemmas and the simp collections
    the other theories use. \<open>Rust_Str\<close>, \<open>Rust_Utf8\<close>: the functions of Rust's \<open>str\<close> that the program
    calls, on bytes.
  \<^item> \<open>Ozone_Types\<close> (\<open>ozone-types\<close>): identifiers, containers, chunks, blocks, the EC configuration with
    its parser and validator.

  \<^bold>\<open>Erasure coding.\<close>
  \<^item> \<open>Galois\<close>, \<open>Cauchy\<close>, \<open>Gauss_Jordan\<close>: the field with 256 elements, the generator matrix and the
    inversion that \<open>isa-l-safe\<close> relies on. \<open>Isal_Safe\<close> (\<open>isa-l-safe\<close>): the safe wrapper, over the C
    library as a record parameter; \<open>Isal_Reference\<close>: the documented behaviour of that library as an
    executable instance.
  \<^item> \<open>Ec_Stripe\<close> (\<open>ozone-ec\<close>): profiles, per-stripe coders, \<open>encode_object\<close> and \<open>decode_object\<close>.
    \<open>Ec_Correct\<close>: any \<open>k\<close> intact shards decode to the object (C1), decoding is safe on untrusted
    shards and lengths (C2), the layout of the shards (C3), any \<open>k\<close> survivors rebuild the rest (C4).

  \<^bold>\<open>Storage.\<close>
  \<^item> \<open>Checksum\<close> (\<open>ozone-storage/src/checksum.rs\<close>): windowed CRC32C, computed and verified (C5).
  \<^item> \<open>Storage_Traits\<close>: the two storage traits as records of operations, each with its contract as a
    locale, \<open>chunk_store_laws\<close> and \<open>meta_store_laws\<close>.
  \<^item> \<open>Chunk_Store\<close> (\<open>chunk_store.rs\<close>): paths are component lists, resolved as the kernel does; the file
    system maps resolved paths to contents, and an oracle decides which system calls fail and what a
    failed one leaves behind. Writes are atomic (C6), deleting a container touches no other one even
    when it fails part way (C7). Chunk names are assumed to be one path component; the code does not
    check it, and \<open>chunk_name_escapes\<close> shows the consequence.
  \<^item> \<open>Fjall_Store\<close> (\<open>ozone-fjall-store\<close>): every operation over any keyspace and codec within
    \<open>fjall_contract\<close>. \<open>Meta_Counters\<close> derives the counters' invariant from the contract alone.
    \<open>Fjall_Correct\<close>: each mutation refines its specification whatever fails (C8), the counters agree
    with the blocks along any run (C9), and over a backend that does not fail each mutation answers
    exactly as specified, errors included (C10).

  \<^bold>\<open>The datanode.\<close>
  \<^item> \<open>Wire_Conv\<close> (\<open>ozone-grpc-types/src/conv.rs\<close>): messages round trip (C11) and whatever decodes is
    valid (C12).
  \<^item> \<open>Dn_Server\<close> (\<open>ozone-dn-server/src/lib.rs\<close>), \<open>Dn_Client\<close> (\<open>ozone-dn-client\<close>): the handlers and the
    typed calls. \<open>Dn_Correct\<close>: the two composed, first for any stores that meet their contracts and
    then for the deployed pair: chunk and block round trips (C13, C15), verified reads (C14), deletes
    that fail (C16, C17), listing (C18), framing (C19). Two lemmas show limits of the code: listing a
    container with two slots of one local id may not end (\<open>list_blocks_livelock\<close>), and chunk writes do
    not look at the container's state (\<open>closed_container_takes_chunks\<close>).
  \<^item> \<open>Scrub\<close> (\<open>scrub.rs\<close>): a pass reports exactly the rotten chunks and counts the clean ones (C20).
  \<^item> \<open>Repair\<close> (\<open>repair.rs\<close>): repair of one block group and reconstruction of a container.
    \<open>Repair_Correct\<close>: repair restores the shards first written (C21), reconstruction does not harm a
    live container (C22) and is all or nothing for an unknown one (C23).

  \<^bold>\<open>The gateway.\<close>
  \<^item> \<open>Om_Client\<close> (\<open>ozone-om-client/src/compliant.rs\<close>): every call, over a channel that is a function of
    the manager's state. \<open>Om_Fixture\<close> (\<open>compliant_om.rs\<close>): the manager of the tests. \<open>Om_Laws\<close>: what
    the gateway relies on of a manager (\<open>om_laws\<close>), proved of the fixture.
  \<^item> \<open>Gateway_Backend\<close> (\<open>backend.rs\<close>): objects, multipart uploads, copies, tags, buckets and listings,
    over a world of the manager, the datanodes and the cached channels. \<open>Shard_Peer\<close>: what the gateway
    relies on of a datanode (\<open>shard_peers\<close>), proved of the deployed one.
  \<^item> \<open>Gateway_Correct\<close>: what put, get, copy and delete do and leave alone, from the two contracts.
    \<open>Gateway_Live\<close>: when they return. \<open>Gateway_Props\<close>: objects survive lost and damaged shards (C24),
    puts and gets are available (C25), copies are, and do not depend on their source (C26).

  \<^bold>\<open>The S3 front end\<close> (\<open>ozone-s3-gw/src/lib.rs\<close>).
  \<^item> \<open>S3_Text\<close>: paths, queries, bodies, tags and ranges; \<open>S3_Dates\<close>: dates and preconditions; \<open>S3_Xml\<close>:
    the documents; \<open>S3_Route\<close>: every handler, from the headers to the response.
  \<^item> \<open>S3_Parse_Correct\<close>: dates (C27), tag documents (C28), ranges (C29), \<open>aws-chunked\<close> bodies (C30),
    query strings (C31), tagging headers (C32), conditional requests (C33). \<open>decode_aws_chunked_overflow\<close>,
    \<open>parse_http_date_overflow\<close> and \<open>copy_source_decoded\<close> show where the code misbehaves.

  \<^bold>\<open>Not modelled.\<close> The tonic and hyper transports, the Tokio scheduler and timers, and so the
  interleaving of requests: each operation runs by itself. Symbolic links under the data directory.
  The control loop with SCM and its client and fixture, the configuration files, logging and metrics
  (\<open>ozone-observability\<close>), the raw C bindings (\<open>isa-l-sys\<close>), generated code, and the binaries beyond
  the wiring of the stores. The route handlers and the listing, multipart and bucket operations of the
  gateway are modelled, with no property of their own yet.
\<close>

end
